theory Spec2Isabelle
  imports Complex_Main "HOL-Library.Multiset"
begin

section \<open>The validate-and-fix engine of scripts/verify-and-fix.js\<close>

text \<open>
  The development embeds the class \<open>ComprehensivePipelineValidator\<close> of
  \<^verbatim>\<open>scripts/verify-and-fix.js\<close>: the path scheme, the validator \<open>validateCard\<close>,
  the four fix operations, the dispatcher \<open>fixIssue\<close>, the bounded repair loop and the
  two phases of \<open>validateAndFixAll\<close>.

  The file system is a map from path strings to files. The image library and the CDN are
  the outside world: every write through the image library and every HTTP request consumes
  one entry of an arbitrary oracle, so that a property proved for all oracles holds for
  every pattern of failures.
\<close>

subsection \<open>Configuration, pipeline steps, issues\<close>

record config =
  edition :: string
  languages :: "string list"
  cardRange_start :: nat
  cardRange_end :: nat
  autoFix :: bool
  skipVariants :: bool
  tolerancePx :: int

datatype pipeline_step =
    DOWNLOAD
  | RESIZE_ORIGINAL
  | CONVERT_ORIGINAL
  | CROP_ART_ONLY
  | CONVERT_ART_ONLY
  | CROP_ART_AND_NAME
  | CONVERT_ART_AND_NAME

record issue =
  step :: pipeline_step
  path :: string
  language :: string

subsection \<open>Files, the outside world, the validator's state\<close>

text \<open>
  A file is an image with its pixel width and height, or bytes that the image library
  cannot decode.
\<close>

datatype filedata = Image nat nat | Corrupt

text \<open>
  What one write through the image library does: it writes the intended image, or it
  throws (leaving a partial file behind or not), or it reports success but the file it
  wrote has other dimensions.
\<close>

datatype outcome = Succeeds | Fails bool | Garbles nat nat

text \<open>What the CDN answers: status 200 with a body, or another status code.\<close>

datatype response = Status200 filedata | StatusOther nat

record env =
  codec :: "nat \<Rightarrow> outcome"
  http :: "nat \<Rightarrow> response"

datatype error =
    RequestFailed nat
  | SourceUnexpectedDimensions nat nat
  | CroppedWrongDimensions nat nat
  | InputFileMissing string
  | UnsupportedImage string
  | BadExtractArea
  | OutputFailed string
  | ENOENT string
  | EPERM string

datatype log_type = WARN | ERROR | FIX

datatype message =
    MissingOriginalWebp string string
  | OriginalWrongDimensions string string nat nat
  | MissingOriginalAvif string string
  | MissingArtOnlyWebp string
  | ArtOnlyUncropped string nat
  | ArtOnlyUnexpectedDimensions string nat nat
  | MissingArtOnlyAvif string
  | MissingArtAndNameWebp string string
  | ArtAndNameUncropped string string nat
  | ArtAndNameUnexpectedDimensions string string nat nat
  | MissingArtAndNameAvif string string
  | Downloading string
  | Downloaded string
  | DownloadFailed nat
  | Resizing string nat nat
  | Resized string
  | ConvertingToAvif string
  | Created string
  | Cropping string bool string string
  | Cropped string nat nat
  | Fixed string string pipeline_step
  | FailedToFix string string pipeline_step error

text \<open>
  The state of a run: the disk, the number of oracle entries consumed, the messages
  passed to \<open>log\<close> with type WARN, ERROR or FIX in the order of the calls (the lists
  \<open>errors\<close>, \<open>warnings\<close> and \<open>fixes\<close> of the class are its three projections), and the
  global counters of \<open>stats\<close>.
\<close>

record state =
  disk :: "string \<Rightarrow> filedata option"
  clock :: nat
  console :: "(log_type \<times> message) list"
  checked :: nat
  missing :: nat
  recovered :: nat
  failed :: nat

definition log_msg :: "message \<Rightarrow> log_type \<Rightarrow> state \<Rightarrow> state" where
  "log_msg m t st = st\<lparr>console := console st @ [(t, m)]\<rparr>"

definition errors :: "state \<Rightarrow> message list" where
  "errors st = map snd (filter (\<lambda>e. fst e = ERROR) (console st))"

definition warnings :: "state \<Rightarrow> message list" where
  "warnings st = map snd (filter (\<lambda>e. fst e = WARN) (console st))"

definition fixes_log :: "state \<Rightarrow> message list" where
  "fixes_log st = map snd (filter (\<lambda>e. fst e = FIX) (console st))"

subsection \<open>Computations that may throw\<close>

type_synonym 'a action = "state \<Rightarrow> (error + 'a) \<times> state"

definition ret :: "'a \<Rightarrow> 'a action" where
  "ret a st = (Inr a, st)"

definition throw :: "error \<Rightarrow> 'a action" where
  "throw e st = (Inl e, st)"

definition run :: "(state \<Rightarrow> state) \<Rightarrow> unit action" where
  "run f st = (Inr (), f st)"

definition andThen :: "'a action \<Rightarrow> ('a \<Rightarrow> 'b action) \<Rightarrow> 'b action" where
  "andThen m f st = (case m st of (Inl e, st') \<Rightarrow> (Inl e, st') | (Inr a, st') \<Rightarrow> f a st')"

definition tryCatch :: "'a action \<Rightarrow> (error \<Rightarrow> 'a action) \<Rightarrow> 'a action" where
  "tryCatch m h st = (case m st of (Inl e, st') \<Rightarrow> h e st' | (Inr a, st') \<Rightarrow> (Inr a, st'))"

subsection \<open>Strings: card numbers and paths\<close>

definition digit :: "nat \<Rightarrow> char" where
  "digit d = char_of (48 + d)"

function toString :: "nat \<Rightarrow> string" where
  "toString n = (if n < 10 then [digit n] else toString (n div 10) @ [digit (n mod 10)])"
  by pat_completeness auto
termination
  by (relation "measure id") auto

declare toString.simps [simp del]

definition padStart3 :: "string \<Rightarrow> string" where
  "padStart3 s = replicate (3 - length s) (CHR ''0'') @ s"

text \<open>
  \<open>toUpperCase\<close> and \<open>toLowerCase\<close> as they act on ASCII strings: the letters
  change case and every other character stays.
\<close>

definition upperChar :: "char \<Rightarrow> char" where
  "upperChar c = (if 97 \<le> (of_char c :: nat) \<and> (of_char c :: nat) \<le> 122
                  then char_of ((of_char c :: nat) - 32) else c)"

definition toUpperCase :: "string \<Rightarrow> string" where
  "toUpperCase s = map upperChar s"

definition getCardNumber :: "nat \<Rightarrow> string" where
  "getCardNumber num = padStart3 (toString num)"

record file_paths =
  originalWebp :: string
  originalAvif :: string
  artOnlyWebp :: string
  artOnlyAvif :: string
  artAndNameWebp :: string
  artAndNameAvif :: string

text \<open>\<open>rootFolder\<close> is imported from \<^verbatim>\<open>shared.js\<close>; it is a parameter here.\<close>

definition getFilePaths :: "config \<Rightarrow> string \<Rightarrow> nat \<Rightarrow> string \<Rightarrow> file_paths" where
  "getFilePaths cfg rootFolder cardNum lang =
    (let cardNumber = getCardNumber cardNum in
     \<lparr> originalWebp = rootFolder @ ''/'' @ lang @ ''/'' @ edition cfg @ ''/'' @ cardNumber @ ''.webp'',
       originalAvif = rootFolder @ ''/'' @ lang @ ''/'' @ edition cfg @ ''/'' @ cardNumber @ ''.avif'',
       artOnlyWebp = rootFolder @ ''/'' @ edition cfg @ ''/art_only/'' @ cardNumber @ ''.webp'',
       artOnlyAvif = rootFolder @ ''/'' @ edition cfg @ ''/art_only/'' @ cardNumber @ ''.avif'',
       artAndNameWebp = rootFolder @ ''/'' @ lang @ ''/'' @ edition cfg @ ''/art_and_name/'' @ cardNumber @ ''.webp'',
       artAndNameAvif = rootFolder @ ''/'' @ lang @ ''/'' @ edition cfg @ ''/art_and_name/'' @ cardNumber @ ''.avif'' \<rparr>)"

datatype variant = original | art_only | art_and_name

fun getExpectedDimensions :: "variant \<Rightarrow> nat \<times> nat" where
  "getExpectedDimensions original = (734, 1024)"
| "getExpectedDimensions art_only = (734, 603)"
| "getExpectedDimensions art_and_name = (734, 767)"

definition checkFileExists :: "string \<Rightarrow> state \<Rightarrow> bool" where
  "checkFileExists filePath st = (disk st filePath \<noteq> None)"

text \<open>
  \<open>sharp(filePath).metadata()\<close>: the width and height, or an exception. The file is
  read as it is on disk at the call. The image library keeps what it has opened in a cache
  keyed by the file name, which the script leaves switched on; the cache is not part of the
  state, so the definition is exact for a path that has not been overwritten since the
  library first opened it.
\<close>

definition metadata :: "string \<Rightarrow> (nat \<times> nat) action" where
  "metadata filePath st =
    (case disk st filePath of
       None \<Rightarrow> (Inl (InputFileMissing filePath), st)
     | Some Corrupt \<Rightarrow> (Inl (UnsupportedImage filePath), st)
     | Some (Image w h) \<Rightarrow> (Inr (w, h), st))"

subsection \<open>The validator: \<open>validateCard\<close>\<close>

text \<open>
  \<open>flag\<close> is the pair \<open>issues.push(...); this.log(..., 'WARN')\<close>; \<open>warn\<close> is the
  call of \<open>log\<close> alone; \<open>ifExists\<close> branches on \<open>checkFileExists\<close>.
\<close>

definition flag :: "issue \<Rightarrow> message \<Rightarrow> issue list \<Rightarrow> (issue list) action" where
  "flag i m issues = andThen (run (log_msg m WARN)) (\<lambda>_. ret (issues @ [i]))"

definition warn :: "message \<Rightarrow> issue list \<Rightarrow> (issue list) action" where
  "warn m issues = andThen (run (log_msg m WARN)) (\<lambda>_. ret issues)"

definition ifExists :: "string \<Rightarrow> 'a action \<Rightarrow> 'a action \<Rightarrow> 'a action" where
  "ifExists filePath a b st = (if checkFileExists filePath st then a st else b st)"

definition isFirstLanguage :: "config \<Rightarrow> string \<Rightarrow> bool" where
  "isFirstLanguage cfg lang = (case languages cfg of [] \<Rightarrow> False | l # _ \<Rightarrow> lang = l)"

text \<open>Step 2 of \<open>validateCard\<close>: the dimensions of the original WebP.\<close>

definition checkOriginalDimensions ::
  "string \<Rightarrow> string \<Rightarrow> file_paths \<Rightarrow> issue list \<Rightarrow> (issue list) action" where
  "checkOriginalDimensions cardNumber lang paths issues =
    andThen (metadata (originalWebp paths)) (\<lambda>(w, h).
      let expected = getExpectedDimensions original in
      if w \<noteq> fst expected \<or> h \<noteq> snd expected
      then flag \<lparr>step = RESIZE_ORIGINAL, path = originalWebp paths, language = lang\<rparr>
             (OriginalWrongDimensions cardNumber lang w h) issues
      else ret issues)"

text \<open>Step 3: the original AVIF.\<close>

definition checkOriginalAvif ::
  "string \<Rightarrow> string \<Rightarrow> file_paths \<Rightarrow> issue list \<Rightarrow> (issue list) action" where
  "checkOriginalAvif cardNumber lang paths issues =
    ifExists (originalAvif paths) (ret issues)
      (flag \<lparr>step = CONVERT_ORIGINAL, path = originalAvif paths, language = lang\<rparr>
         (MissingOriginalAvif cardNumber lang) issues)"

text \<open>Step 4: the art_only variant, for the first language only.\<close>

definition checkArtOnly ::
  "config \<Rightarrow> string \<Rightarrow> string \<Rightarrow> file_paths \<Rightarrow> issue list \<Rightarrow> (issue list) action" where
  "checkArtOnly cfg cardNumber lang paths issues =
    (if \<not> skipVariants cfg \<and> isFirstLanguage cfg lang then
       andThen
         (ifExists (artOnlyWebp paths)
            (andThen (metadata (artOnlyWebp paths)) (\<lambda>(w, h).
               let expectedArtOnly = getExpectedDimensions art_only in
               if h = 1024
               then flag \<lparr>step = CROP_ART_ONLY, path = artOnlyWebp paths, language = ''shared''\<rparr>
                      (ArtOnlyUncropped cardNumber h) issues
               else if \<bar>int h - int (snd expectedArtOnly)\<bar> > tolerancePx cfg
               then warn (ArtOnlyUnexpectedDimensions cardNumber w h) issues
               else ret issues))
            (flag \<lparr>step = CROP_ART_ONLY, path = artOnlyWebp paths, language = ''shared''\<rparr>
               (MissingArtOnlyWebp cardNumber) issues))
         (\<lambda>issues.
            ifExists (artOnlyAvif paths) (ret issues)
              (flag \<lparr>step = CONVERT_ART_ONLY, path = artOnlyAvif paths, language = ''shared''\<rparr>
                 (MissingArtOnlyAvif cardNumber) issues))
     else ret issues)"

text \<open>Step 5: the art_and_name variant, for each language.\<close>

definition checkArtAndName ::
  "config \<Rightarrow> string \<Rightarrow> string \<Rightarrow> file_paths \<Rightarrow> issue list \<Rightarrow> (issue list) action" where
  "checkArtAndName cfg cardNumber lang paths issues =
    (if \<not> skipVariants cfg then
       andThen
         (ifExists (artAndNameWebp paths)
            (andThen (metadata (artAndNameWebp paths)) (\<lambda>(w, h).
               let expectedArtAndName = getExpectedDimensions art_and_name in
               if h = 1024
               then flag \<lparr>step = CROP_ART_AND_NAME, path = artAndNameWebp paths, language = lang\<rparr>
                      (ArtAndNameUncropped cardNumber lang h) issues
               else if \<bar>int h - int (snd expectedArtAndName)\<bar> > tolerancePx cfg
               then warn (ArtAndNameUnexpectedDimensions cardNumber lang w h) issues
               else ret issues))
            (flag \<lparr>step = CROP_ART_AND_NAME, path = artAndNameWebp paths, language = lang\<rparr>
               (MissingArtAndNameWebp cardNumber lang) issues))
         (\<lambda>issues.
            ifExists (artAndNameAvif paths) (ret issues)
              (flag \<lparr>step = CONVERT_ART_AND_NAME, path = artAndNameAvif paths, language = lang\<rparr>
                 (MissingArtAndNameAvif cardNumber lang) issues))
     else ret issues)"

text \<open>
  The counters \<open>stats.byLanguage[language]\<close> are left out: the constructor creates
  them for the configured languages, the only ones that \<open>validateAndFixAll\<close> passes.
\<close>

definition validateCard :: "config \<Rightarrow> string \<Rightarrow> nat \<Rightarrow> string \<Rightarrow> (issue list) action" where
  "validateCard cfg rootFolder cardNum lang =
    (let cardNumber = getCardNumber cardNum;
         paths = getFilePaths cfg rootFolder cardNum lang in
     andThen
       (ifExists (originalWebp paths)
          (andThen (checkOriginalDimensions cardNumber lang paths []) (\<lambda>issues.
           andThen (checkOriginalAvif cardNumber lang paths issues) (\<lambda>issues.
           andThen (checkArtOnly cfg cardNumber lang paths issues) (\<lambda>issues.
           checkArtAndName cfg cardNumber lang paths issues))))
          (flag \<lparr>step = DOWNLOAD, path = originalWebp paths, language = lang\<rparr>
             (MissingOriginalWebp cardNumber lang) []))
       (\<lambda>issues.
          andThen (run (\<lambda>st. st\<lparr>checked := checked st + 1\<rparr>)) (\<lambda>_.
          if length issues > 0
          then andThen (run (\<lambda>st. st\<lparr>missing := missing st + 1\<rparr>)) (\<lambda>_. ret issues)
          else ret [])))"

subsection \<open>File-system and image-library primitives\<close>

text \<open>
  \<open>toFile\<close> is one write through the image library; it consumes one oracle entry.
  \<open>request\<close> is one HTTP request; it consumes one oracle entry as well.
\<close>

definition toFile :: "env \<Rightarrow> filedata \<Rightarrow> string \<Rightarrow> unit action" where
  "toFile e content filePath st =
    (let st' = st\<lparr>clock := Suc (clock st)\<rparr> in
     case codec e (clock st) of
       Succeeds \<Rightarrow> (Inr (), st'\<lparr>disk := (disk st)(filePath \<mapsto> content)\<rparr>)
     | Garbles w h \<Rightarrow> (Inr (), st'\<lparr>disk := (disk st)(filePath \<mapsto> Image w h)\<rparr>)
     | Fails partial \<Rightarrow>
         (Inl (OutputFailed filePath),
          if partial then st'\<lparr>disk := (disk st)(filePath \<mapsto> Corrupt)\<rparr> else st'))"

definition request :: "env \<Rightarrow> response action" where
  "request e st = (Inr (http e (clock st)), st\<lparr>clock := Suc (clock st)\<rparr>)"

definition writeFile :: "string \<Rightarrow> filedata \<Rightarrow> state \<Rightarrow> state" where
  "writeFile filePath content st = st\<lparr>disk := (disk st)(filePath \<mapsto> content)\<rparr>"

definition copyFileSync :: "string \<Rightarrow> string \<Rightarrow> unit action" where
  "copyFileSync src dest st =
    (case disk st src of
       None \<Rightarrow> (Inl (ENOENT src), st)
     | Some content \<Rightarrow> (Inr (), st\<lparr>disk := (disk st)(dest \<mapsto> content)\<rparr>))"

definition unlinkSync :: "string \<Rightarrow> unit action" where
  "unlinkSync filePath st =
    (case disk st filePath of
       None \<Rightarrow> (Inl (ENOENT filePath), st)
     | Some content \<Rightarrow> (Inr (), st\<lparr>disk := (disk st)(filePath := None)\<rparr>))"

definition renameSync :: "string \<Rightarrow> string \<Rightarrow> unit action" where
  "renameSync oldPath newPath st =
    (case disk st oldPath of
       None \<Rightarrow> (Inl (ENOENT oldPath), st)
     | Some content \<Rightarrow> (Inr (), st\<lparr>disk := (disk st)(oldPath := None, newPath \<mapsto> content)\<rparr>))"

text \<open>
  \<open>if (fs.existsSync(file)) fs.unlinkSync(file)\<close>, the body of both clean-up loops,
  on a file system that refuses no deletion. \<open>removeIfExistsOn\<close> below is the general
  form.
\<close>

definition removeIfExists :: "string \<Rightarrow> state \<Rightarrow> state" where
  "removeIfExists filePath st = st\<lparr>disk := (disk st)(filePath := None)\<rparr>"

text \<open>
  \<open>sharp(src).extract({left, top, width, height}).toFile(dest)\<close>: the region must lie
  inside the image.
\<close>

definition extractToFile :: "env \<Rightarrow> string \<Rightarrow> nat \<Rightarrow> nat \<Rightarrow> nat \<Rightarrow> nat \<Rightarrow> string \<Rightarrow> unit action" where
  "extractToFile e src leftPx topPx width height dest =
    andThen (metadata src) (\<lambda>(w, h).
      if width = 0 \<or> height = 0 \<or> leftPx + width > w \<or> topPx + height > h
      then throw BadExtractArea
      else toFile e (Image width height) dest)"

text \<open>
  \<open>joinImages([a, b], {direction: "vertical"})\<close> followed by \<open>toFile(dest)\<close>: the two
  images stacked, as wide as the wider one.
\<close>

definition joinImages :: "env \<Rightarrow> string \<Rightarrow> string \<Rightarrow> string \<Rightarrow> unit action" where
  "joinImages e a b dest =
    andThen (metadata a) (\<lambda>(w1, h1).
    andThen (metadata b) (\<lambda>(w2, h2).
      toFile e (Image (max w1 w2) (h1 + h2)) dest))"

text \<open>
  JavaScript's \<open>s.replace(pattern, replacement)\<close> with a string pattern: the first
  occurrence is replaced, and a string without the pattern is returned as it is.
\<close>

fun startsWith :: "string \<Rightarrow> string \<Rightarrow> bool" where
  "startsWith [] s = True"
| "startsWith (p # ps) [] = False"
| "startsWith (p # ps) (c # cs) = (p = c \<and> startsWith ps cs)"

fun replace :: "string \<Rightarrow> string \<Rightarrow> string \<Rightarrow> string" where
  "replace pat rep [] = (if pat = [] then rep else [])"
| "replace pat rep (c # cs) =
     (if startsWith pat (c # cs) then rep @ drop (length pat) (c # cs)
      else c # replace pat rep cs)"

text \<open>
  \<open>resizeImage\<close> names its temporary file by a regular-expression replacement: a final
  extension \<open>.webp\<close> or \<open>.avif\<close> becomes \<open>_temp.webp\<close> or \<open>_temp.avif\<close>, and any
  other path is left as it is.
\<close>

definition endsWith :: "string \<Rightarrow> string \<Rightarrow> bool" where
  "endsWith suf s = (length suf \<le> length s \<and> drop (length s - length suf) s = suf)"

definition resizeTempFile :: "string \<Rightarrow> string" where
  "resizeTempFile filePath =
    (if endsWith ''.webp'' filePath then take (length filePath - 5) filePath @ ''_temp.webp''
     else if endsWith ''.avif'' filePath then take (length filePath - 5) filePath @ ''_temp.avif''
     else filePath)"

subsection \<open>The fix operations\<close>

definition lowerChar :: "char \<Rightarrow> char" where
  "lowerChar c = (if 65 \<le> (of_char c :: nat) \<and> (of_char c :: nat) \<le> 90
                  then char_of ((of_char c :: nat) + 32) else c)"

definition toLowerCase :: "string \<Rightarrow> string" where
  "toLowerCase s = map lowerChar s"

definition downloadImage :: "env \<Rightarrow> string \<Rightarrow> nat \<Rightarrow> string \<Rightarrow> string \<Rightarrow> string action" where
  "downloadImage e rootFolder cardNumber lang ed =
    (let cardNumberPadded = padStart3 (toString cardNumber);
         editionPadded = padStart3 ed;
         url = ''https://cdn.dreamborn.ink/images/'' @ toLowerCase lang @ ''/cards/''
                 @ editionPadded @ ''-'' @ cardNumberPadded;
         destination = rootFolder @ ''/'' @ toUpperCase lang @ ''/'' @ editionPadded @ ''/''
                 @ cardNumberPadded @ ''.webp'' in
     andThen (run (log_msg (Downloading url) FIX)) (\<lambda>_.
     andThen (request e) (\<lambda>res.
       case res of
         Status200 body \<Rightarrow>
           andThen (run (writeFile destination body)) (\<lambda>_.
           andThen (run (log_msg (Downloaded destination) FIX)) (\<lambda>_.
           ret destination))
       | StatusOther statusCode \<Rightarrow>
           andThen (run (log_msg (DownloadFailed statusCode) ERROR)) (\<lambda>_.
           throw (RequestFailed statusCode)))))"

definition resizeImage :: "env \<Rightarrow> string \<Rightarrow> nat \<times> nat \<Rightarrow> unit action" where
  "resizeImage e filePath dimensions =
    andThen (run (log_msg (Resizing filePath (fst dimensions) (snd dimensions)) FIX)) (\<lambda>_.
    let tempFile = resizeTempFile filePath in
    andThen (copyFileSync filePath tempFile) (\<lambda>_.
    andThen (metadata tempFile) (\<lambda>_.
    andThen (toFile e (Image (fst dimensions) (snd dimensions)) filePath) (\<lambda>_.
    andThen (unlinkSync tempFile) (\<lambda>_.
    run (log_msg (Resized filePath) FIX))))))"

definition convertToAvif :: "env \<Rightarrow> string \<Rightarrow> string \<Rightarrow> unit action" where
  "convertToAvif e webpPath avifPath =
    andThen (run (log_msg (ConvertingToAvif avifPath) FIX)) (\<lambda>_.
    andThen (metadata webpPath) (\<lambda>(w, h).
    andThen (toFile e (Image w h) avifPath) (\<lambda>_.
    run (log_msg (Created avifPath) FIX))))"

text \<open>
  The crop fractions are the binary64 values of the literals \<open>0.52\<close>, \<open>0.674\<close>,
  \<open>0.931\<close> and \<open>0.925\<close>. \<open>cropImage\<close> multiplies them by the source height only after
  it has checked that this height is 1024, a power of two, so the product is exact in
  binary64 and \<open>Math.floor\<close> of it is the floor of the real product.
\<close>

definition topFraction :: "bool \<Rightarrow> real" where
  "topFraction artOnly =
    (if artOnly then 1170935903116329 / 2 ^ 51 else 6070852297695429 / 2 ^ 53)"

definition bottomStartFraction :: "bool \<Rightarrow> real" where
  "bottomStartFraction artOnly =
    (if artOnly then 1048212813270483 / 2 ^ 50 else 4165829655317709 / 2 ^ 52)"

definition topEndHeight :: "bool \<Rightarrow> nat \<Rightarrow> nat" where
  "topEndHeight artOnly height = nat \<lfloor>real height * topFraction artOnly\<rfloor>"

definition bottomStartHeight :: "bool \<Rightarrow> nat \<Rightarrow> nat" where
  "bottomStartHeight artOnly height = nat \<lfloor>real height * bottomStartFraction artOnly\<rfloor>"

text \<open>The three temporary files of a crop, named after the destination.\<close>

definition tempDestinationOf :: "string \<Rightarrow> string" where
  "tempDestinationOf destinationFile = replace ''.webp'' ''_temp_dest.webp'' destinationFile"

definition topFileOf :: "string \<Rightarrow> string" where
  "topFileOf destinationFile = replace ''.webp'' ''_top.webp'' destinationFile"

definition bottomFileOf :: "string \<Rightarrow> string" where
  "bottomFileOf destinationFile = replace ''.webp'' ''_bottom.webp'' destinationFile"

definition cropImage :: "env \<Rightarrow> string \<Rightarrow> string \<Rightarrow> bool \<Rightarrow> string \<Rightarrow> bool action" where
  "cropImage e sourceFile destinationFile artOnly cardNumber =
    andThen (run (log_msg (Cropping cardNumber artOnly sourceFile destinationFile) FIX)) (\<lambda>_.
    let tempDestination = tempDestinationOf destinationFile;
        topFile = topFileOf destinationFile;
        bottomFile = bottomFileOf destinationFile in
    tryCatch
      (andThen (metadata sourceFile) (\<lambda>(width, height).
       if width \<noteq> 734 \<or> height \<noteq> 1024
       then throw (SourceUnexpectedDimensions width height)
       else
         let topStartHeight = 0;
             topEnd = topEndHeight artOnly height;
             bottomStart = bottomStartHeight artOnly height;
             bottomEnd = height in
         andThen (extractToFile e sourceFile 0 topStartHeight width
                    (topEnd - topStartHeight) topFile) (\<lambda>_.
         andThen (extractToFile e sourceFile 0 bottomStart width
                    (bottomEnd - bottomStart) bottomFile) (\<lambda>_.
         andThen (joinImages e topFile bottomFile tempDestination) (\<lambda>_.
         andThen (metadata tempDestination) (\<lambda>(resultWidth, resultHeight).
         let expectedHeight =
               (topEnd - topStartHeight) + (bottomEnd - bottomStart) in
         if resultWidth \<noteq> 734 \<or> resultHeight \<noteq> expectedHeight
         then throw (CroppedWrongDimensions resultWidth resultHeight)
         else
           andThen (renameSync tempDestination destinationFile) (\<lambda>_.
           andThen (run (log_msg (Cropped destinationFile resultWidth resultHeight) FIX)) (\<lambda>_.
           andThen (run (removeIfExists topFile)) (\<lambda>_.
           andThen (run (removeIfExists bottomFile)) (\<lambda>_.
           ret True))))))))))
      (\<lambda>err.
         andThen (run (removeIfExists tempDestination)) (\<lambda>_.
         andThen (run (removeIfExists topFile)) (\<lambda>_.
         andThen (run (removeIfExists bottomFile)) (\<lambda>_.
         throw err)))))"

text \<open>The height that \<open>cropImage\<close> expects of its result, for a source of height 1024.\<close>

definition croppedHeight :: "bool \<Rightarrow> nat" where
  "croppedHeight artOnly = topEndHeight artOnly 1024 + (1024 - bottomStartHeight artOnly 1024)"

text \<open>
  \<open>fs.unlinkSync\<close> and \<open>fs.renameSync\<close> throw when the file system refuses to
  remove or to replace a file (EPERM, EBUSY). \<open>locked\<close> tells the paths of the files
  that cannot be removed or replaced; \<open>unlinkSyncOn\<close>, \<open>renameSyncOn\<close>,
  \<open>removeIfExistsOn\<close> and \<open>cropImageOn\<close> are \<open>unlinkSync\<close>, \<open>renameSync\<close>,
  the body of the clean-up loops and \<open>cropImage\<close> on such a file system. The clean-up
  after the rename is inside the \<open>try\<close> block, so an exception of it reaches the
  \<open>catch\<close> block, whose own clean-up can throw in turn; the exception that leaves
  \<open>cropImage\<close> is then the last one thrown. \<open>cropImage\<close> above is
  \<open>cropImageOn\<close> with no path locked.
\<close>

definition unlinkSyncOn :: "(string \<Rightarrow> bool) \<Rightarrow> string \<Rightarrow> unit action" where
  "unlinkSyncOn locked filePath st =
    (case disk st filePath of
       None \<Rightarrow> (Inl (ENOENT filePath), st)
     | Some content \<Rightarrow>
         if locked filePath then (Inl (EPERM filePath), st)
         else (Inr (), st\<lparr>disk := (disk st)(filePath := None)\<rparr>))"

definition renameSyncOn :: "(string \<Rightarrow> bool) \<Rightarrow> string \<Rightarrow> string \<Rightarrow> unit action" where
  "renameSyncOn locked oldPath newPath st =
    (case disk st oldPath of
       None \<Rightarrow> (Inl (ENOENT oldPath), st)
     | Some content \<Rightarrow>
         if locked oldPath then (Inl (EPERM oldPath), st)
         else if locked newPath \<and> disk st newPath \<noteq> None then (Inl (EPERM newPath), st)
         else (Inr (), st\<lparr>disk := (disk st)(oldPath := None, newPath \<mapsto> content)\<rparr>))"

definition removeIfExistsOn :: "(string \<Rightarrow> bool) \<Rightarrow> string \<Rightarrow> unit action" where
  "removeIfExistsOn locked filePath =
    ifExists filePath (unlinkSyncOn locked filePath) (ret ())"

definition cropImageOn ::
  "(string \<Rightarrow> bool) \<Rightarrow> env \<Rightarrow> string \<Rightarrow> string \<Rightarrow> bool \<Rightarrow> string \<Rightarrow> bool action" where
  "cropImageOn locked e sourceFile destinationFile artOnly cardNumber =
    andThen (run (log_msg (Cropping cardNumber artOnly sourceFile destinationFile) FIX)) (\<lambda>_.
    let tempDestination = tempDestinationOf destinationFile;
        topFile = topFileOf destinationFile;
        bottomFile = bottomFileOf destinationFile in
    tryCatch
      (andThen (metadata sourceFile) (\<lambda>(width, height).
       if width \<noteq> 734 \<or> height \<noteq> 1024
       then throw (SourceUnexpectedDimensions width height)
       else
         let topStartHeight = 0;
             topEnd = topEndHeight artOnly height;
             bottomStart = bottomStartHeight artOnly height;
             bottomEnd = height in
         andThen (extractToFile e sourceFile 0 topStartHeight width
                    (topEnd - topStartHeight) topFile) (\<lambda>_.
         andThen (extractToFile e sourceFile 0 bottomStart width
                    (bottomEnd - bottomStart) bottomFile) (\<lambda>_.
         andThen (joinImages e topFile bottomFile tempDestination) (\<lambda>_.
         andThen (metadata tempDestination) (\<lambda>(resultWidth, resultHeight).
         let expectedHeight =
               (topEnd - topStartHeight) + (bottomEnd - bottomStart) in
         if resultWidth \<noteq> 734 \<or> resultHeight \<noteq> expectedHeight
         then throw (CroppedWrongDimensions resultWidth resultHeight)
         else
           andThen (renameSyncOn locked tempDestination destinationFile) (\<lambda>_.
           andThen (run (log_msg (Cropped destinationFile resultWidth resultHeight) FIX)) (\<lambda>_.
           andThen (removeIfExistsOn locked topFile) (\<lambda>_.
           andThen (removeIfExistsOn locked bottomFile) (\<lambda>_.
           ret True))))))))))
      (\<lambda>err.
         andThen (removeIfExistsOn locked tempDestination) (\<lambda>_.
         andThen (removeIfExistsOn locked topFile) (\<lambda>_.
         andThen (removeIfExistsOn locked bottomFile) (\<lambda>_.
         throw err)))))"

subsection \<open>The dispatcher \<open>fixIssue\<close>\<close>

definition dispatch :: "env \<Rightarrow> config \<Rightarrow> string \<Rightarrow> issue \<Rightarrow> nat \<Rightarrow> string \<Rightarrow> unit action" where
  "dispatch e cfg rootFolder iss cardNum lang =
    (let cardNumber = getCardNumber cardNum;
         paths = getFilePaths cfg rootFolder cardNum lang in
     case step iss of
       DOWNLOAD \<Rightarrow>
         andThen (downloadImage e rootFolder cardNum lang (edition cfg)) (\<lambda>_. ret ())
     | RESIZE_ORIGINAL \<Rightarrow>
         andThen (resizeImage e (originalWebp paths) (getExpectedDimensions original)) (\<lambda>_.
         ifExists (originalAvif paths)
           (resizeImage e (originalAvif paths) (getExpectedDimensions original))
           (ret ()))
     | CONVERT_ORIGINAL \<Rightarrow> convertToAvif e (originalWebp paths) (originalAvif paths)
     | CROP_ART_ONLY \<Rightarrow>
         andThen (cropImage e (originalWebp paths) (artOnlyWebp paths) True cardNumber)
           (\<lambda>_. ret ())
     | CONVERT_ART_ONLY \<Rightarrow> convertToAvif e (artOnlyWebp paths) (artOnlyAvif paths)
     | CROP_ART_AND_NAME \<Rightarrow>
         andThen (cropImage e (originalWebp paths) (artAndNameWebp paths) False cardNumber)
           (\<lambda>_. ret ())
     | CONVERT_ART_AND_NAME \<Rightarrow> convertToAvif e (artAndNameWebp paths) (artAndNameAvif paths))"

text \<open>
  \<open>fixIssue\<close> catches every exception of the fix it dispatches to: it counts and logs
  the outcome and returns whether the fix succeeded.
\<close>

definition fixIssue ::
  "env \<Rightarrow> config \<Rightarrow> string \<Rightarrow> issue \<Rightarrow> nat \<Rightarrow> string \<Rightarrow> state \<Rightarrow> bool \<times> state" where
  "fixIssue e cfg rootFolder iss cardNum lang st =
    (let cardNumber = getCardNumber cardNum in
     case dispatch e cfg rootFolder iss cardNum lang st of
       (Inr _, st') \<Rightarrow>
         (True, log_msg (Fixed cardNumber lang (step iss)) FIX
                  (st'\<lparr>recovered := recovered st' + 1\<rparr>))
     | (Inl err, st') \<Rightarrow>
         (False, log_msg (FailedToFix cardNumber lang (step iss) err) ERROR
                   (st'\<lparr>failed := failed st' + 1\<rparr>)))"

subsection \<open>Ordering the issues, the repair loop, the two phases\<close>

definition order :: "pipeline_step list" where
  "order = [DOWNLOAD, RESIZE_ORIGINAL, CONVERT_ORIGINAL, CROP_ART_ONLY, CONVERT_ART_ONLY,
            CROP_ART_AND_NAME, CONVERT_ART_AND_NAME]"

fun indexOf :: "'a list \<Rightarrow> 'a \<Rightarrow> int" where
  "indexOf [] x = -1"
| "indexOf (y # ys) x =
     (if x = y then 0 else (let i = indexOf ys x in if i < 0 then -1 else i + 1))"

text \<open>
  \<open>issues.sort((a, b) => order.indexOf(a.step) - order.indexOf(b.step))\<close>:
  \<open>Array.prototype.sort\<close> is a stable sort, here by the index of the step.
\<close>

definition sortIssuesByPipelineOrder :: "issue list \<Rightarrow> issue list" where
  "sortIssuesByPipelineOrder issues = sort_key (\<lambda>i. indexOf order (step i)) issues"

definition maxAttempts :: nat where
  "maxAttempts = 3"

text \<open>The inner loop \<open>for (const issue of sortedIssues) await this.fixIssue(...)\<close>.\<close>

fun applyFixes :: "env \<Rightarrow> config \<Rightarrow> string \<Rightarrow> nat \<Rightarrow> string \<Rightarrow> issue list \<Rightarrow> state \<Rightarrow> state" where
  "applyFixes e cfg rootFolder cardNum lang [] st = st"
| "applyFixes e cfg rootFolder cardNum lang (iss # rest) st =
     applyFixes e cfg rootFolder cardNum lang rest
       (snd (fixIssue e cfg rootFolder iss cardNum lang st))"

text \<open>
  The \<open>while\<close> loop of phase 2 for one card, entered with the attempt counter and the
  remaining issues. It returns the remaining issues (or the exception of a
  re-validation), the attempt counter and the state.
\<close>

function fixLoop ::
  "env \<Rightarrow> config \<Rightarrow> string \<Rightarrow> nat \<Rightarrow> string \<Rightarrow> nat \<Rightarrow> issue list \<Rightarrow> state
     \<Rightarrow> (error + issue list) \<times> nat \<times> state" where
  "fixLoop e cfg rootFolder cardNum lang attempt remainingIssues st =
    (if length remainingIssues > 0 \<and> attempt < maxAttempts then
       (let attempt' = attempt + 1;
            sortedIssues = sortIssuesByPipelineOrder remainingIssues;
            st1 = applyFixes e cfg rootFolder cardNum lang sortedIssues st in
        case validateCard cfg rootFolder cardNum lang st1 of
          (Inl err, st2) \<Rightarrow> (Inl err, attempt', st2)
        | (Inr remainingIssues', st2) \<Rightarrow>
            if length remainingIssues' = 0 then (Inr remainingIssues', attempt', st2)
            else fixLoop e cfg rootFolder cardNum lang attempt' remainingIssues' st2)
     else (Inr remainingIssues, attempt, st))"
  by pat_completeness auto
termination
  by (relation "measure (\<lambda>(e, cfg, rootFolder, cardNum, lang, attempt, remainingIssues, st).
                   maxAttempts - attempt)") auto

declare fixLoop.simps [simp del]

text \<open>Phase 1: every language, and in it every card of the range, is validated.\<close>

fun validateAll ::
  "config \<Rightarrow> string \<Rightarrow> (string \<times> nat) list \<Rightarrow> (nat \<times> string \<times> issue list) list
     \<Rightarrow> ((nat \<times> string \<times> issue list) list) action" where
  "validateAll cfg rootFolder [] allIssues = ret allIssues"
| "validateAll cfg rootFolder ((lang, cardNum) # rest) allIssues =
     andThen (validateCard cfg rootFolder cardNum lang) (\<lambda>issues.
       validateAll cfg rootFolder rest
         (if length issues > 0 then allIssues @ [(cardNum, lang, issues)] else allIssues))"

definition cardsToCheck :: "config \<Rightarrow> (string \<times> nat) list" where
  "cardsToCheck cfg =
    concat (map (\<lambda>lang. map (\<lambda>cardNum. (lang, cardNum))
                          [cardRange_start cfg ..< Suc (cardRange_end cfg)])
                (languages cfg))"

text \<open>Phase 2: the repair loop for every card that had issues in phase 1.\<close>

fun fixAll ::
  "env \<Rightarrow> config \<Rightarrow> string \<Rightarrow> (nat \<times> string \<times> issue list) list \<Rightarrow> unit action" where
  "fixAll e cfg rootFolder [] st = (Inr (), st)"
| "fixAll e cfg rootFolder ((cardNum, lang, issues) # rest) st =
     (case fixLoop e cfg rootFolder cardNum lang 0 issues st of
        (Inl err, attempt, st') \<Rightarrow> (Inl err, st')
      | (Inr remainingIssues, attempt, st') \<Rightarrow> fixAll e cfg rootFolder rest st')"

definition validateAndFixAll :: "env \<Rightarrow> config \<Rightarrow> string \<Rightarrow> unit action" where
  "validateAndFixAll e cfg rootFolder =
    andThen (validateAll cfg rootFolder (cardsToCheck cfg) []) (\<lambda>allIssues.
      if length allIssues = 0 then ret ()
      else if \<not> autoFix cfg then ret ()
      else fixAll e cfg rootFolder allIssues)"

subsection \<open>A closed form of the validator's result\<close>

text \<open>
  What \<open>validateCard\<close> finds is a function of the disk alone. A finding is an issue with
  its warning, or a warning without an issue. The lemmas \<open>validateCard_readable\<close> and
  \<open>validateCard_Inr_readable\<close> below prove that \<open>validateCard\<close> returns exactly these
  findings whenever none of the files it probes is undecodable, and throws otherwise.
\<close>

definition variantFindings ::
  "int \<Rightarrow> nat \<Rightarrow> issue \<Rightarrow> issue \<Rightarrow> message \<Rightarrow> (nat \<Rightarrow> message) \<Rightarrow> (nat \<Rightarrow> nat \<Rightarrow> message)
     \<Rightarrow> message \<Rightarrow> string \<Rightarrow> string \<Rightarrow> (string \<Rightarrow> filedata option)
     \<Rightarrow> (issue option \<times> message) list" where
  "variantFindings tol expectedHeight cropIssue convertIssue mMissing mUncropped mUnexpected
     mMissingAvif webp avif d =
    (case d webp of
       None \<Rightarrow> [(Some cropIssue, mMissing)]
     | Some Corrupt \<Rightarrow> []
     | Some (Image w h) \<Rightarrow>
         if h = 1024 then [(Some cropIssue, mUncropped h)]
         else if \<bar>int h - int expectedHeight\<bar> > tol then [(None, mUnexpected w h)]
         else [])
    @ (if d avif = None then [(Some convertIssue, mMissingAvif)] else [])"

definition artOnlyFindings ::
  "config \<Rightarrow> string \<Rightarrow> string \<Rightarrow> file_paths \<Rightarrow> (string \<Rightarrow> filedata option)
     \<Rightarrow> (issue option \<times> message) list" where
  "artOnlyFindings cfg cardNumber lang paths d =
    (if \<not> skipVariants cfg \<and> isFirstLanguage cfg lang then
       variantFindings (tolerancePx cfg) 603
         \<lparr>step = CROP_ART_ONLY, path = artOnlyWebp paths, language = ''shared''\<rparr>
         \<lparr>step = CONVERT_ART_ONLY, path = artOnlyAvif paths, language = ''shared''\<rparr>
         (MissingArtOnlyWebp cardNumber) (ArtOnlyUncropped cardNumber)
         (ArtOnlyUnexpectedDimensions cardNumber) (MissingArtOnlyAvif cardNumber)
         (artOnlyWebp paths) (artOnlyAvif paths) d
     else [])"

definition artAndNameFindings ::
  "config \<Rightarrow> string \<Rightarrow> string \<Rightarrow> file_paths \<Rightarrow> (string \<Rightarrow> filedata option)
     \<Rightarrow> (issue option \<times> message) list" where
  "artAndNameFindings cfg cardNumber lang paths d =
    (if \<not> skipVariants cfg then
       variantFindings (tolerancePx cfg) 767
         \<lparr>step = CROP_ART_AND_NAME, path = artAndNameWebp paths, language = lang\<rparr>
         \<lparr>step = CONVERT_ART_AND_NAME, path = artAndNameAvif paths, language = lang\<rparr>
         (MissingArtAndNameWebp cardNumber lang) (ArtAndNameUncropped cardNumber lang)
         (ArtAndNameUnexpectedDimensions cardNumber lang) (MissingArtAndNameAvif cardNumber lang)
         (artAndNameWebp paths) (artAndNameAvif paths) d
     else [])"

definition originalFindings ::
  "string \<Rightarrow> string \<Rightarrow> file_paths \<Rightarrow> (string \<Rightarrow> filedata option)
     \<Rightarrow> (issue option \<times> message) list" where
  "originalFindings cardNumber lang paths d =
    (case d (originalWebp paths) of
       Some (Image w h) \<Rightarrow>
         if w \<noteq> 734 \<or> h \<noteq> 1024
         then [(Some \<lparr>step = RESIZE_ORIGINAL, path = originalWebp paths, language = lang\<rparr>,
                OriginalWrongDimensions cardNumber lang w h)]
         else []
     | _ \<Rightarrow> [])
    @ (if d (originalAvif paths) = None
       then [(Some \<lparr>step = CONVERT_ORIGINAL, path = originalAvif paths, language = lang\<rparr>,
              MissingOriginalAvif cardNumber lang)]
       else [])"

definition cardFindings ::
  "config \<Rightarrow> string \<Rightarrow> nat \<Rightarrow> string \<Rightarrow> (string \<Rightarrow> filedata option)
     \<Rightarrow> (issue option \<times> message) list" where
  "cardFindings cfg rootFolder cardNum lang d =
    (let cardNumber = getCardNumber cardNum;
         paths = getFilePaths cfg rootFolder cardNum lang in
     if d (originalWebp paths) = None
     then [(Some \<lparr>step = DOWNLOAD, path = originalWebp paths, language = lang\<rparr>,
            MissingOriginalWebp cardNumber lang)]
     else originalFindings cardNumber lang paths d
          @ artOnlyFindings cfg cardNumber lang paths d
          @ artAndNameFindings cfg cardNumber lang paths d)"

fun issuesOf :: "(issue option \<times> message) list \<Rightarrow> issue list" where
  "issuesOf [] = []"
| "issuesOf ((Some i, m) # fs) = i # issuesOf fs"
| "issuesOf ((None, m) # fs) = issuesOf fs"

definition warningsOf :: "(issue option \<times> message) list \<Rightarrow> (log_type \<times> message) list" where
  "warningsOf fs = map (\<lambda>f. (WARN, snd f)) fs"

definition readable :: "config \<Rightarrow> string \<Rightarrow> nat \<Rightarrow> string \<Rightarrow> (string \<Rightarrow> filedata option) \<Rightarrow> bool" where
  "readable cfg rootFolder cardNum lang d =
    (let paths = getFilePaths cfg rootFolder cardNum lang in
     d (originalWebp paths) \<noteq> Some Corrupt \<and>
     (d (originalWebp paths) \<noteq> None \<longrightarrow>
        (\<not> skipVariants cfg \<and> isFirstLanguage cfg lang \<longrightarrow> d (artOnlyWebp paths) \<noteq> Some Corrupt) \<and>
        (\<not> skipVariants cfg \<longrightarrow> d (artAndNameWebp paths) \<noteq> Some Corrupt)))"


text \<open>
  The fixes that were attempted, in order: each call of \<open>fixIssue\<close> ends with one
  message, \<open>Fixed\<close> or \<open>Failed to fix\<close>, that names the card, the language and the step.
\<close>

fun attempted :: "log_type \<times> message \<Rightarrow> (string \<times> string \<times> pipeline_step) list" where
  "attempted (FIX, Fixed cardNumber lang s) = [(cardNumber, lang, s)]"
| "attempted (ERROR, FailedToFix cardNumber lang s err) = [(cardNumber, lang, s)]"
| "attempted (t, m) = []"

definition executed :: "state \<Rightarrow> (string \<times> string \<times> pipeline_step) list" where
  "executed st = concat (map attempted (console st))"

subsection \<open>Specifications of computations\<close>

text \<open>
  \<open>hoare P m Q E\<close>: started in a state that satisfies \<open>P\<close>, the computation \<open>m\<close> ends
  in a state that satisfies \<open>Q\<close> of its result when it returns and \<open>E\<close> of its exception
  when it throws. \<open>invariant P m\<close>: \<open>m\<close> keeps \<open>P\<close>, however it ends.
\<close>

definition hoare ::
  "(state \<Rightarrow> bool) \<Rightarrow> 'a action \<Rightarrow> ('a \<Rightarrow> state \<Rightarrow> bool) \<Rightarrow> (error \<Rightarrow> state \<Rightarrow> bool) \<Rightarrow> bool" where
  "hoare P m Q E =
    (\<forall>st. P st \<longrightarrow> (case m st of (Inr a, st') \<Rightarrow> Q a st' | (Inl err, st') \<Rightarrow> E err st'))"

definition invariant :: "(state \<Rightarrow> bool) \<Rightarrow> 'a action \<Rightarrow> bool" where
  "invariant P m = hoare P m (\<lambda>_. P) (\<lambda>_. P)"

subsection \<open>Concrete configurations and disks\<close>

text \<open>
  Two languages, English first, and card 42 of set 001 under the root folder \<open>cards\<close>;
  \<open>newValidator\<close> is the state after the constructor: empty logs, counters at zero.
\<close>

definition exampleConfig :: config where
  "exampleConfig =
    \<lparr>edition = ''001'', languages = [''EN'', ''IT''], cardRange_start = 42, cardRange_end = 42,
     autoFix = True, skipVariants = False, tolerancePx = 2\<rparr>"

definition newValidator :: "(string \<Rightarrow> filedata option) \<Rightarrow> state" where
  "newValidator d =
    \<lparr>disk = d, clock = 0, console = [], checked = 0, missing = 0, recovered = 0, failed = 0\<rparr>"

text \<open>The Italian original is missing and an uncropped art_and_name file is on disk.\<close>

definition diskUncroppedWithoutOriginal :: "string \<Rightarrow> filedata option" where
  "diskUncroppedWithoutOriginal = [''cards/IT/001/art_and_name/042.webp'' \<mapsto> Image 734 1024]"

text \<open>The English card with both variants uncropped.\<close>

definition diskUncropped :: "string \<Rightarrow> filedata option" where
  "diskUncropped =
    [''cards/EN/001/042.webp'' \<mapsto> Image 734 1024,
     ''cards/EN/001/042.avif'' \<mapsto> Image 734 1024,
     ''cards/001/art_only/042.webp'' \<mapsto> Image 734 1024,
     ''cards/001/art_only/042.avif'' \<mapsto> Image 734 1024,
     ''cards/EN/001/art_and_name/042.webp'' \<mapsto> Image 734 1024,
     ''cards/EN/001/art_and_name/042.avif'' \<mapsto> Image 734 1024]"

text \<open>The Italian card, complete, with an original of 733 by 1023 pixels.\<close>

definition diskOriginal733 :: "string \<Rightarrow> filedata option" where
  "diskOriginal733 =
    [''cards/IT/001/042.webp'' \<mapsto> Image 733 1023,
     ''cards/IT/001/042.avif'' \<mapsto> Image 733 1023,
     ''cards/IT/001/art_and_name/042.webp'' \<mapsto> Image 734 767,
     ''cards/IT/001/art_and_name/042.avif'' \<mapsto> Image 734 767]"

text \<open>The Italian card with an original of 700 by 1000 pixels and no AVIF of it.\<close>

definition diskOriginal700 :: "string \<Rightarrow> filedata option" where
  "diskOriginal700 =
    [''cards/IT/001/042.webp'' \<mapsto> Image 700 1000,
     ''cards/IT/001/art_and_name/042.webp'' \<mapsto> Image 734 767,
     ''cards/IT/001/art_and_name/042.avif'' \<mapsto> Image 734 767]"

text \<open>The Italian card, complete, with an art_and_name file of height 767 + 3.\<close>

definition diskVariant770 :: "string \<Rightarrow> filedata option" where
  "diskVariant770 =
    [''cards/IT/001/042.webp'' \<mapsto> Image 734 1024,
     ''cards/IT/001/042.avif'' \<mapsto> Image 734 1024,
     ''cards/IT/001/art_and_name/042.webp'' \<mapsto> Image 734 770,
     ''cards/IT/001/art_and_name/042.avif'' \<mapsto> Image 734 770]"

text \<open>An outside world in which every write succeeds and the CDN serves a 734 by 1024 image.\<close>

definition allSucceed :: env where
  "allSucceed = \<lparr>codec = (\<lambda>t. Succeeds), http = (\<lambda>t. Status200 (Image 734 1024))\<rparr>"

text \<open>The Italian original in both formats, and no variant.\<close>

definition diskComplete734 :: "string \<Rightarrow> filedata option" where
  "diskComplete734 =
    [''cards/IT/001/042.webp'' \<mapsto> Image 734 1024,
     ''cards/IT/001/042.avif'' \<mapsto> Image 734 1024]"

text \<open>An outside world in which the third write of the image library throws and leaves a
  partial file.\<close>

definition joinFails :: env where
  "joinFails = \<lparr>codec = (\<lambda>t. if t = 2 then Fails True else Succeeds),
                http = (\<lambda>t. Status200 (Image 734 1024))\<rparr>"

subsection \<open>Which language has the art_only fixes attempted\<close>

text \<open>
  Auxiliary predicates of the proofs about art_only: in a list of attempted fixes, every
  art_only step was attempted for the first language; an issue list names no art_only step;
  every entry of the list collected by phase 1 is of the first language or names no art_only
  step.
\<close>

definition firstLanguageOwnsArtOnly :: "config \<Rightarrow> (string \<times> string \<times> pipeline_step) list \<Rightarrow> bool" where
  "firstLanguageOwnsArtOnly cfg xs =
    (\<forall>x \<in> set xs. (snd (snd x) = CROP_ART_ONLY \<or> snd (snd x) = CONVERT_ART_ONLY)
        \<longrightarrow> isFirstLanguage cfg (fst (snd x)))"

definition noArtOnly :: "issue list \<Rightarrow> bool" where
  "noArtOnly issues = (\<forall>i \<in> set issues. step i \<noteq> CROP_ART_ONLY \<and> step i \<noteq> CONVERT_ART_ONLY)"

definition entriesOk :: "config \<Rightarrow> (nat \<times> string \<times> issue list) list \<Rightarrow> bool" where
  "entriesOk cfg allIssues =
    (\<forall>x \<in> set allIssues. isFirstLanguage cfg (fst (snd x)) \<or> noArtOnly (snd (snd x)))"

text \<open>An outside world in which the CDN answers 404 to every request.\<close>

definition notFound :: env where
  "notFound = \<lparr>codec = (\<lambda>t. Succeeds), http = (\<lambda>t. StatusOther 404)\<rparr>"

text \<open>The English original is lost and there is no art_and_name file: only the art_only
  files are in place.\<close>

definition diskOriginalLost :: "string \<Rightarrow> filedata option" where
  "diskOriginalLost =
    [''cards/001/art_only/042.webp'' \<mapsto> Image 734 603,
     ''cards/001/art_only/042.avif'' \<mapsto> Image 734 603]"

text \<open>A configuration whose language codes are written in lower case.\<close>

definition lowerCaseConfig :: config where
  "lowerCaseConfig =
    \<lparr>edition = ''001'', languages = [''en'', ''it''], cardRange_start = 42, cardRange_end = 42,
     autoFix = True, skipVariants = False, tolerancePx = 2\<rparr>"

text \<open>A file system that refuses to delete the top strip of the Italian art_and_name crop.\<close>

definition topLocked :: "string \<Rightarrow> bool" where
  "topLocked filePath = (filePath = ''cards/IT/001/art_and_name/042_top.webp'')"

section \<open>Lemmas about the validator\<close>

lemmas monad_defs = andThen_def ret_def throw_def run_def tryCatch_def ifExists_def
  flag_def warn_def checkFileExists_def log_msg_def metadata_def

lemma issuesOf_append [simp]: "issuesOf (fs @ gs) = issuesOf fs @ issuesOf gs"
  by (induction fs rule: issuesOf.induct) simp_all

lemma warningsOf_simps [simp]:
  "warningsOf [] = []"
  "warningsOf ((i, m) # fs) = (WARN, m) # warningsOf fs"
  "warningsOf (fs @ gs) = warningsOf fs @ warningsOf gs"
  by (simp_all add: warningsOf_def)

lemma checkOriginalDimensions_eq:
  "checkOriginalDimensions cardNumber lang paths issues st =
    (case disk st (originalWebp paths) of
       None \<Rightarrow> (Inl (InputFileMissing (originalWebp paths)), st)
     | Some Corrupt \<Rightarrow> (Inl (UnsupportedImage (originalWebp paths)), st)
     | Some (Image w h) \<Rightarrow>
         if w \<noteq> 734 \<or> h \<noteq> 1024
         then (Inr (issues @ [\<lparr>step = RESIZE_ORIGINAL, path = originalWebp paths, language = lang\<rparr>]),
               st\<lparr>console := console st @ [(WARN, OriginalWrongDimensions cardNumber lang w h)]\<rparr>)
         else (Inr issues, st))"
  by (simp add: checkOriginalDimensions_def monad_defs split: option.splits filedata.splits)

lemma checkOriginalAvif_eq:
  "checkOriginalAvif cardNumber lang paths issues st =
    (if disk st (originalAvif paths) = None
     then (Inr (issues @ [\<lparr>step = CONVERT_ORIGINAL, path = originalAvif paths, language = lang\<rparr>]),
           st\<lparr>console := console st @ [(WARN, MissingOriginalAvif cardNumber lang)]\<rparr>)
     else (Inr issues, st))"
  by (simp add: checkOriginalAvif_def monad_defs)

lemma checkArtOnly_eq:
  "checkArtOnly cfg cardNumber lang paths issues st =
    (if \<not> skipVariants cfg \<and> isFirstLanguage cfg lang
        \<and> disk st (artOnlyWebp paths) = Some Corrupt
     then (Inl (UnsupportedImage (artOnlyWebp paths)), st)
     else (Inr (issues @ issuesOf (artOnlyFindings cfg cardNumber lang paths (disk st))),
           st\<lparr>console := console st
                  @ warningsOf (artOnlyFindings cfg cardNumber lang paths (disk st))\<rparr>))"
  by (simp add: checkArtOnly_def artOnlyFindings_def variantFindings_def monad_defs
           split: option.splits filedata.splits)

lemma checkArtAndName_eq:
  "checkArtAndName cfg cardNumber lang paths issues st =
    (if \<not> skipVariants cfg \<and> disk st (artAndNameWebp paths) = Some Corrupt
     then (Inl (UnsupportedImage (artAndNameWebp paths)), st)
     else (Inr (issues @ issuesOf (artAndNameFindings cfg cardNumber lang paths (disk st))),
           st\<lparr>console := console st
                  @ warningsOf (artAndNameFindings cfg cardNumber lang paths (disk st))\<rparr>))"
  by (simp add: checkArtAndName_def artAndNameFindings_def variantFindings_def monad_defs
           split: option.splits filedata.splits)

lemmas step_eqs = checkOriginalDimensions_eq checkOriginalAvif_eq checkArtOnly_eq checkArtAndName_eq

lemma validateCard_readable:
  assumes "readable cfg rootFolder cardNum lang (disk st)"
  shows "validateCard cfg rootFolder cardNum lang st =
    (Inr (issuesOf (cardFindings cfg rootFolder cardNum lang (disk st))),
     st\<lparr>console := console st @ warningsOf (cardFindings cfg rootFolder cardNum lang (disk st)),
        checked := checked st + 1,
        missing := missing st
          + (if issuesOf (cardFindings cfg rootFolder cardNum lang (disk st)) = [] then 0 else 1)\<rparr>)"
  using assms
  by (auto simp: validateCard_def readable_def cardFindings_def originalFindings_def Let_def step_eqs
        andThen_def ret_def run_def ifExists_def flag_def checkFileExists_def log_msg_def
      split: option.splits filedata.splits)

lemma validateCard_Inr_readable:
  assumes "validateCard cfg rootFolder cardNum lang st = (Inr issues, st')"
  shows "readable cfg rootFolder cardNum lang (disk st)"
  using assms
  by (auto simp: validateCard_def readable_def Let_def step_eqs
        andThen_def ret_def run_def ifExists_def flag_def checkFileExists_def log_msg_def
      split: option.splits filedata.splits if_splits)

lemma validateCard_frame:
  assumes "validateCard cfg rootFolder cardNum lang st = (r, st')"
  shows "disk st' = disk st \<and> clock st' = clock st \<and> recovered st' = recovered st
         \<and> failed st' = failed st
         \<and> (\<exists>ws. console st' = console st @ ws \<and> (\<forall>e \<in> set ws. fst e = WARN))"
  using assms
  by (auto simp: validateCard_def Let_def step_eqs warningsOf_def
        andThen_def ret_def run_def ifExists_def flag_def checkFileExists_def log_msg_def
      split: option.splits filedata.splits if_splits)

lemma validateCard_issues:
  assumes "fst (validateCard cfg rootFolder cardNum lang st) = Inr issues"
  shows "issues = issuesOf (cardFindings cfg rootFolder cardNum lang (disk st))"
    and "readable cfg rootFolder cardNum lang (disk st)"
proof -
  obtain st' where v: "validateCard cfg rootFolder cardNum lang st = (Inr issues, st')"
    using assms by (cases "validateCard cfg rootFolder cardNum lang st") auto
  show r: "readable cfg rootFolder cardNum lang (disk st)"
    using v by (rule validateCard_Inr_readable)
  show "issues = issuesOf (cardFindings cfg rootFolder cardNum lang (disk st))"
    using v validateCard_readable[OF r] by simp
qed

lemma validateCard_console:
  assumes "fst (validateCard cfg rootFolder cardNum lang st) = Inr issues"
  shows "console (snd (validateCard cfg rootFolder cardNum lang st)) =
           console st @ warningsOf (cardFindings cfg rootFolder cardNum lang (disk st))"
  using validateCard_readable[OF validateCard_issues(2)[OF assms]] by simp

lemma paths_EN: "getFilePaths exampleConfig ''cards'' 42 ''EN'' =
  \<lparr>originalWebp = ''cards/EN/001/042.webp'', originalAvif = ''cards/EN/001/042.avif'',
   artOnlyWebp = ''cards/001/art_only/042.webp'', artOnlyAvif = ''cards/001/art_only/042.avif'',
   artAndNameWebp = ''cards/EN/001/art_and_name/042.webp'',
   artAndNameAvif = ''cards/EN/001/art_and_name/042.avif''\<rparr>"
  by code_simp

lemma paths_IT: "getFilePaths exampleConfig ''cards'' 42 ''IT'' =
  \<lparr>originalWebp = ''cards/IT/001/042.webp'', originalAvif = ''cards/IT/001/042.avif'',
   artOnlyWebp = ''cards/001/art_only/042.webp'', artOnlyAvif = ''cards/001/art_only/042.avif'',
   artAndNameWebp = ''cards/IT/001/art_and_name/042.webp'',
   artAndNameAvif = ''cards/IT/001/art_and_name/042.avif''\<rparr>"
  by code_simp

lemma originalFindings_steps:
  "i \<in> set (issuesOf (originalFindings cardNumber lang paths d))
     \<Longrightarrow> step i = RESIZE_ORIGINAL \<or> step i = CONVERT_ORIGINAL"
  by (auto simp: originalFindings_def split: option.splits filedata.splits if_splits)

lemma artOnlyFindings_steps:
  "i \<in> set (issuesOf (artOnlyFindings cfg cardNumber lang paths d))
     \<Longrightarrow> step i = CROP_ART_ONLY \<or> step i = CONVERT_ART_ONLY"
  by (auto simp: artOnlyFindings_def variantFindings_def
           split: option.splits filedata.splits if_splits)

lemma artAndNameFindings_steps:
  "i \<in> set (issuesOf (artAndNameFindings cfg cardNumber lang paths d))
     \<Longrightarrow> step i = CROP_ART_AND_NAME \<or> step i = CONVERT_ART_AND_NAME"
  by (auto simp: artAndNameFindings_def variantFindings_def
           split: option.splits filedata.splits if_splits)

lemma artAndNameFindings_crop:
  "(\<exists>i \<in> set (issuesOf (artAndNameFindings cfg cardNumber lang paths d)). step i = CROP_ART_AND_NAME)
     \<longleftrightarrow> \<not> skipVariants cfg \<and> (d (artAndNameWebp paths) = None
                                  \<or> (\<exists>w. d (artAndNameWebp paths) = Some (Image w 1024)))"
  by (auto simp: artAndNameFindings_def variantFindings_def
           split: option.splits filedata.splits if_splits)

lemma artOnlyFindings_crop:
  "(\<exists>i \<in> set (issuesOf (artOnlyFindings cfg cardNumber lang paths d)). step i = CROP_ART_ONLY)
     \<longleftrightarrow> \<not> skipVariants cfg \<and> isFirstLanguage cfg lang
         \<and> (d (artOnlyWebp paths) = None \<or> (\<exists>w. d (artOnlyWebp paths) = Some (Image w 1024)))"
  by (auto simp: artOnlyFindings_def variantFindings_def
           split: option.splits filedata.splits if_splits)

lemma originalFindings_messages:
  "(t, m) \<in> set (warningsOf (originalFindings cardNumber lang paths d))
     \<Longrightarrow> (\<exists>w h. m = OriginalWrongDimensions cardNumber lang w h) \<or> m = MissingOriginalAvif cardNumber lang"
  by (auto simp: originalFindings_def split: option.splits filedata.splits if_splits)

lemma artAndNameFindings_unexpected:
  "(t, ArtAndNameUnexpectedDimensions a b w h)
      \<in> set (warningsOf (artAndNameFindings cfg cardNumber lang paths d))
     \<longleftrightarrow> t = WARN \<and> a = cardNumber \<and> b = lang \<and> \<not> skipVariants cfg
         \<and> d (artAndNameWebp paths) = Some (Image w h) \<and> h \<noteq> 1024
         \<and> \<bar>int h - 767\<bar> > tolerancePx cfg"
  by (auto simp: artAndNameFindings_def variantFindings_def
           split: option.splits filedata.splits if_splits)

lemma artOnlyFindings_unexpected:
  "(t, ArtOnlyUnexpectedDimensions a w h)
      \<in> set (warningsOf (artOnlyFindings cfg cardNumber lang paths d))
     \<longleftrightarrow> t = WARN \<and> a = cardNumber \<and> \<not> skipVariants cfg \<and> isFirstLanguage cfg lang
         \<and> d (artOnlyWebp paths) = Some (Image w h) \<and> h \<noteq> 1024
         \<and> \<bar>int h - 603\<bar> > tolerancePx cfg"
  by (auto simp: artOnlyFindings_def variantFindings_def
           split: option.splits filedata.splits if_splits)

lemma artOnlyFindings_not_aan:
  "(t, ArtAndNameUnexpectedDimensions a b w h)
      \<notin> set (warningsOf (artOnlyFindings cfg cardNumber lang paths d))"
  by (auto simp: artOnlyFindings_def variantFindings_def
           split: option.splits filedata.splits if_splits)

lemma artAndNameFindings_not_ao:
  "(t, ArtOnlyUnexpectedDimensions a w h)
      \<notin> set (warningsOf (artAndNameFindings cfg cardNumber lang paths d))"
  by (auto simp: artAndNameFindings_def variantFindings_def
           split: option.splits filedata.splits if_splits)

lemma cardFindings_present:
  assumes "d (originalWebp (getFilePaths cfg rootFolder cardNum lang)) \<noteq> None"
  shows "cardFindings cfg rootFolder cardNum lang d =
     originalFindings (getCardNumber cardNum) lang (getFilePaths cfg rootFolder cardNum lang) d
     @ artOnlyFindings cfg (getCardNumber cardNum) lang (getFilePaths cfg rootFolder cardNum lang) d
     @ artAndNameFindings cfg (getCardNumber cardNum) lang (getFilePaths cfg rootFolder cardNum lang) d"
  using assms
  by (cases "d (originalWebp (getFilePaths cfg rootFolder cardNum lang))")
     (simp_all add: cardFindings_def Let_def)


lemma cardFindings_absent:
  assumes "d (originalWebp (getFilePaths cfg rootFolder cardNum lang)) = None"
  shows "cardFindings cfg rootFolder cardNum lang d =
     [(Some \<lparr>step = DOWNLOAD, path = originalWebp (getFilePaths cfg rootFolder cardNum lang),
              language = lang\<rparr>,
       MissingOriginalWebp (getCardNumber cardNum) lang)]"
  using assms by (simp add: cardFindings_def Let_def)

lemma originalFindings_resize:
  "d (originalWebp paths) = Some (Image w h) \<Longrightarrow>
   (\<exists>i \<in> set (issuesOf (originalFindings cardNumber lang paths d)). step i = RESIZE_ORIGINAL)
     \<longleftrightarrow> (w \<noteq> 734 \<or> h \<noteq> 1024)"
  by (auto simp: originalFindings_def split: option.splits filedata.splits if_splits)

lemma originalFindings_resize_path:
  "i \<in> set (issuesOf (originalFindings cardNumber lang paths d)) \<Longrightarrow> step i = RESIZE_ORIGINAL
     \<Longrightarrow> path i = originalWebp paths"
  by (auto simp: originalFindings_def split: option.splits filedata.splits if_splits)

lemma originalFindings_convert:
  "(\<exists>i \<in> set (issuesOf (originalFindings cardNumber lang paths d)). step i = CONVERT_ORIGINAL)
     \<longleftrightarrow> d (originalAvif paths) = None"
  by (auto simp: originalFindings_def split: option.splits filedata.splits if_splits)

lemma artAndNameFindings_crop_mem:
  "\<not> skipVariants cfg \<Longrightarrow> d (artAndNameWebp paths) = Some (Image w 1024) \<Longrightarrow>
   \<lparr>step = CROP_ART_AND_NAME, path = artAndNameWebp paths, language = lang\<rparr>
     \<in> set (issuesOf (artAndNameFindings cfg cardNumber lang paths d))"
  by (simp add: artAndNameFindings_def variantFindings_def)

lemma artOnlyFindings_crop_mem:
  "\<not> skipVariants cfg \<Longrightarrow> isFirstLanguage cfg lang \<Longrightarrow> d (artOnlyWebp paths) = Some (Image w 1024) \<Longrightarrow>
   \<lparr>step = CROP_ART_ONLY, path = artOnlyWebp paths, language = ''shared''\<rparr>
     \<in> set (issuesOf (artOnlyFindings cfg cardNumber lang paths d))"
  by (simp add: artOnlyFindings_def variantFindings_def)

lemma validateCard_issues_present:
  assumes "fst (validateCard cfg rootFolder cardNum lang st) = Inr issues"
    and "disk st (originalWebp (getFilePaths cfg rootFolder cardNum lang)) \<noteq> None"
  shows "set issues =
     set (issuesOf (originalFindings (getCardNumber cardNum) lang
                      (getFilePaths cfg rootFolder cardNum lang) (disk st)))
     \<union> set (issuesOf (artOnlyFindings cfg (getCardNumber cardNum) lang
                      (getFilePaths cfg rootFolder cardNum lang) (disk st)))
     \<union> set (issuesOf (artAndNameFindings cfg (getCardNumber cardNum) lang
                      (getFilePaths cfg rootFolder cardNum lang) (disk st)))"
  unfolding validateCard_issues(1)[OF assms(1)]
    cardFindings_present[where d = "disk st", OF assms(2)] by auto

lemma validateCard_issues_absent:
  assumes "fst (validateCard cfg rootFolder cardNum lang st) = Inr issues"
    and "disk st (originalWebp (getFilePaths cfg rootFolder cardNum lang)) = None"
  shows "issues = [\<lparr>step = DOWNLOAD, path = originalWebp (getFilePaths cfg rootFolder cardNum lang),
              language = lang\<rparr>]"
  unfolding validateCard_issues(1)[OF assms(1)]
    cardFindings_absent[where d = "disk st", OF assms(2)] by simp

section \<open>Rules for specifications, and the specification of \<open>cropImage\<close>\<close>

lemma hoare_andThen:
  assumes "hoare P m R E" and "\<And>a. hoare (R a) (f a) Q E"
  shows "hoare P (andThen m f) Q E"
  using assms unfolding hoare_def andThen_def
  by (fastforce split: prod.splits sum.splits)

lemma hoare_tryCatch:
  assumes "hoare P m Q R" and "\<And>err. hoare (R err) (h err) Q E"
  shows "hoare P (tryCatch m h) Q E"
  using assms unfolding hoare_def tryCatch_def
  by (fastforce split: prod.splits sum.splits)

lemma hoare_weaken:
  assumes "hoare P' m Q' E'" and "\<And>s. P s \<Longrightarrow> P' s" and "\<And>a s. Q' a s \<Longrightarrow> Q a s"
    and "\<And>err s. E' err s \<Longrightarrow> E err s"
  shows "hoare P m Q E"
  using assms unfolding hoare_def
  by (fastforce split: prod.splits sum.splits)

lemma hoare_ret: "(\<And>s. P s \<Longrightarrow> Q a s) \<Longrightarrow> hoare P (ret a) Q E"
  by (simp add: hoare_def ret_def)

lemma hoare_throw: "(\<And>s. P s \<Longrightarrow> E err s) \<Longrightarrow> hoare P (throw err) Q E"
  by (simp add: hoare_def throw_def)

lemma hoare_run: "(\<And>s. P s \<Longrightarrow> Q () (f s)) \<Longrightarrow> hoare P (run f) Q E"
  by (simp add: hoare_def run_def)

lemma hoare_if:
  assumes "c \<Longrightarrow> hoare P m Q E" and "\<not> c \<Longrightarrow> hoare P m' Q E"
  shows "hoare P (if c then m else m') Q E"
  using assms by simp

lemma hoare_invariant: "invariant P m \<Longrightarrow> hoare P m (\<lambda>_. P) (\<lambda>_. P)"
  by (simp add: invariant_def)

lemma invariant_andThen:
  "invariant P m \<Longrightarrow> (\<And>a. invariant P (f a)) \<Longrightarrow> invariant P (andThen m f)"
  unfolding invariant_def by (rule hoare_andThen)

lemma invariant_tryCatch:
  "invariant P m \<Longrightarrow> (\<And>err. invariant P (h err)) \<Longrightarrow> invariant P (tryCatch m h)"
  unfolding invariant_def by (rule hoare_tryCatch)

lemma invariant_ret: "invariant P (ret a)"
  by (simp add: invariant_def hoare_def ret_def)

lemma invariant_throw: "invariant P (throw err)"
  by (simp add: invariant_def hoare_def throw_def)

lemma invariant_run: "(\<And>s. P s \<Longrightarrow> P (f s)) \<Longrightarrow> invariant P (run f)"
  by (simp add: invariant_def hoare_def run_def)

lemma invariant_if:
  "(c \<Longrightarrow> invariant P m) \<Longrightarrow> (\<not> c \<Longrightarrow> invariant P m') \<Longrightarrow> invariant P (if c then m else m')"
  by simp

lemma invariant_ifExists:
  "invariant P a \<Longrightarrow> invariant P b \<Longrightarrow> invariant P (ifExists filePath a b)"
  by (simp add: invariant_def hoare_def ifExists_def)

lemma invariant_case_prod:
  "(\<And>a b. invariant P (f a b)) \<Longrightarrow> invariant P (case_prod f x)"
  by (cases x) simp

lemma invariant_metadata: "invariant P (metadata filePath)"
  by (simp add: invariant_def hoare_def metadata_def split: option.splits filedata.splits)

text \<open>Invariants that do not look at the clock, nor at the disk at the written path.\<close>

lemma invariant_toFile:
  assumes "\<And>s c. P s \<Longrightarrow> P (s\<lparr>clock := Suc (clock s)\<rparr>)"
    and "\<And>s c. P s \<Longrightarrow> P (s\<lparr>clock := Suc (clock s), disk := (disk s)(filePath \<mapsto> c)\<rparr>)"
  shows "invariant P (toFile e content filePath)"
  using assms
  by (auto simp: invariant_def hoare_def toFile_def Let_def split: outcome.splits)

lemma invariant_extractToFile:
  assumes "\<And>s c. P s \<Longrightarrow> P (s\<lparr>clock := Suc (clock s)\<rparr>)"
    and "\<And>s c. P s \<Longrightarrow> P (s\<lparr>clock := Suc (clock s), disk := (disk s)(dest \<mapsto> c)\<rparr>)"
  shows "invariant P (extractToFile e src l t w h dest)"
  unfolding extractToFile_def
  by (intro invariant_andThen invariant_metadata invariant_case_prod invariant_if
        invariant_throw invariant_toFile assms)

lemma invariant_joinImages:
  assumes "\<And>s c. P s \<Longrightarrow> P (s\<lparr>clock := Suc (clock s)\<rparr>)"
    and "\<And>s c. P s \<Longrightarrow> P (s\<lparr>clock := Suc (clock s), disk := (disk s)(dest \<mapsto> c)\<rparr>)"
  shows "invariant P (joinImages e a b dest)"
  unfolding joinImages_def
  by (intro invariant_andThen invariant_metadata invariant_case_prod invariant_toFile assms)

lemma hoare_metadata:
  "hoare P (metadata filePath) (\<lambda>(w, h) s. P s \<and> disk s filePath = Some (Image w h)) (\<lambda>_. P)"
  by (simp add: hoare_def metadata_def split: option.splits filedata.splits)

lemma crop_tail:
  assumes "dest \<noteq> tmp" "dest \<noteq> a" "dest \<noteq> b"
  shows "hoare (\<lambda>s. disk s tmp = Some (Image rw rh))
     (andThen (renameSync tmp dest) (\<lambda>_.
      andThen (run (log_msg m FIX)) (\<lambda>_.
      andThen (run (removeIfExists a)) (\<lambda>_.
      andThen (run (removeIfExists b)) (\<lambda>_.
      ret True)))))
     (\<lambda>_ s. disk s dest = Some (Image rw rh) \<and> disk s tmp = None \<and> disk s a = None
             \<and> disk s b = None)
     (\<lambda>_ s. False)"
  using assms
  by (simp add: hoare_def andThen_def ret_def run_def renameSync_def removeIfExists_def log_msg_def)

lemma cropImage_hoare:
  assumes d: "destinationFile \<noteq> tempDestinationOf destinationFile"
             "destinationFile \<noteq> topFileOf destinationFile"
             "destinationFile \<noteq> bottomFileOf destinationFile"
  shows "hoare (\<lambda>s. disk s destinationFile = v)
           (cropImage e sourceFile destinationFile artOnly cardNumber)
           (\<lambda>_ s. disk s destinationFile = Some (Image 734 (croppedHeight artOnly))
                   \<and> disk s (tempDestinationOf destinationFile) = None
                   \<and> disk s (topFileOf destinationFile) = None
                   \<and> disk s (bottomFileOf destinationFile) = None)
           (\<lambda>_ s. disk s destinationFile = v
                   \<and> disk s (tempDestinationOf destinationFile) = None
                   \<and> disk s (topFileOf destinationFile) = None
                   \<and> disk s (bottomFileOf destinationFile) = None)"
proof -
  let ?I = "\<lambda>s. disk s destinationFile = v"
  let ?T = "tempDestinationOf destinationFile"
  let ?A = "topFileOf destinationFile"
  let ?B = "bottomFileOf destinationFile"
  let ?Q = "\<lambda>s. disk s destinationFile = Some (Image 734 (croppedHeight artOnly))
                   \<and> disk s ?T = None \<and> disk s ?A = None \<and> disk s ?B = None"
  have inv_top: "invariant ?I (extractToFile e src l t w h ?A)" for src l t w h
    using d by (intro invariant_extractToFile) simp_all
  have inv_bottom: "invariant ?I (extractToFile e src l t w h ?B)" for src l t w h
    using d by (intro invariant_extractToFile) simp_all
  have inv_join: "invariant ?I (joinImages e a b ?T)" for a b
    using d by (intro invariant_joinImages) simp_all
  have tail: "hoare (\<lambda>s. ?I s \<and> disk s ?T = Some (Image rw rh))
      (if rw \<noteq> 734 \<or> rh \<noteq> croppedHeight artOnly
       then throw (CroppedWrongDimensions rw rh)
       else andThen (renameSync ?T destinationFile) (\<lambda>_.
            andThen (run (log_msg (Cropped destinationFile rw rh) FIX)) (\<lambda>_.
            andThen (run (removeIfExists ?A)) (\<lambda>_.
            andThen (run (removeIfExists ?B)) (\<lambda>_.
            ret True)))))
      (\<lambda>_. ?Q) (\<lambda>_. ?I)" for rw rh
  proof (cases "rw \<noteq> 734 \<or> rh \<noteq> croppedHeight artOnly")
    case True
    then show ?thesis by (simp add: hoare_def throw_def)
  next
    case False
    then have eq: "rw = 734" "rh = croppedHeight artOnly" by auto
    have "hoare (\<lambda>s. ?I s \<and> disk s ?T = Some (Image rw rh))
       (andThen (renameSync ?T destinationFile) (\<lambda>_.
        andThen (run (log_msg (Cropped destinationFile rw rh) FIX)) (\<lambda>_.
        andThen (run (removeIfExists ?A)) (\<lambda>_.
        andThen (run (removeIfExists ?B)) (\<lambda>_.
        ret True)))))
       (\<lambda>_. ?Q) (\<lambda>_. ?I)"
      by (rule hoare_weaken[OF crop_tail[OF d, of rw rh "Cropped destinationFile rw rh"]])
         (simp_all add: eq)
    then show ?thesis using False by simp
  qed
  have body: "hoare ?I
      (andThen (metadata sourceFile) (\<lambda>(width, height).
       if width \<noteq> 734 \<or> height \<noteq> 1024
       then throw (SourceUnexpectedDimensions width height)
       else
         andThen (extractToFile e sourceFile 0 0 width (topEndHeight artOnly height - 0) ?A) (\<lambda>_.
         andThen (extractToFile e sourceFile 0 (bottomStartHeight artOnly height) width
                    (height - bottomStartHeight artOnly height) ?B) (\<lambda>_.
         andThen (joinImages e ?A ?B ?T) (\<lambda>_.
         andThen (metadata ?T) (\<lambda>(resultWidth, resultHeight).
         if resultWidth \<noteq> 734 \<or> resultHeight \<noteq>
              (topEndHeight artOnly height - 0) + (height - bottomStartHeight artOnly height)
         then throw (CroppedWrongDimensions resultWidth resultHeight)
         else
           andThen (renameSync ?T destinationFile) (\<lambda>_.
           andThen (run (log_msg (Cropped destinationFile resultWidth resultHeight) FIX)) (\<lambda>_.
           andThen (run (removeIfExists ?A)) (\<lambda>_.
           andThen (run (removeIfExists ?B)) (\<lambda>_.
           ret True))))))))))
      (\<lambda>_. ?Q) (\<lambda>_. ?I)"
  proof (rule hoare_andThen[where R = "\<lambda>_. ?I"])
    show "hoare ?I (metadata sourceFile) (\<lambda>_. ?I) (\<lambda>_. ?I)"
      by (rule hoare_invariant[OF invariant_metadata])
  next
    fix a :: "nat \<times> nat"
    obtain width height where a: "a = (width, height)" by (cases a)
    show "hoare ?I ((\<lambda>(width, height).
       if width \<noteq> 734 \<or> height \<noteq> 1024
       then throw (SourceUnexpectedDimensions width height)
       else
         andThen (extractToFile e sourceFile 0 0 width (topEndHeight artOnly height - 0) ?A) (\<lambda>_.
         andThen (extractToFile e sourceFile 0 (bottomStartHeight artOnly height) width
                    (height - bottomStartHeight artOnly height) ?B) (\<lambda>_.
         andThen (joinImages e ?A ?B ?T) (\<lambda>_.
         andThen (metadata ?T) (\<lambda>(resultWidth, resultHeight).
         if resultWidth \<noteq> 734 \<or> resultHeight \<noteq>
              (topEndHeight artOnly height - 0) + (height - bottomStartHeight artOnly height)
         then throw (CroppedWrongDimensions resultWidth resultHeight)
         else
           andThen (renameSync ?T destinationFile) (\<lambda>_.
           andThen (run (log_msg (Cropped destinationFile resultWidth resultHeight) FIX)) (\<lambda>_.
           andThen (run (removeIfExists ?A)) (\<lambda>_.
           andThen (run (removeIfExists ?B)) (\<lambda>_.
           ret True))))))))) a)
      (\<lambda>_. ?Q) (\<lambda>_. ?I)"
    proof (cases "width \<noteq> 734 \<or> height \<noteq> 1024")
      case True
      then show ?thesis unfolding a by (simp add: hoare_def throw_def)
    next
      case False
      then have wh: "width = 734" "height = 1024" by auto
      have "hoare ?I
         (andThen (extractToFile e sourceFile 0 0 734 (topEndHeight artOnly 1024 - 0) ?A) (\<lambda>_.
          andThen (extractToFile e sourceFile 0 (bottomStartHeight artOnly 1024) 734
                    (1024 - bottomStartHeight artOnly 1024) ?B) (\<lambda>_.
          andThen (joinImages e ?A ?B ?T) (\<lambda>_.
          andThen (metadata ?T) (\<lambda>(resultWidth, resultHeight).
          if resultWidth \<noteq> 734 \<or> resultHeight \<noteq> croppedHeight artOnly
          then throw (CroppedWrongDimensions resultWidth resultHeight)
          else
            andThen (renameSync ?T destinationFile) (\<lambda>_.
            andThen (run (log_msg (Cropped destinationFile resultWidth resultHeight) FIX)) (\<lambda>_.
            andThen (run (removeIfExists ?A)) (\<lambda>_.
            andThen (run (removeIfExists ?B)) (\<lambda>_.
            ret True)))))))))
         (\<lambda>_. ?Q) (\<lambda>_. ?I)"
      proof (rule hoare_andThen[where R = "\<lambda>_. ?I", OF hoare_invariant[OF inv_top]],
             rule hoare_andThen[where R = "\<lambda>_. ?I", OF hoare_invariant[OF inv_bottom]],
             rule hoare_andThen[where R = "\<lambda>_. ?I", OF hoare_invariant[OF inv_join]])
        show "hoare ?I
          (andThen (metadata ?T) (\<lambda>(resultWidth, resultHeight).
          if resultWidth \<noteq> 734 \<or> resultHeight \<noteq> croppedHeight artOnly
          then throw (CroppedWrongDimensions resultWidth resultHeight)
          else
            andThen (renameSync ?T destinationFile) (\<lambda>_.
            andThen (run (log_msg (Cropped destinationFile resultWidth resultHeight) FIX)) (\<lambda>_.
            andThen (run (removeIfExists ?A)) (\<lambda>_.
            andThen (run (removeIfExists ?B)) (\<lambda>_.
            ret True))))))
          (\<lambda>_. ?Q) (\<lambda>_. ?I)"
        proof (rule hoare_andThen[OF hoare_metadata])
          fix r :: "nat \<times> nat"
          obtain rw rh where r: "r = (rw, rh)" by (cases r)
          show "hoare (case r of (w, h) \<Rightarrow> \<lambda>s. ?I s \<and> disk s ?T = Some (Image w h))
             ((\<lambda>(resultWidth, resultHeight).
          if resultWidth \<noteq> 734 \<or> resultHeight \<noteq> croppedHeight artOnly
          then throw (CroppedWrongDimensions resultWidth resultHeight)
          else
            andThen (renameSync ?T destinationFile) (\<lambda>_.
            andThen (run (log_msg (Cropped destinationFile resultWidth resultHeight) FIX)) (\<lambda>_.
            andThen (run (removeIfExists ?A)) (\<lambda>_.
            andThen (run (removeIfExists ?B)) (\<lambda>_.
            ret True))))) r)
             (\<lambda>_. ?Q) (\<lambda>_. ?I)"
            unfolding r using tail[of rw rh] by simp
        qed
      qed
      then show ?thesis unfolding a wh by (simp add: croppedHeight_def)
    qed
  qed
  show ?thesis
    unfolding cropImage_def Let_def
  proof (rule hoare_andThen[where R = "\<lambda>_. ?I"])
    show "hoare ?I (run (log_msg (Cropping cardNumber artOnly sourceFile destinationFile) FIX))
            (\<lambda>_. ?I)
            (\<lambda>_ s. disk s destinationFile = v \<and> disk s ?T = None \<and> disk s ?A = None
                    \<and> disk s ?B = None)"
      by (simp add: hoare_def run_def log_msg_def)
  next
    fix u :: unit
    show "hoare ?I (tryCatch
        (andThen (metadata sourceFile) (\<lambda>(width, height).
       if width \<noteq> 734 \<or> height \<noteq> 1024
       then throw (SourceUnexpectedDimensions width height)
       else
         andThen (extractToFile e sourceFile 0 0 width (topEndHeight artOnly height - 0) ?A) (\<lambda>_.
         andThen (extractToFile e sourceFile 0 (bottomStartHeight artOnly height) width
                    (height - bottomStartHeight artOnly height) ?B) (\<lambda>_.
         andThen (joinImages e ?A ?B ?T) (\<lambda>_.
         andThen (metadata ?T) (\<lambda>(resultWidth, resultHeight).
         if resultWidth \<noteq> 734 \<or> resultHeight \<noteq>
              (topEndHeight artOnly height - 0) + (height - bottomStartHeight artOnly height)
         then throw (CroppedWrongDimensions resultWidth resultHeight)
         else
           andThen (renameSync ?T destinationFile) (\<lambda>_.
           andThen (run (log_msg (Cropped destinationFile resultWidth resultHeight) FIX)) (\<lambda>_.
           andThen (run (removeIfExists ?A)) (\<lambda>_.
           andThen (run (removeIfExists ?B)) (\<lambda>_.
           ret True))))))))))
        (\<lambda>err. andThen (run (removeIfExists ?T)) (\<lambda>_.
         andThen (run (removeIfExists ?A)) (\<lambda>_.
         andThen (run (removeIfExists ?B)) (\<lambda>_.
         throw err)))))
       (\<lambda>_. ?Q)
       (\<lambda>_ s. disk s destinationFile = v \<and> disk s ?T = None \<and> disk s ?A = None \<and> disk s ?B = None)"
    proof (rule hoare_tryCatch[OF body])
      fix err
      show "hoare ?I (andThen (run (removeIfExists ?T)) (\<lambda>_.
         andThen (run (removeIfExists ?A)) (\<lambda>_.
         andThen (run (removeIfExists ?B)) (\<lambda>_.
         throw err))))
        (\<lambda>_. ?Q)
        (\<lambda>_ s. disk s destinationFile = v \<and> disk s ?T = None \<and> disk s ?A = None \<and> disk s ?B = None)"
        using d by (simp add: hoare_def andThen_def run_def throw_def removeIfExists_def)
    qed
  qed
qed

lemma startsWith_iff: "startsWith pat s \<longleftrightarrow> (\<exists>v. s = pat @ v)"
  by (induction pat s rule: startsWith.induct) auto

lemma replace_length:
  "s = u @ pat @ v \<Longrightarrow> length (replace pat rep s) + length pat = length s + length rep"
proof (induction s arbitrary: u)
  case Nil
  then show ?case by simp
next
  case (Cons c cs)
  show ?case
  proof (cases "startsWith pat (c # cs)")
    case True
    then obtain w where "c # cs = pat @ w" by (auto simp: startsWith_iff)
    then have "length pat \<le> length (c # cs)" by (metis length_append le_add1)
    with True show ?thesis by simp
  next
    case False
    then have "u \<noteq> []" using Cons.prems by (auto simp: startsWith_iff)
    then obtain u' where u: "u = c # u'" using Cons.prems by (cases u) auto
    then have "cs = u' @ pat @ v" using Cons.prems by simp
    from Cons.IH[OF this] False show ?thesis by simp
  qed
qed

lemma temps_length:
  assumes "destinationFile = stem @ ''.webp'' @ rest"
  shows "length (tempDestinationOf destinationFile) = length destinationFile + 10"
    and "length (topFileOf destinationFile) = length destinationFile + 4"
    and "length (bottomFileOf destinationFile) = length destinationFile + 7"
  using replace_length[OF assms, of "''_temp_dest.webp''"]
        replace_length[OF assms, of "''_top.webp''"]
        replace_length[OF assms, of "''_bottom.webp''"]
  by (simp_all add: tempDestinationOf_def topFileOf_def bottomFileOf_def)

lemma temps_neq:
  assumes "destinationFile = stem @ ''.webp''"
  shows "destinationFile \<noteq> tempDestinationOf destinationFile"
    and "destinationFile \<noteq> topFileOf destinationFile"
    and "destinationFile \<noteq> bottomFileOf destinationFile"
proof -
  have a: "destinationFile = stem @ ''.webp'' @ []" using assms by simp
  show "destinationFile \<noteq> tempDestinationOf destinationFile"
    using temps_length(1)[OF a] by (metis add_cancel_right_right zero_neq_numeral)
  show "destinationFile \<noteq> topFileOf destinationFile"
    using temps_length(2)[OF a] by (metis add_cancel_right_right zero_neq_numeral)
  show "destinationFile \<noteq> bottomFileOf destinationFile"
    using temps_length(3)[OF a] by (metis add_cancel_right_right zero_neq_numeral)
qed

lemma cropImage_cases:
  assumes "destinationFile = stem @ ''.webp''"
  shows "case cropImage e sourceFile destinationFile artOnly cardNumber st of
           (Inr b, st') \<Rightarrow> disk st' destinationFile = Some (Image 734 (croppedHeight artOnly))
                   \<and> disk st' (tempDestinationOf destinationFile) = None
                   \<and> disk st' (topFileOf destinationFile) = None
                   \<and> disk st' (bottomFileOf destinationFile) = None
         | (Inl err, st') \<Rightarrow> disk st' destinationFile = disk st destinationFile
                   \<and> disk st' (tempDestinationOf destinationFile) = None
                   \<and> disk st' (topFileOf destinationFile) = None
                   \<and> disk st' (bottomFileOf destinationFile) = None"
  using cropImage_hoare[OF temps_neq[OF assms], where v = "disk st destinationFile" and e = e
          and sourceFile = sourceFile and artOnly = artOnly and cardNumber = cardNumber]
  unfolding hoare_def by (auto split: prod.splits sum.splits)

lemma crop_heights:
  "topEndHeight True 1024 = 532"
  "bottomStartHeight True 1024 = 953"
  "topEndHeight False 1024 = 690"
  "bottomStartHeight False 1024 = 947"
  by (simp_all add: topEndHeight_def bottomStartHeight_def topFraction_def bottomStartFraction_def)

lemma croppedHeight_values: "croppedHeight True = 603" "croppedHeight False = 767"
  by (simp_all add: croppedHeight_def crop_heights)

lemmas monad_defs' = andThen_def ret_def throw_def run_def tryCatch_def ifExists_def
  checkFileExists_def log_msg_def metadata_def

lemma cropImage_success:
  assumes src: "disk st sourceFile = Some (Image 734 1024)"
    and ok: "codec e (clock st) = Succeeds" "codec e (Suc (clock st)) = Succeeds"
            "codec e (Suc (Suc (clock st))) = Succeeds"
    and dist: "distinct [sourceFile, destinationFile, tempDestinationOf destinationFile,
                         topFileOf destinationFile, bottomFileOf destinationFile]"
  shows "cropImage e sourceFile destinationFile artOnly cardNumber st =
    (Inr True,
     st\<lparr>disk := (\<lambda>p. if p = destinationFile then Some (Image 734 (croppedHeight artOnly))
                     else if p = tempDestinationOf destinationFile \<or> p = topFileOf destinationFile
                             \<or> p = bottomFileOf destinationFile then None
                     else disk st p),
        clock := clock st + 3,
        console := console st @ [(FIX, Cropping cardNumber artOnly sourceFile destinationFile),
                                 (FIX, Cropped destinationFile 734 (croppedHeight artOnly))]\<rparr>)"
proof -
  have pos: "0 < topEndHeight artOnly 1024" "topEndHeight artOnly 1024 \<le> 1024"
            "bottomStartHeight artOnly 1024 < 1024"
    by (cases artOnly; simp add: crop_heights)+
  show ?thesis
    using src ok dist pos
    by (simp add: cropImage_def Let_def monad_defs' extractToFile_def joinImages_def toFile_def
          renameSync_def removeIfExists_def croppedHeight_def fun_eq_iff)
qed

lemma cropImage_refuses:
  assumes "disk st sourceFile \<noteq> Some (Image 734 1024)"
  shows "cropImage e sourceFile destinationFile artOnly cardNumber st =
    (Inl (case disk st sourceFile of None \<Rightarrow> InputFileMissing sourceFile
          | Some Corrupt \<Rightarrow> UnsupportedImage sourceFile
          | Some (Image w h) \<Rightarrow> SourceUnexpectedDimensions w h),
     st\<lparr>disk := (disk st)(tempDestinationOf destinationFile := None,
                           topFileOf destinationFile := None,
                           bottomFileOf destinationFile := None),
        console := console st @ [(FIX, Cropping cardNumber artOnly sourceFile destinationFile)]\<rparr>)"
  using assms
  by (auto simp: cropImage_def Let_def monad_defs' removeIfExists_def
           split: option.splits filedata.splits)

lemma cropImage_Inr_source:
  assumes "fst (cropImage e sourceFile destinationFile artOnly cardNumber st) = Inr b"
  shows "disk st sourceFile = Some (Image 734 1024)"
proof (rule ccontr)
  assume "disk st sourceFile \<noteq> Some (Image 734 1024)"
  from cropImage_refuses[OF this] assms show False by simp
qed

lemma temps_IT:
  "tempDestinationOf ''cards/IT/001/art_and_name/042.webp'' = ''cards/IT/001/art_and_name/042_temp_dest.webp''"
  "topFileOf ''cards/IT/001/art_and_name/042.webp'' = ''cards/IT/001/art_and_name/042_top.webp''"
  "bottomFileOf ''cards/IT/001/art_and_name/042.webp'' = ''cards/IT/001/art_and_name/042_bottom.webp''"
  by (simp_all add: tempDestinationOf_def topFileOf_def bottomFileOf_def)

lemma temps_EN:
  "tempDestinationOf ''cards/EN/001/art_and_name/042.webp'' = ''cards/EN/001/art_and_name/042_temp_dest.webp''"
  "topFileOf ''cards/EN/001/art_and_name/042.webp'' = ''cards/EN/001/art_and_name/042_top.webp''"
  "bottomFileOf ''cards/EN/001/art_and_name/042.webp'' = ''cards/EN/001/art_and_name/042_bottom.webp''"
  by (simp_all add: tempDestinationOf_def topFileOf_def bottomFileOf_def)

lemma cn42: "getCardNumber 42 = ''042''"
  by code_simp

section \<open>The crop on a file system that refuses deletions\<close>

lemma removeIfExistsOn_reliable:
  "removeIfExistsOn (\<lambda>_. False) filePath = run (removeIfExists filePath)"
proof
  fix st
  show "removeIfExistsOn (\<lambda>_. False) filePath st = run (removeIfExists filePath) st"
  proof (cases "disk st filePath")
    case None
    then have "(disk st)(filePath := None) = disk st" by (simp add: fun_upd_idem)
    then show ?thesis using None
      by (simp add: removeIfExistsOn_def ifExists_def checkFileExists_def ret_def run_def
            removeIfExists_def)
  next
    case (Some c)
    then show ?thesis
      by (simp add: removeIfExistsOn_def ifExists_def checkFileExists_def unlinkSyncOn_def
            run_def removeIfExists_def)
  qed
qed

lemma renameSyncOn_reliable:
  "renameSyncOn (\<lambda>_. False) oldPath newPath = renameSync oldPath newPath"
  by (rule ext) (simp add: renameSyncOn_def renameSync_def split: option.splits)

lemma cropImageOn_reliable:
  "cropImageOn (\<lambda>_. False) e sourceFile destinationFile artOnly cardNumber
     = cropImage e sourceFile destinationFile artOnly cardNumber"
  unfolding cropImageOn_def cropImage_def removeIfExistsOn_reliable renameSyncOn_reliable ..

lemma hoare_removeIfExistsOn:
  assumes "\<And>s. P s \<Longrightarrow> Q (s\<lparr>disk := (disk s)(filePath := None)\<rparr>)"
    and "\<And>s. P s \<Longrightarrow> locked filePath \<Longrightarrow> disk s filePath \<noteq> None \<Longrightarrow> E (EPERM filePath) s"
  shows "hoare P (removeIfExistsOn locked filePath) (\<lambda>_. Q) E"
proof -
  have idem: "s\<lparr>disk := (disk s)(filePath := None)\<rparr> = s" if "disk s filePath = None" for s :: state
  proof -
    from that have "(disk s)(filePath := None) = disk s" by (simp add: fun_upd_idem)
    then show ?thesis by simp
  qed
  show ?thesis
    unfolding hoare_def
  proof (intro allI impI)
    fix s assume p: "P s"
    show "case removeIfExistsOn locked filePath s of
            (Inl err, s') \<Rightarrow> E err s' | (Inr a, s') \<Rightarrow> Q s'"
    proof (cases "disk s filePath")
      case None
      then show ?thesis using assms(1)[OF p] idem[OF None]
        by (simp add: removeIfExistsOn_def ifExists_def checkFileExists_def ret_def)
    next
      case (Some c)
      then show ?thesis using assms(1)[OF p] assms(2)[OF p]
        by (simp add: removeIfExistsOn_def ifExists_def checkFileExists_def unlinkSyncOn_def)
    qed
  qed
qed

lemma hoare_invariant_weak:
  assumes "invariant P m" and "\<And>s. P s \<Longrightarrow> E s"
  shows "hoare P m (\<lambda>_. P) (\<lambda>_. E)"
  using assms unfolding invariant_def hoare_def
  by (fastforce split: prod.splits sum.splits)

lemma cropOn_tail:
  assumes "dest \<noteq> tmp" "dest \<noteq> a" "dest \<noteq> b"
  shows "hoare (\<lambda>s. disk s dest = v \<and> disk s tmp = Some (Image rw rh))
     (andThen (renameSyncOn locked tmp dest) (\<lambda>_.
      andThen (run (log_msg m FIX)) (\<lambda>_.
      andThen (removeIfExistsOn locked a) (\<lambda>_.
      andThen (removeIfExistsOn locked b) (\<lambda>_.
      ret True)))))
     (\<lambda>_ s. disk s dest = Some (Image rw rh) \<and> disk s tmp = None \<and> disk s a = None
             \<and> disk s b = None)
     (\<lambda>_ s. disk s dest = v \<or> disk s dest = Some (Image rw rh) \<and> (locked a \<or> locked b))"
proof (rule hoare_andThen[where R = "\<lambda>_ s. disk s dest = Some (Image rw rh) \<and> disk s tmp = None"])
  show "hoare (\<lambda>s. disk s dest = v \<and> disk s tmp = Some (Image rw rh))
          (renameSyncOn locked tmp dest)
          (\<lambda>_ s. disk s dest = Some (Image rw rh) \<and> disk s tmp = None)
          (\<lambda>_ s. disk s dest = v \<or> disk s dest = Some (Image rw rh) \<and> (locked a \<or> locked b))"
    using assms(1) by (simp add: hoare_def renameSyncOn_def)
next
  fix u :: unit
  let ?E = "\<lambda>(_ :: error) s. disk s dest = v
                \<or> disk s dest = Some (Image rw rh) \<and> (locked a \<or> locked b)"
  show "hoare (\<lambda>s. disk s dest = Some (Image rw rh) \<and> disk s tmp = None)
     (andThen (run (log_msg m FIX)) (\<lambda>_.
      andThen (removeIfExistsOn locked a) (\<lambda>_.
      andThen (removeIfExistsOn locked b) (\<lambda>_.
      ret True))))
     (\<lambda>_ s. disk s dest = Some (Image rw rh) \<and> disk s tmp = None \<and> disk s a = None
             \<and> disk s b = None)
     ?E"
  proof (rule hoare_andThen[where R = "\<lambda>_ s. disk s dest = Some (Image rw rh) \<and> disk s tmp = None"])
    show "hoare (\<lambda>s. disk s dest = Some (Image rw rh) \<and> disk s tmp = None)
            (run (log_msg m FIX))
            (\<lambda>_ s. disk s dest = Some (Image rw rh) \<and> disk s tmp = None) ?E"
      by (simp add: hoare_def run_def log_msg_def)
  next
    fix u :: unit
    show "hoare (\<lambda>s. disk s dest = Some (Image rw rh) \<and> disk s tmp = None)
       (andThen (removeIfExistsOn locked a) (\<lambda>_.
        andThen (removeIfExistsOn locked b) (\<lambda>_.
        ret True)))
       (\<lambda>_ s. disk s dest = Some (Image rw rh) \<and> disk s tmp = None \<and> disk s a = None
               \<and> disk s b = None)
       ?E"
    proof (rule hoare_andThen[where R = "\<lambda>_ s. disk s dest = Some (Image rw rh)
                                            \<and> disk s tmp = None \<and> disk s a = None"])
      show "hoare (\<lambda>s. disk s dest = Some (Image rw rh) \<and> disk s tmp = None)
              (removeIfExistsOn locked a)
              (\<lambda>_ s. disk s dest = Some (Image rw rh) \<and> disk s tmp = None \<and> disk s a = None)
              ?E"
        using assms(2) by (intro hoare_removeIfExistsOn) simp_all
    next
      fix u :: unit
      show "hoare (\<lambda>s. disk s dest = Some (Image rw rh) \<and> disk s tmp = None \<and> disk s a = None)
         (andThen (removeIfExistsOn locked b) (\<lambda>_. ret True))
         (\<lambda>_ s. disk s dest = Some (Image rw rh) \<and> disk s tmp = None \<and> disk s a = None
                 \<and> disk s b = None)
         ?E"
      proof (rule hoare_andThen[where R = "\<lambda>_ s. disk s dest = Some (Image rw rh)
                        \<and> disk s tmp = None \<and> disk s a = None \<and> disk s b = None"])
        show "hoare (\<lambda>s. disk s dest = Some (Image rw rh) \<and> disk s tmp = None \<and> disk s a = None)
           (removeIfExistsOn locked b)
           (\<lambda>_ s. disk s dest = Some (Image rw rh) \<and> disk s tmp = None \<and> disk s a = None
                   \<and> disk s b = None)
           ?E"
          using assms(3) by (intro hoare_removeIfExistsOn) simp_all
      next
        fix u :: unit
        show "hoare (\<lambda>s. disk s dest = Some (Image rw rh) \<and> disk s tmp = None \<and> disk s a = None
                          \<and> disk s b = None)
           (ret True)
           (\<lambda>_ s. disk s dest = Some (Image rw rh) \<and> disk s tmp = None \<and> disk s a = None
                   \<and> disk s b = None)
           ?E"
          by (rule hoare_ret) simp
      qed
    qed
  qed
qed

lemma cropOn_cleanup:
  assumes "dest \<noteq> tmp" "dest \<noteq> a" "dest \<noteq> b"
  shows "hoare (\<lambda>s. R (disk s dest))
     (andThen (removeIfExistsOn locked tmp) (\<lambda>_.
      andThen (removeIfExistsOn locked a) (\<lambda>_.
      andThen (removeIfExistsOn locked b) (\<lambda>_.
      throw err))))
     (\<lambda>_ s. False)
     (\<lambda>_ s. R (disk s dest)
             \<and> (\<not> locked tmp \<and> \<not> locked a \<and> \<not> locked b
                  \<longrightarrow> disk s tmp = None \<and> disk s a = None \<and> disk s b = None))"
proof -
  let ?E = "\<lambda>(_ :: error) s. R (disk s dest)
             \<and> (\<not> locked tmp \<and> \<not> locked a \<and> \<not> locked b
                  \<longrightarrow> disk s tmp = None \<and> disk s a = None \<and> disk s b = None)"
  show ?thesis
  proof (rule hoare_andThen[where R = "\<lambda>_ s. R (disk s dest) \<and> disk s tmp = None"])
    show "hoare (\<lambda>s. R (disk s dest)) (removeIfExistsOn locked tmp)
            (\<lambda>_ s. R (disk s dest) \<and> disk s tmp = None) ?E"
      using assms(1) by (intro hoare_removeIfExistsOn) simp_all
  next
    fix u :: unit
    show "hoare (\<lambda>s. R (disk s dest) \<and> disk s tmp = None)
       (andThen (removeIfExistsOn locked a) (\<lambda>_.
        andThen (removeIfExistsOn locked b) (\<lambda>_. throw err)))
       (\<lambda>_ s. False) ?E"
    proof (rule hoare_andThen[where R = "\<lambda>_ s. R (disk s dest) \<and> disk s tmp = None
                                            \<and> disk s a = None"])
      show "hoare (\<lambda>s. R (disk s dest) \<and> disk s tmp = None) (removeIfExistsOn locked a)
              (\<lambda>_ s. R (disk s dest) \<and> disk s tmp = None \<and> disk s a = None) ?E"
        using assms(2) by (intro hoare_removeIfExistsOn) simp_all
    next
      fix u :: unit
      show "hoare (\<lambda>s. R (disk s dest) \<and> disk s tmp = None \<and> disk s a = None)
         (andThen (removeIfExistsOn locked b) (\<lambda>_. throw err))
         (\<lambda>_ s. False) ?E"
      proof (rule hoare_andThen[where R = "\<lambda>_ s. R (disk s dest) \<and> disk s tmp = None
                                              \<and> disk s a = None \<and> disk s b = None"])
        show "hoare (\<lambda>s. R (disk s dest) \<and> disk s tmp = None \<and> disk s a = None)
                (removeIfExistsOn locked b)
                (\<lambda>_ s. R (disk s dest) \<and> disk s tmp = None \<and> disk s a = None
                        \<and> disk s b = None) ?E"
          using assms(3) by (intro hoare_removeIfExistsOn) simp_all
      next
        fix u :: unit
        show "hoare (\<lambda>s. R (disk s dest) \<and> disk s tmp = None \<and> disk s a = None
                          \<and> disk s b = None)
                (throw err) (\<lambda>_ s. False) ?E"
          by (rule hoare_throw) simp
      qed
    qed
  qed
qed

lemma hoare_case_prod:
  "(\<And>a b. x = (a, b) \<Longrightarrow> hoare P (f a b) Q E) \<Longrightarrow> hoare P (case_prod f x) Q E"
  by (cases x) simp

lemma hoare_pre_case_prod:
  "(\<And>a b. x = (a, b) \<Longrightarrow> hoare (P a b) m Q E) \<Longrightarrow> hoare (case_prod P x) m Q E"
  by (cases x) simp

lemma cropImageOn_hoare:
  assumes d: "destinationFile \<noteq> tempDestinationOf destinationFile"
             "destinationFile \<noteq> topFileOf destinationFile"
             "destinationFile \<noteq> bottomFileOf destinationFile"
  shows "hoare (\<lambda>s. disk s destinationFile = v)
           (cropImageOn locked e sourceFile destinationFile artOnly cardNumber)
           (\<lambda>_ s. disk s destinationFile = Some (Image 734 (croppedHeight artOnly))
                   \<and> disk s (tempDestinationOf destinationFile) = None
                   \<and> disk s (topFileOf destinationFile) = None
                   \<and> disk s (bottomFileOf destinationFile) = None)
           (\<lambda>_ s. (disk s destinationFile = v
                     \<or> disk s destinationFile = Some (Image 734 (croppedHeight artOnly))
                       \<and> (locked (topFileOf destinationFile)
                            \<or> locked (bottomFileOf destinationFile)))
                   \<and> (\<not> locked (tempDestinationOf destinationFile)
                        \<and> \<not> locked (topFileOf destinationFile)
                        \<and> \<not> locked (bottomFileOf destinationFile)
                      \<longrightarrow> disk s (tempDestinationOf destinationFile) = None
                          \<and> disk s (topFileOf destinationFile) = None
                          \<and> disk s (bottomFileOf destinationFile) = None))"
proof -
  let ?T = "tempDestinationOf destinationFile"
  let ?A = "topFileOf destinationFile"
  let ?B = "bottomFileOf destinationFile"
  let ?I = "\<lambda>s. disk s destinationFile = v"
  let ?Q = "\<lambda>s. disk s destinationFile = Some (Image 734 (croppedHeight artOnly))
                   \<and> disk s ?T = None \<and> disk s ?A = None \<and> disk s ?B = None"
  define R where "R = (\<lambda>x. x = v \<or> x = Some (Image 734 (croppedHeight artOnly))
                                    \<and> (locked ?A \<or> locked ?B))"
  let ?R = "\<lambda>s. R (disk s destinationFile)"
  have IR: "?I s \<Longrightarrow> ?R s" for s by (simp add: R_def)
  have inv_top: "invariant ?I (extractToFile e src l t w h ?A)" for src l t w h
    using d by (intro invariant_extractToFile) simp_all
  have inv_bottom: "invariant ?I (extractToFile e src l t w h ?B)" for src l t w h
    using d by (intro invariant_extractToFile) simp_all
  have inv_join: "invariant ?I (joinImages e a b ?T)" for a b
    using d by (intro invariant_joinImages) simp_all
  have tail: "hoare (\<lambda>s. ?I s \<and> disk s ?T = Some (Image rw rh))
      (if rw \<noteq> 734 \<or> rh \<noteq> croppedHeight artOnly
       then throw (CroppedWrongDimensions rw rh)
       else andThen (renameSyncOn locked ?T destinationFile) (\<lambda>_.
            andThen (run (log_msg (Cropped destinationFile rw rh) FIX)) (\<lambda>_.
            andThen (removeIfExistsOn locked ?A) (\<lambda>_.
            andThen (removeIfExistsOn locked ?B) (\<lambda>_.
            ret True)))))
      (\<lambda>_. ?Q) (\<lambda>_. ?R)" for rw rh
  proof (cases "rw \<noteq> 734 \<or> rh \<noteq> croppedHeight artOnly")
    case True
    then show ?thesis by (simp add: hoare_def throw_def R_def)
  next
    case False
    then have eq: "rw = 734" "rh = croppedHeight artOnly" by auto
    have "hoare (\<lambda>s. ?I s \<and> disk s ?T = Some (Image rw rh))
       (andThen (renameSyncOn locked ?T destinationFile) (\<lambda>_.
        andThen (run (log_msg (Cropped destinationFile rw rh) FIX)) (\<lambda>_.
        andThen (removeIfExistsOn locked ?A) (\<lambda>_.
        andThen (removeIfExistsOn locked ?B) (\<lambda>_.
        ret True)))))
       (\<lambda>_. ?Q) (\<lambda>_. ?R)"
      by (rule hoare_weaken[OF cropOn_tail[OF d, where v = v and rw = rw and rh = rh
                and m = "Cropped destinationFile rw rh" and locked = locked]])
         (auto simp: eq R_def)
    then show ?thesis using False by simp
  qed
  have checked: "hoare ?I
      (andThen (metadata ?T) (\<lambda>(resultWidth, resultHeight).
          if resultWidth \<noteq> 734 \<or> resultHeight \<noteq> croppedHeight artOnly
          then throw (CroppedWrongDimensions resultWidth resultHeight)
          else
            andThen (renameSyncOn locked ?T destinationFile) (\<lambda>_.
            andThen (run (log_msg (Cropped destinationFile resultWidth resultHeight) FIX)) (\<lambda>_.
            andThen (removeIfExistsOn locked ?A) (\<lambda>_.
            andThen (removeIfExistsOn locked ?B) (\<lambda>_.
            ret True))))))
      (\<lambda>_. ?Q) (\<lambda>_. ?R)"
  proof (rule hoare_andThen[where R = "\<lambda>(w, h) s. ?I s \<and> disk s ?T = Some (Image w h)"])
    show "hoare ?I (metadata ?T) (\<lambda>(w, h) s. ?I s \<and> disk s ?T = Some (Image w h)) (\<lambda>_. ?R)"
      by (rule hoare_weaken[OF hoare_metadata[where P = ?I]]) (auto simp: R_def)
  next
    fix r :: "nat \<times> nat"
    obtain rw rh where r: "r = (rw, rh)" by (cases r)
    show "hoare (case r of (w, h) \<Rightarrow> \<lambda>s. ?I s \<and> disk s ?T = Some (Image w h))
             ((\<lambda>(resultWidth, resultHeight).
          if resultWidth \<noteq> 734 \<or> resultHeight \<noteq> croppedHeight artOnly
          then throw (CroppedWrongDimensions resultWidth resultHeight)
          else
            andThen (renameSyncOn locked ?T destinationFile) (\<lambda>_.
            andThen (run (log_msg (Cropped destinationFile resultWidth resultHeight) FIX)) (\<lambda>_.
            andThen (removeIfExistsOn locked ?A) (\<lambda>_.
            andThen (removeIfExistsOn locked ?B) (\<lambda>_.
            ret True))))) r)
             (\<lambda>_. ?Q) (\<lambda>_. ?R)"
      unfolding r using tail[of rw rh] by simp
  qed
  have strips: "hoare ?I
         (andThen (extractToFile e sourceFile 0 0 734 (topEndHeight artOnly 1024 - 0) ?A) (\<lambda>_.
          andThen (extractToFile e sourceFile 0 (bottomStartHeight artOnly 1024) 734
                    (1024 - bottomStartHeight artOnly 1024) ?B) (\<lambda>_.
          andThen (joinImages e ?A ?B ?T) (\<lambda>_.
          andThen (metadata ?T) (\<lambda>(resultWidth, resultHeight).
          if resultWidth \<noteq> 734 \<or> resultHeight \<noteq> croppedHeight artOnly
          then throw (CroppedWrongDimensions resultWidth resultHeight)
          else
            andThen (renameSyncOn locked ?T destinationFile) (\<lambda>_.
            andThen (run (log_msg (Cropped destinationFile resultWidth resultHeight) FIX)) (\<lambda>_.
            andThen (removeIfExistsOn locked ?A) (\<lambda>_.
            andThen (removeIfExistsOn locked ?B) (\<lambda>_.
            ret True)))))))))
         (\<lambda>_. ?Q) (\<lambda>_. ?R)"
  proof (rule hoare_andThen[where R = "\<lambda>_. ?I"])
    show "hoare ?I (extractToFile e sourceFile 0 0 734 (topEndHeight artOnly 1024 - 0) ?A)
            (\<lambda>_. ?I) (\<lambda>_. ?R)"
      by (rule hoare_invariant_weak[OF inv_top]) (rule IR)
  next
    fix u :: unit
    show "hoare ?I
          (andThen (extractToFile e sourceFile 0 (bottomStartHeight artOnly 1024) 734
                    (1024 - bottomStartHeight artOnly 1024) ?B) (\<lambda>_.
          andThen (joinImages e ?A ?B ?T) (\<lambda>_.
          andThen (metadata ?T) (\<lambda>(resultWidth, resultHeight).
          if resultWidth \<noteq> 734 \<or> resultHeight \<noteq> croppedHeight artOnly
          then throw (CroppedWrongDimensions resultWidth resultHeight)
          else
            andThen (renameSyncOn locked ?T destinationFile) (\<lambda>_.
            andThen (run (log_msg (Cropped destinationFile resultWidth resultHeight) FIX)) (\<lambda>_.
            andThen (removeIfExistsOn locked ?A) (\<lambda>_.
            andThen (removeIfExistsOn locked ?B) (\<lambda>_.
            ret True))))))))
         (\<lambda>_. ?Q) (\<lambda>_. ?R)"
    proof (rule hoare_andThen[where R = "\<lambda>_. ?I"])
      show "hoare ?I (extractToFile e sourceFile 0 (bottomStartHeight artOnly 1024) 734
                    (1024 - bottomStartHeight artOnly 1024) ?B) (\<lambda>_. ?I) (\<lambda>_. ?R)"
        by (rule hoare_invariant_weak[OF inv_bottom]) (rule IR)
    next
      fix u :: unit
      show "hoare ?I
          (andThen (joinImages e ?A ?B ?T) (\<lambda>_.
          andThen (metadata ?T) (\<lambda>(resultWidth, resultHeight).
          if resultWidth \<noteq> 734 \<or> resultHeight \<noteq> croppedHeight artOnly
          then throw (CroppedWrongDimensions resultWidth resultHeight)
          else
            andThen (renameSyncOn locked ?T destinationFile) (\<lambda>_.
            andThen (run (log_msg (Cropped destinationFile resultWidth resultHeight) FIX)) (\<lambda>_.
            andThen (removeIfExistsOn locked ?A) (\<lambda>_.
            andThen (removeIfExistsOn locked ?B) (\<lambda>_.
            ret True)))))))
         (\<lambda>_. ?Q) (\<lambda>_. ?R)"
      proof (rule hoare_andThen[where R = "\<lambda>_. ?I"])
        show "hoare ?I (joinImages e ?A ?B ?T) (\<lambda>_. ?I) (\<lambda>_. ?R)"
          by (rule hoare_invariant_weak[OF inv_join]) (rule IR)
      next
        fix u :: unit
        show "hoare ?I
          (andThen (metadata ?T) (\<lambda>(resultWidth, resultHeight).
          if resultWidth \<noteq> 734 \<or> resultHeight \<noteq> croppedHeight artOnly
          then throw (CroppedWrongDimensions resultWidth resultHeight)
          else
            andThen (renameSyncOn locked ?T destinationFile) (\<lambda>_.
            andThen (run (log_msg (Cropped destinationFile resultWidth resultHeight) FIX)) (\<lambda>_.
            andThen (removeIfExistsOn locked ?A) (\<lambda>_.
            andThen (removeIfExistsOn locked ?B) (\<lambda>_.
            ret True))))))
         (\<lambda>_. ?Q) (\<lambda>_. ?R)"
          by (rule checked)
      qed
    qed
  qed
  have body: "hoare ?I
      (andThen (metadata sourceFile) (\<lambda>(width, height).
       if width \<noteq> 734 \<or> height \<noteq> 1024
       then throw (SourceUnexpectedDimensions width height)
       else
         andThen (extractToFile e sourceFile 0 0 width (topEndHeight artOnly height - 0) ?A) (\<lambda>_.
         andThen (extractToFile e sourceFile 0 (bottomStartHeight artOnly height) width
                    (height - bottomStartHeight artOnly height) ?B) (\<lambda>_.
         andThen (joinImages e ?A ?B ?T) (\<lambda>_.
         andThen (metadata ?T) (\<lambda>(resultWidth, resultHeight).
         if resultWidth \<noteq> 734 \<or> resultHeight \<noteq>
              (topEndHeight artOnly height - 0) + (height - bottomStartHeight artOnly height)
         then throw (CroppedWrongDimensions resultWidth resultHeight)
         else
           andThen (renameSyncOn locked ?T destinationFile) (\<lambda>_.
           andThen (run (log_msg (Cropped destinationFile resultWidth resultHeight) FIX)) (\<lambda>_.
           andThen (removeIfExistsOn locked ?A) (\<lambda>_.
           andThen (removeIfExistsOn locked ?B) (\<lambda>_.
           ret True))))))))))
      (\<lambda>_. ?Q) (\<lambda>_. ?R)"
  proof (rule hoare_andThen[where R = "\<lambda>_. ?I"])
    show "hoare ?I (metadata sourceFile) (\<lambda>_. ?I) (\<lambda>_. ?R)"
      by (rule hoare_invariant_weak[OF invariant_metadata]) (rule IR)
  next
    fix a :: "nat \<times> nat"
    obtain width height where a: "a = (width, height)" by (cases a)
    have "hoare ?I
       (if width \<noteq> 734 \<or> height \<noteq> 1024
       then throw (SourceUnexpectedDimensions width height)
       else
         andThen (extractToFile e sourceFile 0 0 width (topEndHeight artOnly height - 0) ?A) (\<lambda>_.
         andThen (extractToFile e sourceFile 0 (bottomStartHeight artOnly height) width
                    (height - bottomStartHeight artOnly height) ?B) (\<lambda>_.
         andThen (joinImages e ?A ?B ?T) (\<lambda>_.
         andThen (metadata ?T) (\<lambda>(resultWidth, resultHeight).
         if resultWidth \<noteq> 734 \<or> resultHeight \<noteq>
              (topEndHeight artOnly height - 0) + (height - bottomStartHeight artOnly height)
         then throw (CroppedWrongDimensions resultWidth resultHeight)
         else
           andThen (renameSyncOn locked ?T destinationFile) (\<lambda>_.
           andThen (run (log_msg (Cropped destinationFile resultWidth resultHeight) FIX)) (\<lambda>_.
           andThen (removeIfExistsOn locked ?A) (\<lambda>_.
           andThen (removeIfExistsOn locked ?B) (\<lambda>_.
           ret True)))))))))
      (\<lambda>_. ?Q) (\<lambda>_. ?R)"
    proof (cases "width \<noteq> 734 \<or> height \<noteq> 1024")
      case True
      then show ?thesis by (simp add: hoare_def throw_def R_def)
    next
      case False
      then have wh: "width = 734" "height = 1024" by auto
      show ?thesis unfolding wh using strips by (simp add: croppedHeight_def)
    qed
    then show "hoare ?I ((\<lambda>(width, height).
       if width \<noteq> 734 \<or> height \<noteq> 1024
       then throw (SourceUnexpectedDimensions width height)
       else
         andThen (extractToFile e sourceFile 0 0 width (topEndHeight artOnly height - 0) ?A) (\<lambda>_.
         andThen (extractToFile e sourceFile 0 (bottomStartHeight artOnly height) width
                    (height - bottomStartHeight artOnly height) ?B) (\<lambda>_.
         andThen (joinImages e ?A ?B ?T) (\<lambda>_.
         andThen (metadata ?T) (\<lambda>(resultWidth, resultHeight).
         if resultWidth \<noteq> 734 \<or> resultHeight \<noteq>
              (topEndHeight artOnly height - 0) + (height - bottomStartHeight artOnly height)
         then throw (CroppedWrongDimensions resultWidth resultHeight)
         else
           andThen (renameSyncOn locked ?T destinationFile) (\<lambda>_.
           andThen (run (log_msg (Cropped destinationFile resultWidth resultHeight) FIX)) (\<lambda>_.
           andThen (removeIfExistsOn locked ?A) (\<lambda>_.
           andThen (removeIfExistsOn locked ?B) (\<lambda>_.
           ret True))))))))) a)
      (\<lambda>_. ?Q) (\<lambda>_. ?R)"
      unfolding a by simp
  qed
  have handler: "hoare ?R
         (andThen (removeIfExistsOn locked ?T) (\<lambda>_.
          andThen (removeIfExistsOn locked ?A) (\<lambda>_.
          andThen (removeIfExistsOn locked ?B) (\<lambda>_.
          throw err))))
         (\<lambda>_. ?Q)
         (\<lambda>_ s. ?R s \<and> (\<not> locked ?T \<and> \<not> locked ?A \<and> \<not> locked ?B
                          \<longrightarrow> disk s ?T = None \<and> disk s ?A = None \<and> disk s ?B = None))" for err
    by (rule hoare_weaken[OF cropOn_cleanup[OF d, where R = R and locked = locked and err = err]])
       simp_all
  have "hoare ?I (cropImageOn locked e sourceFile destinationFile artOnly cardNumber)
          (\<lambda>_. ?Q)
          (\<lambda>_ s. ?R s \<and> (\<not> locked ?T \<and> \<not> locked ?A \<and> \<not> locked ?B
                          \<longrightarrow> disk s ?T = None \<and> disk s ?A = None \<and> disk s ?B = None))"
    unfolding cropImageOn_def Let_def
  proof (rule hoare_andThen[where R = "\<lambda>_. ?I"])
    show "hoare ?I (run (log_msg (Cropping cardNumber artOnly sourceFile destinationFile) FIX))
            (\<lambda>_. ?I)
            (\<lambda>_ s. ?R s \<and> (\<not> locked ?T \<and> \<not> locked ?A \<and> \<not> locked ?B
                          \<longrightarrow> disk s ?T = None \<and> disk s ?A = None \<and> disk s ?B = None))"
      by (simp add: hoare_def run_def log_msg_def)
  next
    fix u :: unit
    show "hoare ?I (tryCatch
        (andThen (metadata sourceFile) (\<lambda>(width, height).
       if width \<noteq> 734 \<or> height \<noteq> 1024
       then throw (SourceUnexpectedDimensions width height)
       else
         andThen (extractToFile e sourceFile 0 0 width (topEndHeight artOnly height - 0) ?A) (\<lambda>_.
         andThen (extractToFile e sourceFile 0 (bottomStartHeight artOnly height) width
                    (height - bottomStartHeight artOnly height) ?B) (\<lambda>_.
         andThen (joinImages e ?A ?B ?T) (\<lambda>_.
         andThen (metadata ?T) (\<lambda>(resultWidth, resultHeight).
         if resultWidth \<noteq> 734 \<or> resultHeight \<noteq>
              (topEndHeight artOnly height - 0) + (height - bottomStartHeight artOnly height)
         then throw (CroppedWrongDimensions resultWidth resultHeight)
         else
           andThen (renameSyncOn locked ?T destinationFile) (\<lambda>_.
           andThen (run (log_msg (Cropped destinationFile resultWidth resultHeight) FIX)) (\<lambda>_.
           andThen (removeIfExistsOn locked ?A) (\<lambda>_.
           andThen (removeIfExistsOn locked ?B) (\<lambda>_.
           ret True))))))))))
        (\<lambda>err. andThen (removeIfExistsOn locked ?T) (\<lambda>_.
         andThen (removeIfExistsOn locked ?A) (\<lambda>_.
         andThen (removeIfExistsOn locked ?B) (\<lambda>_.
         throw err)))))
       (\<lambda>_. ?Q)
       (\<lambda>_ s. ?R s \<and> (\<not> locked ?T \<and> \<not> locked ?A \<and> \<not> locked ?B
                          \<longrightarrow> disk s ?T = None \<and> disk s ?A = None \<and> disk s ?B = None))"
      by (rule hoare_tryCatch[OF body handler])
  qed
  then show ?thesis unfolding R_def .
qed

lemma cropImageOn_cases:
  assumes "destinationFile = stem @ ''.webp''"
  shows "case cropImageOn locked e sourceFile destinationFile artOnly cardNumber st of
           (Inr b, st') \<Rightarrow> disk st' destinationFile = Some (Image 734 (croppedHeight artOnly))
                   \<and> disk st' (tempDestinationOf destinationFile) = None
                   \<and> disk st' (topFileOf destinationFile) = None
                   \<and> disk st' (bottomFileOf destinationFile) = None
         | (Inl err, st') \<Rightarrow>
               (disk st' destinationFile = disk st destinationFile
                 \<or> disk st' destinationFile = Some (Image 734 (croppedHeight artOnly))
                   \<and> (locked (topFileOf destinationFile) \<or> locked (bottomFileOf destinationFile)))
               \<and> (\<not> locked (tempDestinationOf destinationFile)
                    \<and> \<not> locked (topFileOf destinationFile)
                    \<and> \<not> locked (bottomFileOf destinationFile)
                  \<longrightarrow> disk st' (tempDestinationOf destinationFile) = None
                      \<and> disk st' (topFileOf destinationFile) = None
                      \<and> disk st' (bottomFileOf destinationFile) = None)"
  using cropImageOn_hoare[OF temps_neq[OF assms], where v = "disk st destinationFile" and e = e
          and sourceFile = sourceFile and artOnly = artOnly and cardNumber = cardNumber
          and locked = locked]
  unfolding hoare_def by (auto split: prod.splits sum.splits)

lemma cropImageOn_success:
  assumes src: "disk st sourceFile = Some (Image 734 1024)"
    and ok: "codec e (clock st) = Succeeds" "codec e (Suc (clock st)) = Succeeds"
            "codec e (Suc (Suc (clock st))) = Succeeds"
    and dist: "distinct [sourceFile, destinationFile, tempDestinationOf destinationFile,
                         topFileOf destinationFile, bottomFileOf destinationFile]"
    and free: "\<not> locked (topFileOf destinationFile)" "\<not> locked (bottomFileOf destinationFile)"
              "\<not> locked (tempDestinationOf destinationFile)" "\<not> locked destinationFile"
  shows "cropImageOn locked e sourceFile destinationFile artOnly cardNumber st =
    (Inr True,
     st\<lparr>disk := (\<lambda>p. if p = destinationFile then Some (Image 734 (croppedHeight artOnly))
                     else if p = tempDestinationOf destinationFile \<or> p = topFileOf destinationFile
                             \<or> p = bottomFileOf destinationFile then None
                     else disk st p),
        clock := clock st + 3,
        console := console st @ [(FIX, Cropping cardNumber artOnly sourceFile destinationFile),
                                 (FIX, Cropped destinationFile 734 (croppedHeight artOnly))]\<rparr>)"
proof -
  have pos: "0 < topEndHeight artOnly 1024" "topEndHeight artOnly 1024 \<le> 1024"
            "bottomStartHeight artOnly 1024 < 1024"
    by (cases artOnly; simp add: crop_heights)+
  let ?T = "tempDestinationOf destinationFile"
  let ?A = "topFileOf destinationFile"
  let ?B = "bottomFileOf destinationFile"
  have ne: "sourceFile \<noteq> destinationFile" "sourceFile \<noteq> ?T" "sourceFile \<noteq> ?A"
    "sourceFile \<noteq> ?B" "destinationFile \<noteq> ?T" "destinationFile \<noteq> ?A"
    "destinationFile \<noteq> ?B" "?T \<noteq> ?A" "?T \<noteq> ?B" "?A \<noteq> ?B"
    "destinationFile \<noteq> sourceFile" "?T \<noteq> sourceFile" "?A \<noteq> sourceFile"
    "?B \<noteq> sourceFile" "?T \<noteq> destinationFile" "?A \<noteq> destinationFile"
    "?B \<noteq> destinationFile" "?A \<noteq> ?T" "?B \<noteq> ?T" "?B \<noteq> ?A"
    using dist by auto
  show ?thesis
    using src ok pos free ne
    by (simp add: cropImageOn_def Let_def monad_defs' extractToFile_def joinImages_def toFile_def
          renameSyncOn_def removeIfExistsOn_def unlinkSyncOn_def croppedHeight_def fun_eq_iff)
qed

text \<open>The top strip cannot be deleted: the clean-up after the rename throws, and so does
  the clean-up of the catch block.\<close>

lemma cropImageOn_top_locked:
  assumes src: "disk st sourceFile = Some (Image 734 1024)"
    and ok: "codec e (clock st) = Succeeds" "codec e (Suc (clock st)) = Succeeds"
            "codec e (Suc (Suc (clock st))) = Succeeds"
    and dist: "distinct [sourceFile, destinationFile, tempDestinationOf destinationFile,
                         topFileOf destinationFile, bottomFileOf destinationFile]"
    and locked: "locked (topFileOf destinationFile)"
    and free: "\<not> locked (tempDestinationOf destinationFile)" "\<not> locked destinationFile"
  shows "cropImageOn locked e sourceFile destinationFile artOnly cardNumber st =
    (Inl (EPERM (topFileOf destinationFile)),
     st\<lparr>disk := (\<lambda>p. if p = destinationFile then Some (Image 734 (croppedHeight artOnly))
                     else if p = tempDestinationOf destinationFile then None
                     else if p = topFileOf destinationFile
                       then Some (Image 734 (topEndHeight artOnly 1024))
                     else if p = bottomFileOf destinationFile
                       then Some (Image 734 (1024 - bottomStartHeight artOnly 1024))
                     else disk st p),
        clock := clock st + 3,
        console := console st @ [(FIX, Cropping cardNumber artOnly sourceFile destinationFile),
                                 (FIX, Cropped destinationFile 734 (croppedHeight artOnly))]\<rparr>)"
proof -
  have pos: "0 < topEndHeight artOnly 1024" "topEndHeight artOnly 1024 \<le> 1024"
            "bottomStartHeight artOnly 1024 < 1024"
    by (cases artOnly; simp add: crop_heights)+
  let ?T = "tempDestinationOf destinationFile"
  let ?A = "topFileOf destinationFile"
  let ?B = "bottomFileOf destinationFile"
  have ne: "sourceFile \<noteq> destinationFile" "sourceFile \<noteq> ?T" "sourceFile \<noteq> ?A"
    "sourceFile \<noteq> ?B" "destinationFile \<noteq> ?T" "destinationFile \<noteq> ?A"
    "destinationFile \<noteq> ?B" "?T \<noteq> ?A" "?T \<noteq> ?B" "?A \<noteq> ?B"
    "destinationFile \<noteq> sourceFile" "?T \<noteq> sourceFile" "?A \<noteq> sourceFile"
    "?B \<noteq> sourceFile" "?T \<noteq> destinationFile" "?A \<noteq> destinationFile"
    "?B \<noteq> destinationFile" "?A \<noteq> ?T" "?B \<noteq> ?T" "?B \<noteq> ?A"
    using dist by auto
  show ?thesis
    using src ok pos locked free ne
    by (simp add: cropImageOn_def Let_def monad_defs' extractToFile_def joinImages_def toFile_def
          renameSyncOn_def removeIfExistsOn_def unlinkSyncOn_def croppedHeight_def fun_eq_iff)
qed

lemma cropImageOn_Inr_source:
  assumes "fst (cropImageOn locked e sourceFile destinationFile artOnly cardNumber st) = Inr b"
  shows "disk st sourceFile = Some (Image 734 1024)"
proof (rule ccontr)
  assume ne: "disk st sourceFile \<noteq> Some (Image 734 1024)"
  let ?T = "tempDestinationOf destinationFile"
  let ?A = "topFileOf destinationFile"
  let ?B = "bottomFileOf destinationFile"
  let ?s = "log_msg (Cropping cardNumber artOnly sourceFile destinationFile) FIX st"
  define body where "body =
      andThen (metadata sourceFile) (\<lambda>(width, height).
       if width \<noteq> 734 \<or> height \<noteq> 1024
       then throw (SourceUnexpectedDimensions width height)
       else
         andThen (extractToFile e sourceFile 0 0 width (topEndHeight artOnly height - 0) ?A) (\<lambda>_.
         andThen (extractToFile e sourceFile 0 (bottomStartHeight artOnly height) width
                    (height - bottomStartHeight artOnly height) ?B) (\<lambda>_.
         andThen (joinImages e ?A ?B ?T) (\<lambda>_.
         andThen (metadata ?T) (\<lambda>(resultWidth, resultHeight).
         if resultWidth \<noteq> 734 \<or> resultHeight \<noteq>
              (topEndHeight artOnly height - 0) + (height - bottomStartHeight artOnly height)
         then throw (CroppedWrongDimensions resultWidth resultHeight)
         else
           andThen (renameSyncOn locked ?T destinationFile) (\<lambda>_.
           andThen (run (log_msg (Cropped destinationFile resultWidth resultHeight) FIX)) (\<lambda>_.
           andThen (removeIfExistsOn locked ?A) (\<lambda>_.
           andThen (removeIfExistsOn locked ?B) (\<lambda>_.
           ret True)))))))))"
  define handler where "handler = (\<lambda>err.
     andThen (removeIfExistsOn locked ?T) (\<lambda>_.
     andThen (removeIfExistsOn locked ?A) (\<lambda>_.
     andThen (removeIfExistsOn locked ?B) (\<lambda>_.
     (throw err :: bool action)))))"
  have eq: "cropImageOn locked e sourceFile destinationFile artOnly cardNumber
              = andThen (run (log_msg (Cropping cardNumber artOnly sourceFile destinationFile) FIX))
                  (\<lambda>_. tryCatch body handler)"
    unfolding cropImageOn_def Let_def body_def handler_def ..
  have h: "hoare (\<lambda>s. True) (handler err) (\<lambda>_ s. False) (\<lambda>_ s. True)" for err
    unfolding handler_def
    by (intro hoare_andThen[where R = "\<lambda>_ s. True"] hoare_removeIfExistsOn hoare_throw) simp_all
  have "\<exists>err s'. body ?s = (Inl err, s')"
  proof (cases "disk st sourceFile")
    case None
    then show ?thesis by (simp add: body_def andThen_def metadata_def log_msg_def)
  next
    case (Some c)
    show ?thesis
    proof (cases c)
      case Corrupt
      then show ?thesis using Some by (simp add: body_def andThen_def metadata_def log_msg_def)
    next
      case (Image w h)
      then have "w \<noteq> 734 \<or> h \<noteq> 1024" using ne Some by auto
      then show ?thesis using Some Image
        by (simp add: body_def andThen_def metadata_def log_msg_def throw_def)
    qed
  qed
  then obtain err s' where b: "body ?s = (Inl err, s')" by blast
  have "case handler err s' of (Inr a, s'') \<Rightarrow> False | (Inl err', s'') \<Rightarrow> True"
    using h[of err, unfolded hoare_def, rule_format, of s'] by simp
  then have "\<exists>err'. fst (handler err s') = Inl err'"
    by (auto split: prod.splits sum.splits)
  moreover have "cropImageOn locked e sourceFile destinationFile artOnly cardNumber st
                   = handler err s'"
    unfolding eq using b by (simp add: andThen_def run_def tryCatch_def)
  ultimately show False using assms by simp
qed

lemma temps_distinct:
  assumes "destinationFile = stem @ ''.webp''"
  shows "distinct [destinationFile, tempDestinationOf destinationFile,
                   topFileOf destinationFile, bottomFileOf destinationFile]"
proof -
  have a: "destinationFile = stem @ ''.webp'' @ []" using assms by simp
  note l = temps_length[OF a]
  have 1: "tempDestinationOf destinationFile \<noteq> topFileOf destinationFile"
  proof
    assume "tempDestinationOf destinationFile = topFileOf destinationFile"
    then have "length (tempDestinationOf destinationFile) = length (topFileOf destinationFile)"
      by simp
    then show False using l by simp
  qed
  have 2: "tempDestinationOf destinationFile \<noteq> bottomFileOf destinationFile"
  proof
    assume "tempDestinationOf destinationFile = bottomFileOf destinationFile"
    then have "length (tempDestinationOf destinationFile) = length (bottomFileOf destinationFile)"
      by simp
    then show False using l by simp
  qed
  have 3: "topFileOf destinationFile \<noteq> bottomFileOf destinationFile"
  proof
    assume "topFileOf destinationFile = bottomFileOf destinationFile"
    then have "length (topFileOf destinationFile) = length (bottomFileOf destinationFile)"
      by simp
    then show False using l by simp
  qed
  show ?thesis
    using temps_neq[OF assms] 1 2 3 by simp
qed

section \<open>Lemmas about the attempted fixes, the repair loop and the two phases\<close>

lemma executed_log_msg: "executed (log_msg m t s) = executed s @ attempted (t, m)"
  by (simp add: executed_def log_msg_def)

lemma executed_updates [simp]:
  "executed (s\<lparr>disk := d\<rparr>) = executed s"
  "executed (s\<lparr>clock := c\<rparr>) = executed s"
  "executed (s\<lparr>checked := k\<rparr>) = executed s"
  "executed (s\<lparr>missing := k\<rparr>) = executed s"
  "executed (s\<lparr>recovered := k\<rparr>) = executed s"
  "executed (s\<lparr>failed := k\<rparr>) = executed s"
  by (simp_all add: executed_def)

lemma inv_exec_log:
  "attempted (t, m) = [] \<Longrightarrow> invariant (\<lambda>s. executed s = x) (run (log_msg m t))"
  by (rule invariant_run) (simp add: executed_log_msg)

lemma inv_exec_toFile: "invariant (\<lambda>s. executed s = x) (toFile e content filePath)"
  by (rule invariant_toFile) simp_all

lemma inv_exec_request: "invariant (\<lambda>s. executed s = x) (request e)"
  by (simp add: invariant_def hoare_def request_def)

lemma inv_exec_copyFileSync: "invariant (\<lambda>s. executed s = x) (copyFileSync a b)"
  by (simp add: invariant_def hoare_def copyFileSync_def split: option.splits)

lemma inv_exec_unlinkSync: "invariant (\<lambda>s. executed s = x) (unlinkSync a)"
  by (simp add: invariant_def hoare_def unlinkSync_def split: option.splits)

lemma inv_exec_renameSync: "invariant (\<lambda>s. executed s = x) (renameSync a b)"
  by (simp add: invariant_def hoare_def renameSync_def split: option.splits)

lemma inv_exec_writeFile: "invariant (\<lambda>s. executed s = x) (run (writeFile p c))"
  by (rule invariant_run) (simp add: writeFile_def)

lemma inv_exec_removeIfExists: "invariant (\<lambda>s. executed s = x) (run (removeIfExists p))"
  by (rule invariant_run) (simp add: removeIfExists_def)

lemma invariant_case_response:
  "(\<And>body. invariant P (f body)) \<Longrightarrow> (\<And>code. invariant P (g code))
     \<Longrightarrow> invariant P (case r of Status200 body \<Rightarrow> f body | StatusOther code \<Rightarrow> g code)"
  by (cases r) simp_all

lemmas inv_exec_rules = invariant_andThen invariant_tryCatch invariant_ret invariant_throw
  invariant_if invariant_ifExists invariant_case_prod invariant_case_response invariant_metadata
  inv_exec_toFile inv_exec_request inv_exec_copyFileSync inv_exec_unlinkSync inv_exec_renameSync
  inv_exec_writeFile inv_exec_removeIfExists

lemma inv_exec_downloadImage:
  "invariant (\<lambda>s. executed s = x) (downloadImage e rootFolder cardNumber lang ed)"
  unfolding downloadImage_def Let_def
  by (intro inv_exec_rules inv_exec_log) simp_all

lemma inv_exec_resizeImage: "invariant (\<lambda>s. executed s = x) (resizeImage e filePath dims)"
  unfolding resizeImage_def Let_def
  by (intro inv_exec_rules inv_exec_log) simp_all

lemma inv_exec_convertToAvif: "invariant (\<lambda>s. executed s = x) (convertToAvif e a b)"
  unfolding convertToAvif_def
  by (intro inv_exec_rules inv_exec_log) simp_all

lemma inv_exec_cropImage:
  "invariant (\<lambda>s. executed s = x) (cropImage e src dest artOnly cardNumber)"
  unfolding cropImage_def Let_def extractToFile_def joinImages_def
  by (intro inv_exec_rules inv_exec_log) simp_all

lemma inv_exec_dispatch:
  "invariant (\<lambda>s. executed s = x) (dispatch e cfg rootFolder iss cardNum lang)"
proof (cases "step iss")
  case DOWNLOAD
  then show ?thesis unfolding dispatch_def Let_def
    by (simp add: invariant_andThen inv_exec_downloadImage invariant_ret)
next
  case RESIZE_ORIGINAL
  then show ?thesis unfolding dispatch_def Let_def
    by (simp add: invariant_andThen inv_exec_resizeImage invariant_ret invariant_ifExists)
next
  case CONVERT_ORIGINAL
  then show ?thesis unfolding dispatch_def Let_def by (simp add: inv_exec_convertToAvif)
next
  case CROP_ART_ONLY
  then show ?thesis unfolding dispatch_def Let_def
    by (simp add: invariant_andThen inv_exec_cropImage invariant_ret)
next
  case CONVERT_ART_ONLY
  then show ?thesis unfolding dispatch_def Let_def by (simp add: inv_exec_convertToAvif)
next
  case CROP_ART_AND_NAME
  then show ?thesis unfolding dispatch_def Let_def
    by (simp add: invariant_andThen inv_exec_cropImage invariant_ret)
next
  case CONVERT_ART_AND_NAME
  then show ?thesis unfolding dispatch_def Let_def by (simp add: inv_exec_convertToAvif)
qed

lemma invariantD:
  assumes "invariant P m" and "P st"
  shows "P (snd (m st))"
proof -
  obtain r st' where m: "m st = (r, st')" by (cases "m st")
  from assms show ?thesis
    unfolding invariant_def hoare_def using m
    by (cases r) (fastforce simp: m)+
qed

lemma executed_dispatch:
  "executed (snd (dispatch e cfg rootFolder iss cardNum lang st)) = executed st"
  by (rule invariantD[OF inv_exec_dispatch]) simp

lemma executed_fixIssue:
  "executed (snd (fixIssue e cfg rootFolder iss cardNum lang st))
     = executed st @ [(getCardNumber cardNum, lang, step iss)]"
proof -
  obtain r st' where d: "dispatch e cfg rootFolder iss cardNum lang st = (r, st')"
    by (cases "dispatch e cfg rootFolder iss cardNum lang st")
  have e: "executed st' = executed st"
    using executed_dispatch[of e cfg rootFolder iss cardNum lang st] d by simp
  show ?thesis
    by (cases r) (simp_all add: fixIssue_def Let_def d e executed_log_msg)
qed

lemma executed_applyFixes:
  "executed (applyFixes e cfg rootFolder cardNum lang issues st)
     = executed st @ map (\<lambda>i. (getCardNumber cardNum, lang, step i)) issues"
  by (induction issues arbitrary: st) (simp_all add: executed_fixIssue)

lemma attempted_WARN: "attempted (WARN, m) = []"
  by (cases m) simp_all

lemma executed_validateCard:
  "executed (snd (validateCard cfg rootFolder cardNum lang st)) = executed st"
proof -
  obtain r st' where v: "validateCard cfg rootFolder cardNum lang st = (r, st')"
    by (cases "validateCard cfg rootFolder cardNum lang st")
  from validateCard_frame[OF v] obtain ws where
    ws: "console st' = console st @ ws" "\<forall>e \<in> set ws. fst e = WARN" by blast
  have "concat (map attempted ws) = []"
    using ws(2)
  proof (induction ws)
    case Nil
    then show ?case by simp
  next
    case (Cons a ws)
    obtain t m where a: "a = (t, m)" by (cases a)
    with Cons.prems have "t = WARN" by simp
    with Cons a show ?case by (simp add: attempted_WARN)
  qed
  then show ?thesis using v ws(1) by (simp add: executed_def)
qed

lemma fixLoop_stop:
  assumes "remainingIssues = [] \<or> maxAttempts \<le> attempt"
  shows "fixLoop e cfg rootFolder cardNum lang attempt remainingIssues st
           = (Inr remainingIssues, attempt, st)"
  using assms by (subst fixLoop.simps) auto

lemma fixLoop_step:
  assumes "remainingIssues \<noteq> []" and "attempt < maxAttempts"
  shows "fixLoop e cfg rootFolder cardNum lang attempt remainingIssues st =
    (case validateCard cfg rootFolder cardNum lang
            (applyFixes e cfg rootFolder cardNum lang
               (sortIssuesByPipelineOrder remainingIssues) st) of
       (Inl err, st2) \<Rightarrow> (Inl err, Suc attempt, st2)
     | (Inr remainingIssues', st2) \<Rightarrow>
         if remainingIssues' = [] then (Inr remainingIssues', Suc attempt, st2)
         else fixLoop e cfg rootFolder cardNum lang (Suc attempt) remainingIssues' st2)"
  using assms by (subst fixLoop.simps) (simp add: Let_def split: prod.splits sum.splits)

lemma fixLoop_attempt_le:
  "attempt \<le> maxAttempts \<Longrightarrow>
     fst (snd (fixLoop e cfg rootFolder cardNum lang attempt remainingIssues st)) \<le> maxAttempts"
proof (induction e cfg rootFolder cardNum lang attempt remainingIssues st rule: fixLoop.induct)
  case (1 e cfg rootFolder cardNum lang attempt remainingIssues st)
  show ?case
  proof (cases "length remainingIssues > 0 \<and> attempt < maxAttempts")
    case False
    then have "remainingIssues = [] \<or> maxAttempts \<le> attempt" by auto
    from fixLoop_stop[OF this] show ?thesis using "1.prems" by simp
  next
    case True
    then have ne: "remainingIssues \<noteq> []" and lt: "attempt < maxAttempts" by auto
    let ?st1 = "applyFixes e cfg rootFolder cardNum lang
                  (sortIssuesByPipelineOrder remainingIssues) st"
    obtain r st2 where v: "validateCard cfg rootFolder cardNum lang ?st1 = (r, st2)"
      by (cases "validateCard cfg rootFolder cardNum lang ?st1")
    show ?thesis
    proof (cases r)
      case (Inl err)
      then show ?thesis using lt v by (simp add: fixLoop_step[OF ne lt])
    next
      case (Inr issues')
      show ?thesis
      proof (cases "issues' = []")
        case True
        then show ?thesis using lt v Inr by (simp add: fixLoop_step[OF ne lt])
      next
        case False
        then have l: "length issues' \<noteq> 0" by simp
        have "fst (snd (fixLoop e cfg rootFolder cardNum lang (attempt + 1) issues' st2)) \<le> maxAttempts"
          using "1.IH"[OF True refl refl refl v[symmetric] Inr l] lt by simp
        then show ?thesis using v Inr False by (simp add: fixLoop_step[OF ne lt])
      qed
    qed
  qed
qed

lemma artOnlyFindings_not_first:
  "\<not> isFirstLanguage cfg lang \<Longrightarrow> artOnlyFindings cfg cardNumber lang paths d = []"
  by (simp add: artOnlyFindings_def)

lemma validateCard_noArtOnly:
  assumes "\<not> isFirstLanguage cfg lang"
    and "fst (validateCard cfg rootFolder cardNum lang st) = Inr issues"
  shows "noArtOnly issues"
proof (cases "disk st (originalWebp (getFilePaths cfg rootFolder cardNum lang)) = None")
  case True
  show ?thesis unfolding validateCard_issues_absent[OF assms(2) True] noArtOnly_def by simp
next
  case False
  show ?thesis
    unfolding noArtOnly_def validateCard_issues_present[OF assms(2) False]
      artOnlyFindings_not_first[OF assms(1)]
    using originalFindings_steps artAndNameFindings_steps by fastforce
qed

lemma firstLanguageOwnsArtOnly_append:
  "firstLanguageOwnsArtOnly cfg (xs @ ys)
     \<longleftrightarrow> firstLanguageOwnsArtOnly cfg xs \<and> firstLanguageOwnsArtOnly cfg ys"
  by (auto simp: firstLanguageOwnsArtOnly_def)

lemma firstLanguageOwnsArtOnly_Nil: "firstLanguageOwnsArtOnly cfg []"
  by (simp add: firstLanguageOwnsArtOnly_def)

lemma firstLanguageOwnsArtOnly_pass:
  assumes "isFirstLanguage cfg lang \<or> noArtOnly issues"
  shows "firstLanguageOwnsArtOnly cfg
           (map (\<lambda>i. (cardNumber, lang, step i)) (sortIssuesByPipelineOrder issues))"
  using assms
  by (auto simp: firstLanguageOwnsArtOnly_def noArtOnly_def sortIssuesByPipelineOrder_def)

lemma fixLoop_executed:
  "isFirstLanguage cfg lang \<or> noArtOnly remainingIssues \<Longrightarrow>
   \<exists>ys. executed (snd (snd (fixLoop e cfg rootFolder cardNum lang attempt remainingIssues st)))
           = executed st @ ys \<and> firstLanguageOwnsArtOnly cfg ys"
proof (induction e cfg rootFolder cardNum lang attempt remainingIssues st rule: fixLoop.induct)
  case (1 e cfg rootFolder cardNum lang attempt remainingIssues st)
  show ?case
  proof (cases "length remainingIssues > 0 \<and> attempt < maxAttempts")
    case False
    then have "remainingIssues = [] \<or> maxAttempts \<le> attempt" by auto
    from fixLoop_stop[OF this] show ?thesis by (simp add: firstLanguageOwnsArtOnly_Nil)
  next
    case True
    then have ne: "remainingIssues \<noteq> []" and lt: "attempt < maxAttempts" by auto
    let ?sorted = "sortIssuesByPipelineOrder remainingIssues"
    let ?st1 = "applyFixes e cfg rootFolder cardNum lang ?sorted st"
    let ?pass = "map (\<lambda>i. (getCardNumber cardNum, lang, step i)) ?sorted"
    obtain r st2 where v: "validateCard cfg rootFolder cardNum lang ?st1 = (r, st2)"
      by (cases "validateCard cfg rootFolder cardNum lang ?st1")
    have e2: "executed st2 = executed st @ ?pass"
      using executed_validateCard[of cfg rootFolder cardNum lang ?st1] v
      by (simp add: executed_applyFixes)
    have g: "firstLanguageOwnsArtOnly cfg ?pass"
      by (rule firstLanguageOwnsArtOnly_pass[OF "1.prems"])
    show ?thesis
    proof (cases r)
      case (Inl err)
      then show ?thesis using v e2 g by (simp add: fixLoop_step[OF ne lt])
    next
      case (Inr issues')
      show ?thesis
      proof (cases "issues' = []")
        case True
        then show ?thesis using v Inr e2 g by (simp add: fixLoop_step[OF ne lt])
      next
        case False
        then have l: "length issues' \<noteq> 0" by simp
        have c: "isFirstLanguage cfg lang \<or> noArtOnly issues'"
          using validateCard_noArtOnly[of cfg lang rootFolder cardNum ?st1 issues'] v Inr by auto
        from "1.IH"[OF True refl refl refl v[symmetric] Inr l c]
        obtain ys where ys:
          "executed (snd (snd (fixLoop e cfg rootFolder cardNum lang (attempt + 1) issues' st2)))
             = executed st2 @ ys" "firstLanguageOwnsArtOnly cfg ys" by blast
        have "executed (snd (snd (fixLoop e cfg rootFolder cardNum lang attempt remainingIssues st)))
             = executed st @ (?pass @ ys)"
          using ys(1) e2 v Inr False by (simp add: fixLoop_step[OF ne lt])
        moreover have "firstLanguageOwnsArtOnly cfg (?pass @ ys)"
          using g ys(2) by (simp add: firstLanguageOwnsArtOnly_append)
        ultimately show ?thesis by blast
      qed
    qed
  qed
qed

lemma validateAll_props:
  "entriesOk cfg allIssues \<Longrightarrow>
   executed (snd (validateAll cfg rootFolder cards allIssues st)) = executed st
   \<and> (\<forall>found. fst (validateAll cfg rootFolder cards allIssues st) = Inr found
          \<longrightarrow> entriesOk cfg found)"
proof (induction cards arbitrary: allIssues st)
  case Nil
  then show ?case by (simp add: ret_def)
next
  case (Cons c cards)
  obtain lang cardNum where c: "c = (lang, cardNum)" by (cases c)
  obtain r st1 where v: "validateCard cfg rootFolder cardNum lang st = (r, st1)"
    by (cases "validateCard cfg rootFolder cardNum lang st")
  have e1: "executed st1 = executed st"
    using executed_validateCard[of cfg rootFolder cardNum lang st] v by simp
  show ?case
  proof (cases r)
    case (Inl err)
    then show ?thesis using v e1 by (simp add: c andThen_def)
  next
    case (Inr issues)
    let ?acc = "if length issues > 0 then allIssues @ [(cardNum, lang, issues)] else allIssues"
    have "isFirstLanguage cfg lang \<or> noArtOnly issues"
      using validateCard_noArtOnly[of cfg lang rootFolder cardNum st issues] v Inr by auto
    then have ok: "entriesOk cfg ?acc"
      using Cons.prems by (auto simp: entriesOk_def)
    from Cons.IH[OF ok, of st1] show ?thesis
      using v Inr e1 by (simp add: c andThen_def)
  qed
qed

lemma fixAll_executed:
  "entriesOk cfg allIssues \<Longrightarrow>
   \<exists>ys. executed (snd (fixAll e cfg rootFolder allIssues st)) = executed st @ ys
        \<and> firstLanguageOwnsArtOnly cfg ys"
proof (induction allIssues arbitrary: st)
  case Nil
  then show ?case by (simp add: firstLanguageOwnsArtOnly_Nil)
next
  case (Cons x rest)
  obtain cardNum lang issues where x: "x = (cardNum, lang, issues)" by (cases x)
  obtain r a st1 where f: "fixLoop e cfg rootFolder cardNum lang 0 issues st = (r, a, st1)"
    by (cases "fixLoop e cfg rootFolder cardNum lang 0 issues st")
  have "isFirstLanguage cfg lang \<or> noArtOnly issues"
    using Cons.prems by (simp add: entriesOk_def x)
  from fixLoop_executed[OF this, of e rootFolder cardNum 0 st] f
  obtain ys where ys: "executed st1 = executed st @ ys" "firstLanguageOwnsArtOnly cfg ys"
    by auto
  have ok: "entriesOk cfg rest" using Cons.prems by (simp add: entriesOk_def)
  show ?case
  proof (cases r)
    case (Inl err)
    then show ?thesis using f ys by (auto simp: x)
  next
    case (Inr remaining)
    from Cons.IH[OF ok, of st1] obtain zs where
      zs: "executed (snd (fixAll e cfg rootFolder rest st1)) = executed st1 @ zs"
          "firstLanguageOwnsArtOnly cfg zs" by blast
    have "executed (snd (fixAll e cfg rootFolder (x # rest) st)) = executed st @ (ys @ zs)"
      using f Inr zs(1) ys(1) by (simp add: x)
    moreover have "firstLanguageOwnsArtOnly cfg (ys @ zs)"
      using ys(2) zs(2) by (simp add: firstLanguageOwnsArtOnly_append)
    ultimately show ?thesis by blast
  qed
qed

lemma validateAndFixAll_executed:
  "\<exists>ys. executed (snd (validateAndFixAll e cfg rootFolder st)) = executed st @ ys
        \<and> firstLanguageOwnsArtOnly cfg ys"
proof -
  let ?v = "validateAll cfg rootFolder (cardsToCheck cfg) [] st"
  obtain r st1 where v: "?v = (r, st1)" by (cases ?v)
  have ok0: "entriesOk cfg []" by (simp add: entriesOk_def)
  note p = validateAll_props[OF ok0, of rootFolder "cardsToCheck cfg" st]
  have e1: "executed st1 = executed st" using p v by simp
  show ?thesis
  proof (cases r)
    case (Inl err)
    then show ?thesis using v e1
      by (auto simp: validateAndFixAll_def andThen_def firstLanguageOwnsArtOnly_Nil)
  next
    case (Inr found)
    then have ok: "entriesOk cfg found" using p v by simp
    from fixAll_executed[OF ok, of e rootFolder st1] obtain ys where
      ys: "executed (snd (fixAll e cfg rootFolder found st1)) = executed st1 @ ys"
          "firstLanguageOwnsArtOnly cfg ys" by blast
    show ?thesis
    proof (cases "length found = 0 \<or> \<not> autoFix cfg")
      case True
      then show ?thesis using v Inr e1
        by (auto simp: validateAndFixAll_def andThen_def ret_def firstLanguageOwnsArtOnly_Nil)
    next
      case False
      then show ?thesis using v Inr e1 ys
        by (auto simp: validateAndFixAll_def andThen_def ret_def)
    qed
  qed
qed

lemma sortIssuesByPipelineOrder_single [simp]: "sortIssuesByPipelineOrder [i] = [i]"
  by (simp add: sortIssuesByPipelineOrder_def)

lemma downloadImage_fails:
  assumes "http e (clock st) = StatusOther code"
  shows "fst (downloadImage e rootFolder cardNum lang ed st) = Inl (RequestFailed code)"
    and "disk (snd (downloadImage e rootFolder cardNum lang ed st)) = disk st"
    and "clock (snd (downloadImage e rootFolder cardNum lang ed st)) = Suc (clock st)"
    and "failed (snd (downloadImage e rootFolder cardNum lang ed st)) = failed st"
  using assms
  by (simp_all add: downloadImage_def Let_def andThen_def run_def throw_def request_def log_msg_def)

lemma fixIssue_download_fails:
  assumes "http e (clock st) = StatusOther code" and "step iss = DOWNLOAD"
  shows "fst (fixIssue e cfg rootFolder iss cardNum lang st) = False"
    and "disk (snd (fixIssue e cfg rootFolder iss cardNum lang st)) = disk st"
    and "clock (snd (fixIssue e cfg rootFolder iss cardNum lang st)) = Suc (clock st)"
    and "failed (snd (fixIssue e cfg rootFolder iss cardNum lang st)) = Suc (failed st)"
proof -
  let ?d = "downloadImage e rootFolder cardNum lang (edition cfg) st"
  obtain r st' where d: "?d = (r, st')" by (cases ?d)
  note f = downloadImage_fails[OF assms(1), of rootFolder cardNum lang "edition cfg"]
  have r: "r = Inl (RequestFailed code)" using f(1) d by simp
  have s: "disk st' = disk st" "clock st' = Suc (clock st)" "failed st' = failed st"
    using f(2,3,4) d by simp_all
  show "fst (fixIssue e cfg rootFolder iss cardNum lang st) = False"
    and "disk (snd (fixIssue e cfg rootFolder iss cardNum lang st)) = disk st"
    and "clock (snd (fixIssue e cfg rootFolder iss cardNum lang st)) = Suc (clock st)"
    and "failed (snd (fixIssue e cfg rootFolder iss cardNum lang st)) = Suc (failed st)"
    using assms(2) d r s
    by (simp_all add: fixIssue_def dispatch_def Let_def andThen_def log_msg_def)
qed

lemma validateCard_state:
  "disk (snd (validateCard cfg rootFolder cardNum lang st)) = disk st"
  "clock (snd (validateCard cfg rootFolder cardNum lang st)) = clock st"
  "failed (snd (validateCard cfg rootFolder cardNum lang st)) = failed st"
  "recovered (snd (validateCard cfg rootFolder cardNum lang st)) = recovered st"
  using validateCard_frame[of cfg rootFolder cardNum lang st
          "fst (validateCard cfg rootFolder cardNum lang st)"
          "snd (validateCard cfg rootFolder cardNum lang st)"]
  by simp_all

lemma validateCard_missing_original:
  assumes "disk st (originalWebp (getFilePaths cfg rootFolder cardNum lang)) = None"
  shows "fst (validateCard cfg rootFolder cardNum lang st) =
     Inr [\<lparr>step = DOWNLOAD, path = originalWebp (getFilePaths cfg rootFolder cardNum lang),
           language = lang\<rparr>]"
proof -
  have r: "readable cfg rootFolder cardNum lang (disk st)"
    using assms by (simp add: readable_def Let_def)
  show ?thesis
    using validateCard_readable[OF r] cardFindings_absent[where d = "disk st", OF assms]
    by simp
qed

lemma failing_download_loop:
  assumes perm: "\<forall>t. \<exists>code. http e t = StatusOther code"
    and dl: "dl = \<lparr>step = DOWNLOAD, path = originalWebp (getFilePaths cfg rootFolder cardNum lang),
                    language = lang\<rparr>"
  shows "attempt \<le> maxAttempts \<Longrightarrow>
         disk st (originalWebp (getFilePaths cfg rootFolder cardNum lang)) = None \<Longrightarrow>
         fst (fixLoop e cfg rootFolder cardNum lang attempt [dl] st) = Inr [dl]
         \<and> fst (snd (fixLoop e cfg rootFolder cardNum lang attempt [dl] st)) = maxAttempts
         \<and> disk (snd (snd (fixLoop e cfg rootFolder cardNum lang attempt [dl] st))) = disk st
         \<and> clock (snd (snd (fixLoop e cfg rootFolder cardNum lang attempt [dl] st)))
             = clock st + (maxAttempts - attempt)
         \<and> failed (snd (snd (fixLoop e cfg rootFolder cardNum lang attempt [dl] st)))
             = failed st + (maxAttempts - attempt)
         \<and> executed (snd (snd (fixLoop e cfg rootFolder cardNum lang attempt [dl] st)))
             = executed st @ replicate (maxAttempts - attempt) (getCardNumber cardNum, lang, DOWNLOAD)"
proof (induction "maxAttempts - attempt" arbitrary: attempt st)
  case 0
  then have "maxAttempts \<le> attempt" by simp
  then show ?case using 0 by (simp add: fixLoop_stop)
next
  case (Suc k)
  then have lt: "attempt < maxAttempts" by simp
  have ne: "[dl] \<noteq> []" by simp
  obtain code where c: "http e (clock st) = StatusOther code" using perm by blast
  have sd: "step dl = DOWNLOAD" by (simp add: dl)
  let ?s1 = "snd (fixIssue e cfg rootFolder dl cardNum lang st)"
  note f = fixIssue_download_fails[OF c sd, of cfg rootFolder cardNum lang]
  have m1: "disk ?s1 (originalWebp (getFilePaths cfg rootFolder cardNum lang)) = None"
    using f(2) Suc.prems(2) by simp
  let ?v = "validateCard cfg rootFolder cardNum lang ?s1"
  obtain r s2 where v: "?v = (r, s2)" by (cases ?v)
  have r: "r = Inr [dl]" using validateCard_missing_original[OF m1] v by (simp add: dl)
  have s2: "disk s2 = disk st" "clock s2 = Suc (clock st)" "failed s2 = Suc (failed st)"
    using validateCard_state[of cfg rootFolder cardNum lang ?s1] v f by simp_all
  have ex: "executed s2 = executed st @ [(getCardNumber cardNum, lang, DOWNLOAD)]"
    using executed_validateCard[of cfg rootFolder cardNum lang ?s1] v
    by (simp add: executed_fixIssue sd)
  have rep: "replicate (maxAttempts - attempt) (getCardNumber cardNum, lang, DOWNLOAD)
     = (getCardNumber cardNum, lang, DOWNLOAD)
       # replicate (maxAttempts - Suc attempt) (getCardNumber cardNum, lang, DOWNLOAD)"
    using lt by (simp add: Suc_diff_Suc flip: replicate_Suc)
  have step: "fixLoop e cfg rootFolder cardNum lang attempt [dl] st
              = fixLoop e cfg rootFolder cardNum lang (Suc attempt) [dl] s2"
    using v r by (simp add: fixLoop_step[OF ne lt])
  have k: "k = maxAttempts - Suc attempt" using Suc.hyps(2) by simp
  have le: "Suc attempt \<le> maxAttempts" using lt by simp
  have m2: "disk s2 (originalWebp (getFilePaths cfg rootFolder cardNum lang)) = None"
    using s2(1) Suc.prems(2) by simp
  from Suc.hyps(1)[OF k le m2] show ?case
    unfolding step rep using s2 lt ex by simp arith
qed

section \<open>The order of the fixes\<close>

lemma path_lengths:
  "length (originalWebp (getFilePaths cfg rootFolder cardNum lang))
     = length rootFolder + length lang + length (edition cfg) + length (getCardNumber cardNum) + 8"
  "length (originalAvif (getFilePaths cfg rootFolder cardNum lang))
     = length rootFolder + length lang + length (edition cfg) + length (getCardNumber cardNum) + 8"
  "length (artAndNameWebp (getFilePaths cfg rootFolder cardNum lang))
     = length rootFolder + length lang + length (edition cfg) + length (getCardNumber cardNum) + 21"
  "length (artAndNameAvif (getFilePaths cfg rootFolder cardNum lang))
     = length rootFolder + length lang + length (edition cfg) + length (getCardNumber cardNum) + 21"
  by (simp_all add: getFilePaths_def Let_def)

lemma artAndName_temps_length:
  "length (tempDestinationOf (artAndNameWebp (getFilePaths cfg rootFolder cardNum lang)))
     = length rootFolder + length lang + length (edition cfg) + length (getCardNumber cardNum) + 31"
  "length (topFileOf (artAndNameWebp (getFilePaths cfg rootFolder cardNum lang)))
     = length rootFolder + length lang + length (edition cfg) + length (getCardNumber cardNum) + 25"
  "length (bottomFileOf (artAndNameWebp (getFilePaths cfg rootFolder cardNum lang)))
     = length rootFolder + length lang + length (edition cfg) + length (getCardNumber cardNum) + 28"
proof -
  let ?aw = "artAndNameWebp (getFilePaths cfg rootFolder cardNum lang)"
  have a: "?aw = (rootFolder @ ''/'' @ lang @ ''/'' @ edition cfg @ ''/art_and_name/''
                   @ getCardNumber cardNum) @ ''.webp'' @ []"
    by (simp add: getFilePaths_def Let_def)
  note t = temps_length[OF a]
  show "length (tempDestinationOf ?aw)
     = length rootFolder + length lang + length (edition cfg) + length (getCardNumber cardNum) + 31"
    using t(1) by (simp add: path_lengths)
  show "length (topFileOf ?aw)
     = length rootFolder + length lang + length (edition cfg) + length (getCardNumber cardNum) + 25"
    using t(2) by (simp add: path_lengths)
  show "length (bottomFileOf ?aw)
     = length rootFolder + length lang + length (edition cfg) + length (getCardNumber cardNum) + 28"
    using t(3) by (simp add: path_lengths)
qed

lemma neq_by_length: "length a \<noteq> length b \<Longrightarrow> a \<noteq> b"
  by auto

lemma webp_neq_avif:
  "originalWebp (getFilePaths cfg rootFolder cardNum lang)
     \<noteq> originalAvif (getFilePaths cfg rootFolder cardNum lang)"
  "artAndNameWebp (getFilePaths cfg rootFolder cardNum lang)
     \<noteq> artAndNameAvif (getFilePaths cfg rootFolder cardNum lang)"
  by (simp_all add: getFilePaths_def Let_def)

lemma paths_distinct:
  fixes cfg rootFolder cardNum lang
  defines "p \<equiv> getFilePaths cfg rootFolder cardNum lang"
  shows "distinct [originalWebp p, originalAvif p, artAndNameWebp p, artAndNameAvif p,
                   tempDestinationOf (artAndNameWebp p), topFileOf (artAndNameWebp p),
                   bottomFileOf (artAndNameWebp p)]"
  unfolding p_def
  using webp_neq_avif[of cfg rootFolder cardNum lang]
  by (auto simp: path_lengths artAndName_temps_length dest!: arg_cong[where f = length])

lemma download_destination:
  assumes "toUpperCase lang = lang" and "padStart3 (edition cfg) = edition cfg"
  shows "rootFolder @ ''/'' @ toUpperCase lang @ ''/'' @ padStart3 (edition cfg) @ ''/''
           @ padStart3 (toString cardNum) @ ''.webp''
         = originalWebp (getFilePaths cfg rootFolder cardNum lang)"
  using assms by (simp add: getFilePaths_def Let_def getCardNumber_def)

lemma fixIssue_download_writes:
  assumes "http e (clock st) = Status200 body" and "step iss = DOWNLOAD"
  shows "disk (snd (fixIssue e cfg rootFolder iss cardNum lang st))
           = (disk st)(rootFolder @ ''/'' @ toUpperCase lang @ ''/'' @ padStart3 (edition cfg)
                         @ ''/'' @ padStart3 (toString cardNum) @ ''.webp'' \<mapsto> body)"
    and "clock (snd (fixIssue e cfg rootFolder iss cardNum lang st)) = Suc (clock st)"
  using assms
  by (simp_all add: fixIssue_def dispatch_def Let_def downloadImage_def andThen_def run_def ret_def
        request_def log_msg_def writeFile_def)

lemma fixIssue_download_ok:
  assumes "http e (clock st) = Status200 body" and "step iss = DOWNLOAD"
    and "toUpperCase lang = lang" and "padStart3 (edition cfg) = edition cfg"
  shows "disk (snd (fixIssue e cfg rootFolder iss cardNum lang st))
           = (disk st)(originalWebp (getFilePaths cfg rootFolder cardNum lang) \<mapsto> body)"
  using assms(1,2) download_destination[OF assms(3,4), of rootFolder cardNum]
  by (simp add: fixIssue_def dispatch_def Let_def downloadImage_def andThen_def run_def ret_def
        request_def log_msg_def writeFile_def)

lemma convertToAvif_ok:
  assumes "codec e (clock st) = Succeeds" and "disk st webp = Some (Image w h)"
  shows "fst (convertToAvif e webp avif st) = Inr ()"
    and "disk (snd (convertToAvif e webp avif st)) = (disk st)(avif \<mapsto> Image w h)"
  using assms
  by (simp_all add: convertToAvif_def andThen_def run_def metadata_def toFile_def Let_def log_msg_def)

lemma fixIssue_convert_original_ok:
  assumes "codec e (clock st) = Succeeds"
    and "disk st (originalWebp (getFilePaths cfg rootFolder cardNum lang)) = Some (Image w h)"
    and "step iss = CONVERT_ORIGINAL"
  shows "disk (snd (fixIssue e cfg rootFolder iss cardNum lang st))
           = (disk st)(originalAvif (getFilePaths cfg rootFolder cardNum lang) \<mapsto> Image w h)"
proof -
  let ?c = "convertToAvif e (originalWebp (getFilePaths cfg rootFolder cardNum lang))
              (originalAvif (getFilePaths cfg rootFolder cardNum lang)) st"
  obtain r s where c: "?c = (r, s)" by (cases ?c)
  from convertToAvif_ok[OF assms(1,2), of "originalAvif (getFilePaths cfg rootFolder cardNum lang)"] c
  have "r = Inr ()"
    "disk s = (disk st)(originalAvif (getFilePaths cfg rootFolder cardNum lang) \<mapsto> Image w h)"
    by simp_all
  then show ?thesis using c assms(3)
    by (simp add: fixIssue_def dispatch_def Let_def log_msg_def)
qed

lemma fixIssue_convert_art_and_name_ok:
  assumes "codec e (clock st) = Succeeds"
    and "disk st (artAndNameWebp (getFilePaths cfg rootFolder cardNum lang)) = Some (Image w h)"
    and "step iss = CONVERT_ART_AND_NAME"
  shows "disk (snd (fixIssue e cfg rootFolder iss cardNum lang st))
           = (disk st)(artAndNameAvif (getFilePaths cfg rootFolder cardNum lang) \<mapsto> Image w h)"
proof -
  let ?c = "convertToAvif e (artAndNameWebp (getFilePaths cfg rootFolder cardNum lang))
              (artAndNameAvif (getFilePaths cfg rootFolder cardNum lang)) st"
  obtain r s where c: "?c = (r, s)" by (cases ?c)
  from convertToAvif_ok[OF assms(1,2), of "artAndNameAvif (getFilePaths cfg rootFolder cardNum lang)"] c
  have "r = Inr ()"
    "disk s = (disk st)(artAndNameAvif (getFilePaths cfg rootFolder cardNum lang) \<mapsto> Image w h)"
    by simp_all
  then show ?thesis using c assms(3)
    by (simp add: fixIssue_def dispatch_def Let_def log_msg_def)
qed

lemma fixIssue_crop_art_and_name_ok:
  assumes "\<forall>t. codec e t = Succeeds"
    and "disk st (originalWebp (getFilePaths cfg rootFolder cardNum lang)) = Some (Image 734 1024)"
    and "step iss = CROP_ART_AND_NAME"
  shows "disk (snd (fixIssue e cfg rootFolder iss cardNum lang st))
           = (\<lambda>p. if p = artAndNameWebp (getFilePaths cfg rootFolder cardNum lang)
                   then Some (Image 734 767)
                   else if p = tempDestinationOf (artAndNameWebp (getFilePaths cfg rootFolder cardNum lang))
                         \<or> p = topFileOf (artAndNameWebp (getFilePaths cfg rootFolder cardNum lang))
                         \<or> p = bottomFileOf (artAndNameWebp (getFilePaths cfg rootFolder cardNum lang))
                   then None else disk st p)"
proof -
  let ?p = "getFilePaths cfg rootFolder cardNum lang"
  have d: "distinct [originalWebp ?p, artAndNameWebp ?p, tempDestinationOf (artAndNameWebp ?p),
                     topFileOf (artAndNameWebp ?p), bottomFileOf (artAndNameWebp ?p)]"
    using paths_distinct[of cfg rootFolder cardNum lang] by simp
  have ok: "codec e (clock st) = Succeeds" "codec e (Suc (clock st)) = Succeeds"
           "codec e (Suc (Suc (clock st))) = Succeeds"
    using assms(1) by simp_all
  note c = cropImage_success[OF assms(2) ok d, of False "getCardNumber cardNum",
             unfolded croppedHeight_values]
  show ?thesis using assms(3)
    by (simp add: fixIssue_def dispatch_def Let_def c andThen_def ret_def log_msg_def)
qed

lemma sorted_passes:
  "sortIssuesByPipelineOrder
     [\<lparr>step = CONVERT_ORIGINAL, path = a, language = l\<rparr>,
      \<lparr>step = CROP_ART_AND_NAME, path = b, language = l\<rparr>,
      \<lparr>step = CONVERT_ART_AND_NAME, path = c, language = l\<rparr>]
   = [\<lparr>step = CONVERT_ORIGINAL, path = a, language = l\<rparr>,
      \<lparr>step = CROP_ART_AND_NAME, path = b, language = l\<rparr>,
      \<lparr>step = CONVERT_ART_AND_NAME, path = c, language = l\<rparr>]"
  "sortIssuesByPipelineOrder
     [\<lparr>step = CROP_ART_AND_NAME, path = b, language = l\<rparr>,
      \<lparr>step = CONVERT_ART_AND_NAME, path = c, language = l\<rparr>]
   = [\<lparr>step = CROP_ART_AND_NAME, path = b, language = l\<rparr>,
      \<lparr>step = CONVERT_ART_AND_NAME, path = c, language = l\<rparr>]"
  by (simp_all add: sortIssuesByPipelineOrder_def order_def)

lemma art_only_lengths:
  "length (artOnlyWebp (getFilePaths cfg rootFolder cardNum lang))
     = length rootFolder + length (edition cfg) + length (getCardNumber cardNum) + 16"
  "length (artOnlyAvif (getFilePaths cfg rootFolder cardNum lang))
     = length rootFolder + length (edition cfg) + length (getCardNumber cardNum) + 16"
  by (simp_all add: getFilePaths_def Let_def)

lemma upper_case_no_a:
  assumes "toUpperCase lang = lang"
  shows "count_list lang (CHR ''a'') = 0"
proof -
  have u: "upperChar (CHR ''a'') \<noteq> CHR ''a''" by code_simp
  have "map upperChar xs = xs \<Longrightarrow> CHR ''a'' \<notin> set xs" for xs
    using u by (induction xs) auto
  then show ?thesis using assms by (simp add: toUpperCase_def)
qed

lemma last_webp_avif:
  "last (originalWebp (getFilePaths cfg rootFolder cardNum lang)) = CHR ''p''"
  "last (originalAvif (getFilePaths cfg rootFolder cardNum lang)) = CHR ''f''"
  "last (artOnlyWebp (getFilePaths cfg rootFolder cardNum lang)) = CHR ''p''"
  "last (artOnlyAvif (getFilePaths cfg rootFolder cardNum lang)) = CHR ''f''"
  by (simp_all add: getFilePaths_def Let_def)

lemma art_only_not_original:
  assumes "toUpperCase lang = lang"
  shows "artOnlyWebp (getFilePaths cfg rootFolder cardNum lang)
           \<noteq> originalWebp (getFilePaths cfg rootFolder cardNum lang)"
    and "artOnlyAvif (getFilePaths cfg rootFolder cardNum lang)
           \<noteq> originalAvif (getFilePaths cfg rootFolder cardNum lang)"
    and "artOnlyWebp (getFilePaths cfg rootFolder cardNum lang)
           \<noteq> originalAvif (getFilePaths cfg rootFolder cardNum lang)"
    and "artOnlyAvif (getFilePaths cfg rootFolder cardNum lang)
           \<noteq> originalWebp (getFilePaths cfg rootFolder cardNum lang)"
proof -
  let ?p = "getFilePaths cfg rootFolder cardNum lang"
  note z = upper_case_no_a[OF assms]
  show "artOnlyWebp ?p \<noteq> originalWebp ?p"
  proof
    assume "artOnlyWebp ?p = originalWebp ?p"
    then have "count_list (artOnlyWebp ?p) (CHR ''a'') = count_list (originalWebp ?p) (CHR ''a'')"
      by simp
    then show False using z by (simp add: getFilePaths_def Let_def)
  qed
  show "artOnlyAvif ?p \<noteq> originalAvif ?p"
  proof
    assume "artOnlyAvif ?p = originalAvif ?p"
    then have "count_list (artOnlyAvif ?p) (CHR ''a'') = count_list (originalAvif ?p) (CHR ''a'')"
      by simp
    then show False using z by (simp add: getFilePaths_def Let_def)
  qed
  show "artOnlyWebp ?p \<noteq> originalAvif ?p"
    using last_webp_avif(2,3)[of cfg rootFolder cardNum lang] by auto
  show "artOnlyAvif ?p \<noteq> originalWebp ?p"
    using last_webp_avif(1,4)[of cfg rootFolder cardNum lang] by auto
qed

lemma art_only_apart:
  fixes cfg rootFolder cardNum lang
  defines "p \<equiv> getFilePaths cfg rootFolder cardNum lang"
  assumes "toUpperCase lang = lang"
  shows "artOnlyWebp p \<notin> set [originalWebp p, originalAvif p, artAndNameWebp p, artAndNameAvif p,
                   tempDestinationOf (artAndNameWebp p), topFileOf (artAndNameWebp p),
                   bottomFileOf (artAndNameWebp p)]"
    and "artOnlyAvif p \<notin> set [originalWebp p, originalAvif p, artAndNameWebp p, artAndNameAvif p,
                   tempDestinationOf (artAndNameWebp p), topFileOf (artAndNameWebp p),
                   bottomFileOf (artAndNameWebp p)]"
proof -
  have far: "x \<noteq> y" if "length x < length y" for x y :: string
    using that by auto
  note o = art_only_not_original[OF assms(2), of cfg rootFolder cardNum, folded p_def]
  have w: "artOnlyWebp p \<noteq> artAndNameWebp p" "artOnlyWebp p \<noteq> artAndNameAvif p"
    "artOnlyWebp p \<noteq> tempDestinationOf (artAndNameWebp p)"
    "artOnlyWebp p \<noteq> topFileOf (artAndNameWebp p)"
    "artOnlyWebp p \<noteq> bottomFileOf (artAndNameWebp p)"
    unfolding p_def
    by (rule far, simp add: path_lengths artAndName_temps_length art_only_lengths)+
  have a: "artOnlyAvif p \<noteq> artAndNameWebp p" "artOnlyAvif p \<noteq> artAndNameAvif p"
    "artOnlyAvif p \<noteq> tempDestinationOf (artAndNameWebp p)"
    "artOnlyAvif p \<noteq> topFileOf (artAndNameWebp p)"
    "artOnlyAvif p \<noteq> bottomFileOf (artAndNameWebp p)"
    unfolding p_def
    by (rule far, simp add: path_lengths artAndName_temps_length art_only_lengths)+
  show "artOnlyWebp p \<notin> set [originalWebp p, originalAvif p, artAndNameWebp p, artAndNameAvif p,
                   tempDestinationOf (artAndNameWebp p), topFileOf (artAndNameWebp p),
                   bottomFileOf (artAndNameWebp p)]"
    using o w by simp
  show "artOnlyAvif p \<notin> set [originalWebp p, originalAvif p, artAndNameWebp p, artAndNameAvif p,
                   tempDestinationOf (artAndNameWebp p), topFileOf (artAndNameWebp p),
                   bottomFileOf (artAndNameWebp p)]"
    using o a by simp
qed

lemma artOnly_quiet:
  assumes "isFirstLanguage cfg lang \<Longrightarrow> \<exists>w h. d (artOnlyWebp paths) = Some (Image w h) \<and> h \<noteq> 1024"
    and "isFirstLanguage cfg lang \<Longrightarrow> d (artOnlyAvif paths) \<noteq> None"
  shows "issuesOf (artOnlyFindings cfg cardNumber lang paths d) = []"
  using assms by (auto simp: artOnlyFindings_def variantFindings_def)

lemma artAndName_needs_crop_and_convert:
  assumes "\<not> skipVariants cfg"
    and "d (artAndNameWebp paths) = None \<or> (\<exists>w. d (artAndNameWebp paths) = Some (Image w 1024))"
    and "d (artAndNameAvif paths) = None"
  shows "issuesOf (artAndNameFindings cfg cardNumber lang paths d)
           = [\<lparr>step = CROP_ART_AND_NAME, path = artAndNameWebp paths, language = lang\<rparr>,
              \<lparr>step = CONVERT_ART_AND_NAME, path = artAndNameAvif paths, language = lang\<rparr>]"
  using assms by (auto simp: artAndNameFindings_def variantFindings_def)

lemma artAndName_quiet:
  assumes "d (artAndNameWebp paths) = Some (Image 734 767)" and "d (artAndNameAvif paths) \<noteq> None"
  shows "issuesOf (artAndNameFindings cfg cardNumber lang paths d) = []"
  using assms by (auto simp: artAndNameFindings_def variantFindings_def)

lemma original_needs_convert_only:
  assumes "d (originalWebp paths) = Some (Image 734 1024)"
  shows "issuesOf (originalFindings cardNumber lang paths d)
           = (if d (originalAvif paths) = None
              then [\<lparr>step = CONVERT_ORIGINAL, path = originalAvif paths, language = lang\<rparr>] else [])"
  using assms by (auto simp: originalFindings_def)

lemma validateCard_after_download:
  assumes sk: "\<not> skipVariants cfg"
    and ow: "disk s (originalWebp (getFilePaths cfg rootFolder cardNum lang)) = Some (Image 734 1024)"
    and aw: "disk s (artAndNameWebp (getFilePaths cfg rootFolder cardNum lang)) = None
             \<or> (\<exists>w. disk s (artAndNameWebp (getFilePaths cfg rootFolder cardNum lang))
                       = Some (Image w 1024))"
    and aa: "disk s (artAndNameAvif (getFilePaths cfg rootFolder cardNum lang)) = None"
    and ao: "isFirstLanguage cfg lang \<Longrightarrow>
               \<exists>w h. disk s (artOnlyWebp (getFilePaths cfg rootFolder cardNum lang)) = Some (Image w h)
                      \<and> h \<noteq> 1024"
            "isFirstLanguage cfg lang \<Longrightarrow>
               disk s (artOnlyAvif (getFilePaths cfg rootFolder cardNum lang)) \<noteq> None"
  shows "fst (validateCard cfg rootFolder cardNum lang s) =
    Inr ((if disk s (originalAvif (getFilePaths cfg rootFolder cardNum lang)) = None
          then [\<lparr>step = CONVERT_ORIGINAL, path = originalAvif (getFilePaths cfg rootFolder cardNum lang),
                  language = lang\<rparr>] else [])
         @ [\<lparr>step = CROP_ART_AND_NAME, path = artAndNameWebp (getFilePaths cfg rootFolder cardNum lang),
              language = lang\<rparr>,
            \<lparr>step = CONVERT_ART_AND_NAME, path = artAndNameAvif (getFilePaths cfg rootFolder cardNum lang),
              language = lang\<rparr>])"
proof -
  have r: "readable cfg rootFolder cardNum lang (disk s)"
    using ow aw ao(1) by (auto simp: readable_def Let_def)
  have ne: "disk s (originalWebp (getFilePaths cfg rootFolder cardNum lang)) \<noteq> None"
    using ow by simp
  have q: "issuesOf (artOnlyFindings cfg (getCardNumber cardNum) lang
                       (getFilePaths cfg rootFolder cardNum lang) (disk s)) = []"
    by (rule artOnly_quiet) (fact ao)+
  show ?thesis
    unfolding validateCard_readable[OF r] cardFindings_present[where d = "disk s", OF ne]
      fst_conv issuesOf_append original_needs_convert_only[where d = "disk s", OF ow] q
      artAndName_needs_crop_and_convert[where d = "disk s", OF sk aw aa]
    by simp
qed

lemma validateCard_converged:
  assumes ow: "disk s (originalWebp (getFilePaths cfg rootFolder cardNum lang)) = Some (Image 734 1024)"
    and oa: "disk s (originalAvif (getFilePaths cfg rootFolder cardNum lang)) \<noteq> None"
    and aw: "disk s (artAndNameWebp (getFilePaths cfg rootFolder cardNum lang)) = Some (Image 734 767)"
    and aa: "disk s (artAndNameAvif (getFilePaths cfg rootFolder cardNum lang)) \<noteq> None"
    and ao: "isFirstLanguage cfg lang \<Longrightarrow>
               \<exists>w h. disk s (artOnlyWebp (getFilePaths cfg rootFolder cardNum lang)) = Some (Image w h)
                      \<and> h \<noteq> 1024"
            "isFirstLanguage cfg lang \<Longrightarrow>
               disk s (artOnlyAvif (getFilePaths cfg rootFolder cardNum lang)) \<noteq> None"
  shows "fst (validateCard cfg rootFolder cardNum lang s) = Inr []"
proof -
  have r: "readable cfg rootFolder cardNum lang (disk s)"
    using ow aw ao(1) by (auto simp: readable_def Let_def)
  have ne: "disk s (originalWebp (getFilePaths cfg rootFolder cardNum lang)) \<noteq> None"
    using ow by simp
  have q: "issuesOf (artOnlyFindings cfg (getCardNumber cardNum) lang
                       (getFilePaths cfg rootFolder cardNum lang) (disk s)) = []"
    by (rule artOnly_quiet) (fact ao)+
  show ?thesis
    unfolding validateCard_readable[OF r] cardFindings_present[where d = "disk s", OF ne]
      fst_conv issuesOf_append original_needs_convert_only[where d = "disk s", OF ow] q
      artAndName_quiet[where d = "disk s", OF aw aa]
    using oa by simp
qed

lemma second_pass:
  assumes codec: "\<forall>t. codec e t = Succeeds"
    and ow: "disk s (originalWebp (getFilePaths cfg rootFolder cardNum lang)) = Some (Image 734 1024)"
    and ao: "isFirstLanguage cfg lang \<Longrightarrow>
               \<exists>w h. disk s (artOnlyWebp (getFilePaths cfg rootFolder cardNum lang)) = Some (Image w h)
                      \<and> h \<noteq> 1024"
            "isFirstLanguage cfg lang \<Longrightarrow>
               disk s (artOnlyAvif (getFilePaths cfg rootFolder cardNum lang)) \<noteq> None"
    and up: "toUpperCase lang = lang"
    and issues: "issues =
         (if disk s (originalAvif (getFilePaths cfg rootFolder cardNum lang)) = None
          then [\<lparr>step = CONVERT_ORIGINAL, path = originalAvif (getFilePaths cfg rootFolder cardNum lang),
                  language = lang\<rparr>] else [])
         @ [\<lparr>step = CROP_ART_AND_NAME, path = artAndNameWebp (getFilePaths cfg rootFolder cardNum lang),
              language = lang\<rparr>,
            \<lparr>step = CONVERT_ART_AND_NAME, path = artAndNameAvif (getFilePaths cfg rootFolder cardNum lang),
              language = lang\<rparr>]"
  shows "fst (validateCard cfg rootFolder cardNum lang
                (applyFixes e cfg rootFolder cardNum lang (sortIssuesByPipelineOrder issues) s))
           = Inr []"
proof -
  let ?p = "getFilePaths cfg rootFolder cardNum lang"
  let ?co = "\<lparr>step = CONVERT_ORIGINAL, path = originalAvif ?p, language = lang\<rparr>"
  let ?crop = "\<lparr>step = CROP_ART_AND_NAME, path = artAndNameWebp ?p, language = lang\<rparr>"
  let ?conv = "\<lparr>step = CONVERT_ART_AND_NAME, path = artAndNameAvif ?p, language = lang\<rparr>"
  note d = paths_distinct[of cfg rootFolder cardNum lang, simplified]
  have c: "codec e t = Succeeds" for t using codec by simp
  have tail: "fst (validateCard cfg rootFolder cardNum lang
                     (applyFixes e cfg rootFolder cardNum lang [?crop, ?conv] sA)) = Inr []"
    if a1: "disk sA (originalWebp ?p) = Some (Image 734 1024)"
      and a2: "disk sA (originalAvif ?p) \<noteq> None"
      and a3: "isFirstLanguage cfg lang \<Longrightarrow> disk sA (artOnlyWebp ?p) = disk s (artOnlyWebp ?p)"
      and a4: "isFirstLanguage cfg lang \<Longrightarrow> disk sA (artOnlyAvif ?p) = disk s (artOnlyAvif ?p)"
    for sA
  proof -
    let ?sB = "snd (fixIssue e cfg rootFolder ?crop cardNum lang sA)"
    let ?sC = "snd (fixIssue e cfg rootFolder ?conv cardNum lang ?sB)"
    have dB: "disk ?sB = (\<lambda>q. if q = artAndNameWebp ?p then Some (Image 734 767)
                   else if q = tempDestinationOf (artAndNameWebp ?p)
                         \<or> q = topFileOf (artAndNameWebp ?p)
                         \<or> q = bottomFileOf (artAndNameWebp ?p)
                   then None else disk sA q)"
      by (rule fixIssue_crop_art_and_name_ok[OF codec a1]) simp
    have awB: "disk ?sB (artAndNameWebp ?p) = Some (Image 734 767)" by (simp add: dB)
    have dC: "disk ?sC = (disk ?sB)(artAndNameAvif ?p \<mapsto> Image 734 767)"
      by (rule fixIssue_convert_art_and_name_ok[OF c awB]) simp
    have f1: "disk ?sC (originalWebp ?p) = Some (Image 734 1024)"
      using a1 d by (simp add: dC dB)
    have f2: "disk ?sC (originalAvif ?p) \<noteq> None"
      using a2 d by (simp add: dC dB)
    have f3: "disk ?sC (artAndNameWebp ?p) = Some (Image 734 767)"
      using d by (simp add: dC dB)
    have f4: "disk ?sC (artAndNameAvif ?p) \<noteq> None"
      by (simp add: dC)
    have f5: "disk ?sC (artOnlyWebp ?p) = disk s (artOnlyWebp ?p)" if "isFirstLanguage cfg lang"
      using art_only_apart(1)[OF up, of cfg rootFolder cardNum] a3[OF that]
      by (simp add: dC dB)
    have f6: "disk ?sC (artOnlyAvif ?p) = disk s (artOnlyAvif ?p)" if "isFirstLanguage cfg lang"
      using art_only_apart(2)[OF up, of cfg rootFolder cardNum] a4[OF that]
      by (simp add: dC dB)
    have g5: "\<exists>w h. disk ?sC (artOnlyWebp ?p) = Some (Image w h) \<and> h \<noteq> 1024"
      if "isFirstLanguage cfg lang"
      unfolding f5[OF that] by (rule ao(1)[OF that])
    have g6: "disk ?sC (artOnlyAvif ?p) \<noteq> None" if "isFirstLanguage cfg lang"
      unfolding f6[OF that] by (rule ao(2)[OF that])
    show ?thesis
      using validateCard_converged[OF f1 f2 f3 f4 g5 g6] by simp
  qed
  show ?thesis
  proof (cases "disk s (originalAvif ?p) = None")
    case True
    let ?sA = "snd (fixIssue e cfg rootFolder ?co cardNum lang s)"
    have dA: "disk ?sA = (disk s)(originalAvif ?p \<mapsto> Image 734 1024)"
      by (rule fixIssue_convert_original_ok[OF c ow]) simp
    have a1: "disk ?sA (originalWebp ?p) = Some (Image 734 1024)"
      using ow d by (simp add: dA)
    have a2: "disk ?sA (originalAvif ?p) \<noteq> None" by (simp add: dA)
    have a3: "disk ?sA (artOnlyWebp ?p) = disk s (artOnlyWebp ?p)" if "isFirstLanguage cfg lang"
      using art_only_apart(1)[OF up, of cfg rootFolder cardNum] by (simp add: dA)
    have a4: "disk ?sA (artOnlyAvif ?p) = disk s (artOnlyAvif ?p)" if "isFirstLanguage cfg lang"
      using art_only_apart(2)[OF up, of cfg rootFolder cardNum] by (simp add: dA)
    from tail[OF a1 a2 a3 a4] show ?thesis
      using True by (simp add: issues sorted_passes)
  next
    case False
    from tail[OF ow False refl refl] show ?thesis
      using False by (simp add: issues sorted_passes del: not_None_eq)
  qed
qed

text \<open>
  The run of the next lemma starts without the original and without the art_and_name file:
  each file that a fix of this run writes did not exist when the run began, and the
  validator probes a file only when it exists. An art_and_name file that is on disk
  uncropped is probed by the re-validation before the crop overwrites it; that run is
  left out.
\<close>

lemma download_then_crop_run:
  assumes sk: "\<not> skipVariants cfg"
    and up: "toUpperCase lang = lang" and pad: "padStart3 (edition cfg) = edition cfg"
    and ow0: "disk st (originalWebp (getFilePaths cfg rootFolder cardNum lang)) = None"
    and aw0: "disk st (artAndNameWebp (getFilePaths cfg rootFolder cardNum lang)) = None"
    and aa0: "disk st (artAndNameAvif (getFilePaths cfg rootFolder cardNum lang)) = None"
    and ao: "isFirstLanguage cfg lang \<Longrightarrow>
               \<exists>w h. disk st (artOnlyWebp (getFilePaths cfg rootFolder cardNum lang)) = Some (Image w h)
                      \<and> h \<noteq> 1024"
            "isFirstLanguage cfg lang \<Longrightarrow>
               disk st (artOnlyAvif (getFilePaths cfg rootFolder cardNum lang)) \<noteq> None"
    and http: "http e (clock st) = Status200 (Image 734 1024)"
    and codec: "\<forall>t. codec e t = Succeeds"
    and dl: "dl = \<lparr>step = DOWNLOAD, path = originalWebp (getFilePaths cfg rootFolder cardNum lang),
                    language = lang\<rparr>"
  shows "fst (fixLoop e cfg rootFolder cardNum lang 0 [dl] st) = Inr []"
    and "fst (snd (fixLoop e cfg rootFolder cardNum lang 0 [dl] st)) = 2"
    and "executed (snd (snd (fixLoop e cfg rootFolder cardNum lang 0 [dl] st)))
          = executed st @ [(getCardNumber cardNum, lang, DOWNLOAD)]
            @ (if disk st (originalAvif (getFilePaths cfg rootFolder cardNum lang)) = None
               then [(getCardNumber cardNum, lang, CONVERT_ORIGINAL)] else [])
            @ [(getCardNumber cardNum, lang, CROP_ART_AND_NAME),
               (getCardNumber cardNum, lang, CONVERT_ART_AND_NAME)]"
proof -
  let ?p = "getFilePaths cfg rootFolder cardNum lang"
  let ?cn = "getCardNumber cardNum"
  note d = paths_distinct[of cfg rootFolder cardNum lang, simplified]
  define s1 where "s1 = applyFixes e cfg rootFolder cardNum lang (sortIssuesByPipelineOrder [dl]) st"
  have sd: "step dl = DOWNLOAD" by (simp add: dl)
  have d1: "disk s1 = (disk st)(originalWebp ?p \<mapsto> Image 734 1024)"
    using fixIssue_download_ok[OF http sd up pad, of rootFolder cardNum] by (simp add: s1_def)
  obtain r1 s1' where v1: "validateCard cfg rootFolder cardNum lang s1 = (r1, s1')"
    by (cases "validateCard cfg rootFolder cardNum lang s1")
  have d1': "disk s1' = disk s1"
    using validateCard_state(1)[of cfg rootFolder cardNum lang s1] v1 by simp
  define issues2 where "issues2 = (if disk st (originalAvif ?p) = None
          then [\<lparr>step = CONVERT_ORIGINAL, path = originalAvif ?p, language = lang\<rparr>] else [])
         @ [\<lparr>step = CROP_ART_AND_NAME, path = artAndNameWebp ?p, language = lang\<rparr>,
            \<lparr>step = CONVERT_ART_AND_NAME, path = artAndNameAvif ?p, language = lang\<rparr>]"
  have g1: "disk s1 (originalWebp ?p) = Some (Image 734 1024)" unfolding d1 by simp
  have g2: "disk s1 (artAndNameWebp ?p) = disk st (artAndNameWebp ?p)" using d unfolding d1 by auto
  have g3: "disk s1 (artAndNameAvif ?p) = None" using aa0 d unfolding d1 by auto
  have g4: "disk s1 (originalAvif ?p) = disk st (originalAvif ?p)" using d unfolding d1 by auto
  have g5: "disk s1 (artOnlyWebp ?p) = disk st (artOnlyWebp ?p)" if "isFirstLanguage cfg lang"
    using art_only_apart(1)[OF up, of cfg rootFolder cardNum] unfolding d1 by auto
  have g6: "disk s1 (artOnlyAvif ?p) = disk st (artOnlyAvif ?p)" if "isFirstLanguage cfg lang"
    using art_only_apart(2)[OF up, of cfg rootFolder cardNum] unfolding d1 by auto
  have aw1: "disk s1 (artAndNameWebp ?p) = None
             \<or> (\<exists>w. disk s1 (artAndNameWebp ?p) = Some (Image w 1024))"
    unfolding g2 using aw0 by simp
  have ao1: "\<exists>w h. disk s1 (artOnlyWebp ?p) = Some (Image w h) \<and> h \<noteq> 1024"
    if "isFirstLanguage cfg lang"
    unfolding g5[OF that] by (rule ao(1)[OF that])
  have ao2: "disk s1 (artOnlyAvif ?p) \<noteq> None" if "isFirstLanguage cfg lang"
    unfolding g6[OF that] by (rule ao(2)[OF that])
  have r1: "r1 = Inr issues2"
    using validateCard_after_download[OF sk g1 aw1 g3 ao1 ao2] v1 unfolding g4 issues2_def by simp
  have ne2: "issues2 \<noteq> []" by (simp add: issues2_def)
  have ex_s1: "executed s1 = executed st @ [(?cn, lang, DOWNLOAD)]"
    unfolding s1_def executed_applyFixes by (simp add: sd)
  have ex1: "executed s1' = executed st @ [(?cn, lang, DOWNLOAD)]"
    using executed_validateCard[of cfg rootFolder cardNum lang s1] v1 ex_s1 by simp
  have step1: "fixLoop e cfg rootFolder cardNum lang 0 [dl] st
                 = fixLoop e cfg rootFolder cardNum lang (Suc 0) issues2 s1'"
  proof -
    have "[dl] \<noteq> []" "(0::nat) < maxAttempts" by (simp_all add: maxAttempts_def)
    from fixLoop_step[OF this, of e cfg rootFolder cardNum lang st] show ?thesis
      unfolding s1_def[symmetric] using v1 r1 ne2 by simp
  qed
  define s2 where "s2 = applyFixes e cfg rootFolder cardNum lang (sortIssuesByPipelineOrder issues2) s1'"
  obtain r2 s2' where v2: "validateCard cfg rootFolder cardNum lang s2 = (r2, s2')"
    by (cases "validateCard cfg rootFolder cardNum lang s2")
  have h1: "disk s1' (originalWebp ?p) = Some (Image 734 1024)" unfolding d1' by (rule g1)
  have h4: "disk s1' (originalAvif ?p) = disk st (originalAvif ?p)" unfolding d1' by (rule g4)
  have i2: "issues2 =
         (if disk s1' (originalAvif ?p) = None
          then [\<lparr>step = CONVERT_ORIGINAL, path = originalAvif ?p, language = lang\<rparr>] else [])
         @ [\<lparr>step = CROP_ART_AND_NAME, path = artAndNameWebp ?p, language = lang\<rparr>,
            \<lparr>step = CONVERT_ART_AND_NAME, path = artAndNameAvif ?p, language = lang\<rparr>]"
    unfolding h4 issues2_def by (rule refl)
  have ao1': "\<exists>w h. disk s1' (artOnlyWebp ?p) = Some (Image w h) \<and> h \<noteq> 1024"
    if "isFirstLanguage cfg lang"
    unfolding d1' by (rule ao1[OF that])
  have ao2': "disk s1' (artOnlyAvif ?p) \<noteq> None" if "isFirstLanguage cfg lang"
    unfolding d1' by (rule ao2[OF that])
  have r2: "r2 = Inr []"
    using second_pass[OF codec h1 ao1' ao2' up i2] v2 unfolding s2_def[symmetric] by simp
  have sorted2: "sortIssuesByPipelineOrder issues2 = issues2"
    by (simp add: issues2_def sorted_passes)
  have ex_s2: "executed s2 = executed s1' @ map (\<lambda>i. (?cn, lang, step i)) issues2"
    unfolding s2_def sorted2 by (rule executed_applyFixes)
  have ex2: "executed s2' = executed s1' @ map (\<lambda>i. (?cn, lang, step i)) issues2"
    using executed_validateCard[of cfg rootFolder cardNum lang s2] v2 ex_s2 by simp
  have step2: "fixLoop e cfg rootFolder cardNum lang (Suc 0) issues2 s1' = (Inr [], 2, s2')"
  proof -
    have "(Suc 0) < maxAttempts" by (simp add: maxAttempts_def)
    from fixLoop_step[OF ne2 this, of e cfg rootFolder cardNum lang s1'] show ?thesis
      unfolding s2_def[symmetric] using v2 r2 by (simp add: fixLoop_stop)
  qed
  show "fst (fixLoop e cfg rootFolder cardNum lang 0 [dl] st) = Inr []"
    unfolding step1 step2 by simp
  show "fst (snd (fixLoop e cfg rootFolder cardNum lang 0 [dl] st)) = 2"
    unfolding step1 step2 by simp
  show "executed (snd (snd (fixLoop e cfg rootFolder cardNum lang 0 [dl] st)))
          = executed st @ [(?cn, lang, DOWNLOAD)]
            @ (if disk st (originalAvif ?p) = None
               then [(?cn, lang, CONVERT_ORIGINAL)] else [])
            @ [(?cn, lang, CROP_ART_AND_NAME), (?cn, lang, CONVERT_ART_AND_NAME)]"
    unfolding step1 step2 by (simp add: ex2 ex1 issues2_def)
qed

lemma order_indices:
  "map (indexOf order) order = [0, 1, 2, 3, 4, 5, 6]"
  by (simp add: order_def)

lemma sortIssuesByPipelineOrder_sorted:
  "sorted (map (\<lambda>i. indexOf order (step i)) (sortIssuesByPipelineOrder issues))"
  "mset (sortIssuesByPipelineOrder issues) = mset issues"
  by (simp_all add: sortIssuesByPipelineOrder_def)

lemma pass_in_order:
  "sorted (map (\<lambda>x. indexOf order (snd (snd x)))
             (map (\<lambda>i. (cardNumber, lang, step i)) (sortIssuesByPipelineOrder issues)))"
  using sortIssuesByPipelineOrder_sorted(1)[of issues] by (simp add: comp_def)

lemma fixLoop_passes:
  "\<exists>passes. executed (snd (snd (fixLoop e cfg rootFolder cardNum lang attempt remainingIssues st)))
               = executed st @ concat passes
     \<and> attempt + length passes
         = fst (snd (fixLoop e cfg rootFolder cardNum lang attempt remainingIssues st))
     \<and> (\<forall>p \<in> set passes. sorted (map (\<lambda>x. indexOf order (snd (snd x))) p))"
proof (induction e cfg rootFolder cardNum lang attempt remainingIssues st rule: fixLoop.induct)
  case (1 e cfg rootFolder cardNum lang attempt remainingIssues st)
  show ?case
  proof (cases "length remainingIssues > 0 \<and> attempt < maxAttempts")
    case False
    then have "remainingIssues = [] \<or> maxAttempts \<le> attempt" by auto
    from fixLoop_stop[OF this] show ?thesis by simp
  next
    case True
    then have ne: "remainingIssues \<noteq> []" and lt: "attempt < maxAttempts" by auto
    let ?sorted = "sortIssuesByPipelineOrder remainingIssues"
    let ?st1 = "applyFixes e cfg rootFolder cardNum lang ?sorted st"
    let ?pass = "map (\<lambda>i. (getCardNumber cardNum, lang, step i)) ?sorted"
    obtain r st2 where v: "validateCard cfg rootFolder cardNum lang ?st1 = (r, st2)"
      by (cases "validateCard cfg rootFolder cardNum lang ?st1")
    have ex2: "executed st2 = executed st @ ?pass"
      using executed_validateCard[of cfg rootFolder cardNum lang ?st1] v
      by (simp add: executed_applyFixes)
    have one: "executed st2 = executed st @ concat [?pass]
                 \<and> attempt + length [?pass] = Suc attempt
                 \<and> (\<forall>p \<in> set [?pass]. sorted (map (\<lambda>x. indexOf order (snd (snd x))) p))"
      using ex2 pass_in_order[of "getCardNumber cardNum" lang remainingIssues] by simp
    show ?thesis
    proof (cases r)
      case (Inl err)
      have "fixLoop e cfg rootFolder cardNum lang attempt remainingIssues st
              = (Inl err, Suc attempt, st2)"
        using v Inl by (simp add: fixLoop_step[OF ne lt])
      then show ?thesis using one by (intro exI[where x = "[?pass]"]) simp
    next
      case (Inr issues')
      show ?thesis
      proof (cases "issues' = []")
        case True
        have "fixLoop e cfg rootFolder cardNum lang attempt remainingIssues st
                = (Inr issues', Suc attempt, st2)"
          using v Inr True by (simp add: fixLoop_step[OF ne lt])
        then show ?thesis using one by (intro exI[where x = "[?pass]"]) simp
      next
        case False
        then have l: "length issues' \<noteq> 0" by simp
        have eq: "fixLoop e cfg rootFolder cardNum lang attempt remainingIssues st
                = fixLoop e cfg rootFolder cardNum lang (attempt + 1) issues' st2"
          using v Inr False by (simp add: fixLoop_step[OF ne lt])
        from "1.IH"[OF True refl refl refl v[symmetric] Inr l]
        obtain passes where
          p: "executed (snd (snd (fixLoop e cfg rootFolder cardNum lang (attempt + 1) issues' st2)))
                = executed st2 @ concat passes"
             "attempt + 1 + length passes
                = fst (snd (fixLoop e cfg rootFolder cardNum lang (attempt + 1) issues' st2))"
             "\<forall>p \<in> set passes. sorted (map (\<lambda>x. indexOf order (snd (snd x))) p)"
          by blast
        show ?thesis
          unfolding eq using p one by (intro exI[where x = "?pass # passes"]) simp
      qed
    qed
  qed
qed

lemma fixIssue_download_fixed:
  assumes "http e (clock st) = Status200 body" and "step iss = DOWNLOAD"
  shows "fst (fixIssue e cfg rootFolder iss cardNum lang st) = True"
    and "recovered (snd (fixIssue e cfg rootFolder iss cardNum lang st)) = Suc (recovered st)"
  using assms
  by (simp_all add: fixIssue_def dispatch_def Let_def downloadImage_def andThen_def run_def ret_def
        request_def log_msg_def writeFile_def)

lemma misplaced_download_loop:
  assumes ok: "\<forall>t. \<exists>body. http e t = Status200 body"
    and dl: "dl = \<lparr>step = DOWNLOAD, path = originalWebp (getFilePaths cfg rootFolder cardNum lang),
                    language = lang\<rparr>"
    and apart: "rootFolder @ ''/'' @ toUpperCase lang @ ''/'' @ padStart3 (edition cfg)
                  @ ''/'' @ padStart3 (toString cardNum) @ ''.webp''
                \<noteq> originalWebp (getFilePaths cfg rootFolder cardNum lang)"
  shows "attempt \<le> maxAttempts \<Longrightarrow>
         disk st (originalWebp (getFilePaths cfg rootFolder cardNum lang)) = None \<Longrightarrow>
         fst (fixLoop e cfg rootFolder cardNum lang attempt [dl] st) = Inr [dl]
         \<and> fst (snd (fixLoop e cfg rootFolder cardNum lang attempt [dl] st)) = maxAttempts
         \<and> disk (snd (snd (fixLoop e cfg rootFolder cardNum lang attempt [dl] st)))
              (originalWebp (getFilePaths cfg rootFolder cardNum lang)) = None
         \<and> recovered (snd (snd (fixLoop e cfg rootFolder cardNum lang attempt [dl] st)))
             = recovered st + (maxAttempts - attempt)
         \<and> executed (snd (snd (fixLoop e cfg rootFolder cardNum lang attempt [dl] st)))
             = executed st @ replicate (maxAttempts - attempt) (getCardNumber cardNum, lang, DOWNLOAD)"
proof (induction "maxAttempts - attempt" arbitrary: attempt st)
  case 0
  then have "maxAttempts \<le> attempt" by simp
  then show ?case using 0 by (simp add: fixLoop_stop)
next
  case (Suc k)
  then have lt: "attempt < maxAttempts" by simp
  have ne: "[dl] \<noteq> []" by simp
  obtain body where c: "http e (clock st) = Status200 body" using ok by blast
  have sd: "step dl = DOWNLOAD" by (simp add: dl)
  let ?s1 = "snd (fixIssue e cfg rootFolder dl cardNum lang st)"
  note w = fixIssue_download_writes[OF c sd, of cfg rootFolder cardNum lang]
  note f = fixIssue_download_fixed[OF c sd, of cfg rootFolder cardNum lang]
  have m1: "disk ?s1 (originalWebp (getFilePaths cfg rootFolder cardNum lang)) = None"
    unfolding w(1) using apart Suc.prems(2) by auto
  let ?v = "validateCard cfg rootFolder cardNum lang ?s1"
  obtain r s2 where v: "?v = (r, s2)" by (cases ?v)
  have r: "r = Inr [dl]" using validateCard_missing_original[OF m1] v by (simp add: dl)
  have s2: "disk s2 = disk ?s1" "recovered s2 = Suc (recovered st)"
    using validateCard_state[of cfg rootFolder cardNum lang ?s1] v f by simp_all
  have ex: "executed s2 = executed st @ [(getCardNumber cardNum, lang, DOWNLOAD)]"
    using executed_validateCard[of cfg rootFolder cardNum lang ?s1] v
    by (simp add: executed_fixIssue sd)
  have rep: "replicate (maxAttempts - attempt) (getCardNumber cardNum, lang, DOWNLOAD)
     = (getCardNumber cardNum, lang, DOWNLOAD)
       # replicate (maxAttempts - Suc attempt) (getCardNumber cardNum, lang, DOWNLOAD)"
    using lt by (simp add: Suc_diff_Suc flip: replicate_Suc)
  have step: "fixLoop e cfg rootFolder cardNum lang attempt [dl] st
              = fixLoop e cfg rootFolder cardNum lang (Suc attempt) [dl] s2"
    using v r by (simp add: fixLoop_step[OF ne lt])
  have k: "k = maxAttempts - Suc attempt" using Suc.hyps(2) by simp
  have le: "Suc attempt \<le> maxAttempts" using lt by simp
  have m2: "disk s2 (originalWebp (getFilePaths cfg rootFolder cardNum lang)) = None"
    using s2(1) m1 by simp
  from Suc.hyps(1)[OF k le m2] show ?case
    unfolding step rep using s2(2) lt ex by simp
qed

lemma paths_it: "getFilePaths lowerCaseConfig ''cards'' 42 ''it'' =
  \<lparr>originalWebp = ''cards/it/001/042.webp'', originalAvif = ''cards/it/001/042.avif'',
   artOnlyWebp = ''cards/001/art_only/042.webp'', artOnlyAvif = ''cards/001/art_only/042.avif'',
   artAndNameWebp = ''cards/it/001/art_and_name/042.webp'',
   artAndNameAvif = ''cards/it/001/art_and_name/042.avif''\<rparr>"
  by code_simp

lemma download_destination_it:
  "''cards'' @ ''/'' @ toUpperCase ''it'' @ ''/'' @ padStart3 (edition lowerCaseConfig)
      @ ''/'' @ padStart3 (toString 42) @ ''.webp'' = ''cards/IT/001/042.webp''"
  by code_simp

lemma fixIssue_crop_refuses:
  assumes "disk st (originalWebp (getFilePaths cfg rootFolder cardNum lang)) \<noteq> Some (Image 734 1024)"
    and "step iss = CROP_ART_ONLY \<or> step iss = CROP_ART_AND_NAME"
  shows "fst (fixIssue e cfg rootFolder iss cardNum lang st) = False"
    and "disk (snd (fixIssue e cfg rootFolder iss cardNum lang st)) p = None
         \<or> disk (snd (fixIssue e cfg rootFolder iss cardNum lang st)) p = disk st p"
  using assms(2)
    cropImage_refuses[OF assms(1), where e = e and artOnly = True
      and destinationFile = "artOnlyWebp (getFilePaths cfg rootFolder cardNum lang)"
      and cardNumber = "getCardNumber cardNum"]
    cropImage_refuses[OF assms(1), where e = e and artOnly = False
      and destinationFile = "artAndNameWebp (getFilePaths cfg rootFolder cardNum lang)"
      and cardNumber = "getCardNumber cardNum"]
  by (auto simp: fixIssue_def dispatch_def Let_def andThen_def ret_def log_msg_def)

section \<open>Crop, not resize, for an uncropped variant\<close>

text \<open>
  Claim C1, as amended. The variants are examined only when the original WebP of the card
  exists, variants are not skipped and, for art_only, the language is the first one
  configured. For every variant that is examined and whose probed height is 1024, the
  validator emits an issue with the crop step of that variant and the variant's path;
  and every \<open>RESIZE_ORIGINAL\<close> issue that validation emits has the path of the original
  WebP. The type of steps has no resize step for a variant.
\<close>

theorem crop_not_resize:
  assumes "fst (validateCard cfg rootFolder cardNum lang st) = Inr issues"
    and "disk st (originalWebp (getFilePaths cfg rootFolder cardNum lang)) \<noteq> None"
    and "\<not> skipVariants cfg"
  shows "((\<exists>w. disk st (artAndNameWebp (getFilePaths cfg rootFolder cardNum lang)) = Some (Image w 1024))
            \<longrightarrow> \<lparr>step = CROP_ART_AND_NAME,
                  path = artAndNameWebp (getFilePaths cfg rootFolder cardNum lang),
                  language = lang\<rparr> \<in> set issues)
       \<and> (isFirstLanguage cfg lang
            \<and> (\<exists>w. disk st (artOnlyWebp (getFilePaths cfg rootFolder cardNum lang)) = Some (Image w 1024))
            \<longrightarrow> \<lparr>step = CROP_ART_ONLY,
                  path = artOnlyWebp (getFilePaths cfg rootFolder cardNum lang),
                  language = ''shared''\<rparr> \<in> set issues)
       \<and> (\<forall>i \<in> set issues. step i = RESIZE_ORIGINAL
            \<longrightarrow> path i = originalWebp (getFilePaths cfg rootFolder cardNum lang))"
proof -
  note iss = validateCard_issues_present[OF assms(1,2)]
  have r: "\<forall>i \<in> set issues. step i = RESIZE_ORIGINAL
            \<longrightarrow> path i = originalWebp (getFilePaths cfg rootFolder cardNum lang)"
    unfolding iss
    using originalFindings_resize_path artOnlyFindings_steps artAndNameFindings_steps
    by fastforce
  show ?thesis
    using r artAndNameFindings_crop_mem[OF assms(3)] artOnlyFindings_crop_mem[OF assms(3)]
    unfolding iss by blast
qed

theorem crop_not_resize_witness:
  "fst (validateCard exampleConfig ''cards'' 42 ''EN'' (newValidator diskUncropped)) =
     Inr [\<lparr>step = CROP_ART_ONLY, path = ''cards/001/art_only/042.webp'', language = ''shared''\<rparr>,
          \<lparr>step = CROP_ART_AND_NAME, path = ''cards/EN/001/art_and_name/042.webp'',
            language = ''EN''\<rparr>]
   \<and> disk (newValidator diskUncropped) ''cards/EN/001/042.webp'' \<noteq> None
   \<and> \<not> skipVariants exampleConfig
   \<and> isFirstLanguage exampleConfig ''EN''
   \<and> disk (newValidator diskUncropped) ''cards/EN/001/art_and_name/042.webp'' = Some (Image 734 1024)
   \<and> disk (newValidator diskUncropped) ''cards/001/art_only/042.webp'' = Some (Image 734 1024)
   \<and> \<lparr>step = CROP_ART_AND_NAME, path = ''cards/EN/001/art_and_name/042.webp'', language = ''EN''\<rparr>
        \<in> set [\<lparr>step = CROP_ART_ONLY, path = ''cards/001/art_only/042.webp'', language = ''shared''\<rparr>,
          \<lparr>step = CROP_ART_AND_NAME, path = ''cards/EN/001/art_and_name/042.webp'',
            language = ''EN''\<rparr>]"
proof -
  let ?st = "newValidator diskUncropped"
  let ?p = "getFilePaths exampleConfig ''cards'' 42 ''EN''"
  have h1: "fst (validateCard exampleConfig ''cards'' 42 ''EN'' ?st) =
     Inr [\<lparr>step = CROP_ART_ONLY, path = ''cards/001/art_only/042.webp'', language = ''shared''\<rparr>,
          \<lparr>step = CROP_ART_AND_NAME, path = ''cards/EN/001/art_and_name/042.webp'',
            language = ''EN''\<rparr>]"
    by code_simp
  have h2: "disk ?st (originalWebp ?p) \<noteq> None" by code_simp
  have h3: "\<not> skipVariants exampleConfig" by code_simp
  have h4: "isFirstLanguage exampleConfig ''EN''" by code_simp
  have h5: "disk ?st (artAndNameWebp ?p) = Some (Image 734 1024)" by code_simp
  have h6: "disk ?st (artOnlyWebp ?p) = Some (Image 734 1024)" by code_simp
  from crop_not_resize[OF h1 h2 h3] h5
  have "\<lparr>step = CROP_ART_AND_NAME, path = artAndNameWebp ?p, language = ''EN''\<rparr>
        \<in> set [\<lparr>step = CROP_ART_ONLY, path = ''cards/001/art_only/042.webp'', language = ''shared''\<rparr>,
          \<lparr>step = CROP_ART_AND_NAME, path = ''cards/EN/001/art_and_name/042.webp'',
            language = ''EN''\<rparr>]"
    by blast
  with h1 h2 h3 h4 h5 h6 show ?thesis by (simp add: paths_EN)
qed

text \<open>
  The claim as first stated speaks of every variant on disk. It fails when the original is
  missing: the uncropped art_and_name file below gets no crop issue, only the download of
  the original is asked for.
\<close>

theorem uncropped_variant_without_original:
  "disk (newValidator diskUncroppedWithoutOriginal)
      (artAndNameWebp (getFilePaths exampleConfig ''cards'' 42 ''IT'')) = Some (Image 734 1024)
   \<and> fst (validateCard exampleConfig ''cards'' 42 ''IT'' (newValidator diskUncroppedWithoutOriginal))
      = Inr [\<lparr>step = DOWNLOAD, path = ''cards/IT/001/042.webp'', language = ''IT''\<rparr>]"
  by code_simp

section \<open>The dimensions of the original\<close>

text \<open>
  Claim C7, as amended. For an existing, decodable original, validation emits a
  \<open>RESIZE_ORIGINAL\<close> issue if and only if the probed dimensions are not exactly 734 by
  1024: the comparison of the original uses no tolerance.
\<close>

theorem original_exact_dimensions:
  assumes "fst (validateCard cfg rootFolder cardNum lang st) = Inr issues"
    and "disk st (originalWebp (getFilePaths cfg rootFolder cardNum lang)) = Some (Image w h)"
  shows "(\<exists>i \<in> set issues. step i = RESIZE_ORIGINAL) \<longleftrightarrow> (w \<noteq> 734 \<or> h \<noteq> 1024)"
proof -
  have ne: "disk st (originalWebp (getFilePaths cfg rootFolder cardNum lang)) \<noteq> None"
    using assms(2) by simp
  note iss = validateCard_issues_present[OF assms(1) ne]
  have "(\<exists>i \<in> set issues. step i = RESIZE_ORIGINAL) \<longleftrightarrow>
        (\<exists>i \<in> set (issuesOf (originalFindings (getCardNumber cardNum) lang
                      (getFilePaths cfg rootFolder cardNum lang) (disk st))). step i = RESIZE_ORIGINAL)"
    unfolding iss using artOnlyFindings_steps artAndNameFindings_steps by fastforce
  then show ?thesis
    using originalFindings_resize[where d = "disk st", OF assms(2)] by simp
qed

theorem original_exact_dimensions_witness:
  "fst (validateCard exampleConfig ''cards'' 42 ''IT'' (newValidator diskOriginal733)) =
     Inr [\<lparr>step = RESIZE_ORIGINAL, path = ''cards/IT/001/042.webp'', language = ''IT''\<rparr>]
   \<and> disk (newValidator diskOriginal733) ''cards/IT/001/042.webp'' = Some (Image 733 1023)
   \<and> ((\<exists>i \<in> set [\<lparr>step = RESIZE_ORIGINAL, path = ''cards/IT/001/042.webp'', language = ''IT''\<rparr>].
          step i = RESIZE_ORIGINAL) \<longleftrightarrow> ((733::nat) \<noteq> 734 \<or> (1023::nat) \<noteq> 1024))"
proof -
  let ?st = "newValidator diskOriginal733"
  let ?p = "getFilePaths exampleConfig ''cards'' 42 ''IT''"
  have h1: "fst (validateCard exampleConfig ''cards'' 42 ''IT'' ?st) =
     Inr [\<lparr>step = RESIZE_ORIGINAL, path = ''cards/IT/001/042.webp'', language = ''IT''\<rparr>]"
    by code_simp
  have h2: "disk ?st (originalWebp ?p) = Some (Image 733 1023)" by code_simp
  from original_exact_dimensions[OF h1 h2] h1 h2 show ?thesis by (simp add: paths_IT)
qed

text \<open>
  An original of 733 by 1023 pixels is within 2 pixels of 734 by 1024 on both axes and is
  flagged for resize all the same.
\<close>

theorem original_within_tolerance_flagged:
  "\<bar>int 733 - int 734\<bar> \<le> tolerancePx exampleConfig
   \<and> \<bar>int 1023 - int 1024\<bar> \<le> tolerancePx exampleConfig
   \<and> disk (newValidator diskOriginal733)
        (originalWebp (getFilePaths exampleConfig ''cards'' 42 ''IT'')) = Some (Image 733 1023)
   \<and> fst (validateCard exampleConfig ''cards'' 42 ''IT'' (newValidator diskOriginal733)) =
     Inr [\<lparr>step = RESIZE_ORIGINAL, path = ''cards/IT/001/042.webp'', language = ''IT''\<rparr>]"
  by code_simp

section \<open>The check of the original AVIF\<close>

text \<open>
  Claim C8, as amended. The check of the original's AVIF runs whenever the original WebP
  exists, whether or not the original is flagged for resize: validation emits a
  \<open>CONVERT_ORIGINAL\<close> issue if and only if the original WebP exists and the original
  AVIF does not.
\<close>

theorem convert_original_ungated:
  assumes "fst (validateCard cfg rootFolder cardNum lang st) = Inr issues"
  shows "(\<exists>i \<in> set issues. step i = CONVERT_ORIGINAL) \<longleftrightarrow>
         (disk st (originalWebp (getFilePaths cfg rootFolder cardNum lang)) \<noteq> None
          \<and> disk st (originalAvif (getFilePaths cfg rootFolder cardNum lang)) = None)"
proof (cases "disk st (originalWebp (getFilePaths cfg rootFolder cardNum lang)) = None")
  case True
  show ?thesis unfolding validateCard_issues_absent[OF assms True] using True by simp
next
  case False
  note iss = validateCard_issues_present[OF assms False]
  have "(\<exists>i \<in> set issues. step i = CONVERT_ORIGINAL) \<longleftrightarrow>
        (\<exists>i \<in> set (issuesOf (originalFindings (getCardNumber cardNum) lang
                      (getFilePaths cfg rootFolder cardNum lang) (disk st))). step i = CONVERT_ORIGINAL)"
    unfolding iss using artOnlyFindings_steps artAndNameFindings_steps by fastforce
  then show ?thesis unfolding originalFindings_convert using False by simp
qed

theorem convert_original_ungated_witness:
  "fst (validateCard exampleConfig ''cards'' 42 ''IT'' (newValidator diskOriginal700)) =
     Inr [\<lparr>step = RESIZE_ORIGINAL, path = ''cards/IT/001/042.webp'', language = ''IT''\<rparr>,
          \<lparr>step = CONVERT_ORIGINAL, path = ''cards/IT/001/042.avif'', language = ''IT''\<rparr>]
   \<and> ((\<exists>i \<in> set [\<lparr>step = RESIZE_ORIGINAL, path = ''cards/IT/001/042.webp'', language = ''IT''\<rparr>,
          \<lparr>step = CONVERT_ORIGINAL, path = ''cards/IT/001/042.avif'', language = ''IT''\<rparr>].
          step i = CONVERT_ORIGINAL) \<longleftrightarrow>
        (disk (newValidator diskOriginal700) ''cards/IT/001/042.webp'' \<noteq> None
         \<and> disk (newValidator diskOriginal700) ''cards/IT/001/042.avif'' = None))"
proof -
  have h1: "fst (validateCard exampleConfig ''cards'' 42 ''IT'' (newValidator diskOriginal700)) =
     Inr [\<lparr>step = RESIZE_ORIGINAL, path = ''cards/IT/001/042.webp'', language = ''IT''\<rparr>,
          \<lparr>step = CONVERT_ORIGINAL, path = ''cards/IT/001/042.avif'', language = ''IT''\<rparr>]"
    by code_simp
  from convert_original_ungated[OF h1] h1 show ?thesis by (simp add: paths_IT)
qed

text \<open>
  An original of the wrong size without AVIF gets both issues in the same pass.
\<close>

theorem resize_and_convert_original_together:
  "fst (validateCard exampleConfig ''cards'' 42 ''IT'' (newValidator diskOriginal700)) =
     Inr [\<lparr>step = RESIZE_ORIGINAL, path = ''cards/IT/001/042.webp'', language = ''IT''\<rparr>,
          \<lparr>step = CONVERT_ORIGINAL, path = ''cards/IT/001/042.avif'', language = ''IT''\<rparr>]"
  by code_simp

section \<open>The tolerance on the height of a variant\<close>

text \<open>
  Claim C9, as amended. For an existing variant that the validator examines and whose height
  is not 1024, no crop issue is emitted whatever the height is. A height within
  \<open>tolerancePx\<close> of the expected one, the boundary included, leaves no trace; a height
  further away, \<open>expected \<plusminus> (tolerancePx + 1)\<close> included, produces a warning in the
  log and still no issue.
\<close>

theorem variant_tolerance_warning_only:
  assumes "fst (validateCard cfg rootFolder cardNum lang st) = Inr issues"
    and "disk st (originalWebp (getFilePaths cfg rootFolder cardNum lang)) \<noteq> None"
    and "\<not> skipVariants cfg"
    and "h \<noteq> 1024"
  shows "(disk st (artAndNameWebp (getFilePaths cfg rootFolder cardNum lang)) = Some (Image w h)
          \<longrightarrow> (\<forall>i \<in> set issues. step i \<noteq> CROP_ART_AND_NAME)
              \<and> ((WARN, ArtAndNameUnexpectedDimensions (getCardNumber cardNum) lang w h)
                    \<in> set (drop (length (console st))
                             (console (snd (validateCard cfg rootFolder cardNum lang st))))
                  \<longleftrightarrow> \<bar>int h - int (snd (getExpectedDimensions art_and_name))\<bar> > tolerancePx cfg))
       \<and> (isFirstLanguage cfg lang
          \<and> disk st (artOnlyWebp (getFilePaths cfg rootFolder cardNum lang)) = Some (Image w h)
          \<longrightarrow> (\<forall>i \<in> set issues. step i \<noteq> CROP_ART_ONLY)
              \<and> ((WARN, ArtOnlyUnexpectedDimensions (getCardNumber cardNum) w h)
                    \<in> set (drop (length (console st))
                             (console (snd (validateCard cfg rootFolder cardNum lang st))))
                  \<longleftrightarrow> \<bar>int h - int (snd (getExpectedDimensions art_only))\<bar> > tolerancePx cfg))"
proof -
  let ?p = "getFilePaths cfg rootFolder cardNum lang"
  let ?cn = "getCardNumber cardNum"
  let ?O = "originalFindings ?cn lang ?p (disk st)"
  let ?A = "artOnlyFindings cfg ?cn lang ?p (disk st)"
  let ?N = "artAndNameFindings cfg ?cn lang ?p (disk st)"
  have iss: "set issues = set (issuesOf ?O) \<union> set (issuesOf ?A) \<union> set (issuesOf ?N)"
    unfolding validateCard_issues(1)[OF assms(1)] cardFindings_present[where d = "disk st", OF assms(2)] by auto
  have con: "set (drop (length (console st)) (console (snd (validateCard cfg rootFolder cardNum lang st))))
     = set (warningsOf ?O) \<union> set (warningsOf ?A) \<union> set (warningsOf ?N)"
    unfolding validateCard_console[OF assms(1)] cardFindings_present[where d = "disk st", OF assms(2)] by auto
  have aan: "disk st (artAndNameWebp ?p) = Some (Image w h) \<Longrightarrow>
       (\<forall>i \<in> set issues. step i \<noteq> CROP_ART_AND_NAME)
       \<and> ((WARN, ArtAndNameUnexpectedDimensions ?cn lang w h)
             \<in> set (drop (length (console st)) (console (snd (validateCard cfg rootFolder cardNum lang st))))
           \<longleftrightarrow> \<bar>int h - int (snd (getExpectedDimensions art_and_name))\<bar> > tolerancePx cfg)"
  proof -
    assume v: "disk st (artAndNameWebp ?p) = Some (Image w h)"
    have "\<not> (\<exists>i \<in> set (issuesOf ?N). step i = CROP_ART_AND_NAME)"
      unfolding artAndNameFindings_crop using v assms(4) by simp
    then have a: "\<forall>i \<in> set issues. step i \<noteq> CROP_ART_AND_NAME"
      unfolding iss using originalFindings_steps artOnlyFindings_steps by fastforce
    have b: "(WARN, ArtAndNameUnexpectedDimensions ?cn lang w h)
             \<in> set (drop (length (console st)) (console (snd (validateCard cfg rootFolder cardNum lang st))))
           \<longleftrightarrow> \<bar>int h - int (snd (getExpectedDimensions art_and_name))\<bar> > tolerancePx cfg"
      unfolding con using originalFindings_messages[of WARN "ArtAndNameUnexpectedDimensions ?cn lang w h"]
        v assms(3,4)
      by (auto simp: artAndNameFindings_unexpected artOnlyFindings_not_aan)
    from a b show ?thesis by simp
  qed
  have ao: "isFirstLanguage cfg lang \<Longrightarrow> disk st (artOnlyWebp ?p) = Some (Image w h) \<Longrightarrow>
       (\<forall>i \<in> set issues. step i \<noteq> CROP_ART_ONLY)
       \<and> ((WARN, ArtOnlyUnexpectedDimensions ?cn w h)
             \<in> set (drop (length (console st)) (console (snd (validateCard cfg rootFolder cardNum lang st))))
           \<longleftrightarrow> \<bar>int h - int (snd (getExpectedDimensions art_only))\<bar> > tolerancePx cfg)"
  proof -
    assume f: "isFirstLanguage cfg lang" and v: "disk st (artOnlyWebp ?p) = Some (Image w h)"
    have "\<not> (\<exists>i \<in> set (issuesOf ?A). step i = CROP_ART_ONLY)"
      unfolding artOnlyFindings_crop using v assms(4) by simp
    then have a: "\<forall>i \<in> set issues. step i \<noteq> CROP_ART_ONLY"
      unfolding iss using originalFindings_steps artAndNameFindings_steps by fastforce
    have b: "(WARN, ArtOnlyUnexpectedDimensions ?cn w h)
             \<in> set (drop (length (console st)) (console (snd (validateCard cfg rootFolder cardNum lang st))))
           \<longleftrightarrow> \<bar>int h - int (snd (getExpectedDimensions art_only))\<bar> > tolerancePx cfg"
      unfolding con using originalFindings_messages[of WARN "ArtOnlyUnexpectedDimensions ?cn w h"]
        v f assms(3,4)
      by (auto simp: artOnlyFindings_unexpected artAndNameFindings_not_ao)
    from a b show ?thesis by simp
  qed
  from aan ao show ?thesis by blast
qed

theorem variant_tolerance_warning_only_witness:
  "fst (validateCard exampleConfig ''cards'' 42 ''IT'' (newValidator diskVariant770)) = Inr []
   \<and> disk (newValidator diskVariant770) ''cards/IT/001/042.webp'' \<noteq> None
   \<and> \<not> skipVariants exampleConfig
   \<and> (770::nat) \<noteq> 1024
   \<and> disk (newValidator diskVariant770) ''cards/IT/001/art_and_name/042.webp'' = Some (Image 734 770)
   \<and> \<bar>int 770 - int (snd (getExpectedDimensions art_and_name))\<bar> > tolerancePx exampleConfig
   \<and> (WARN, ArtAndNameUnexpectedDimensions ''042'' ''IT'' 734 770)
        \<in> set (drop (length (console (newValidator diskVariant770)))
                 (console (snd (validateCard exampleConfig ''cards'' 42 ''IT''
                                  (newValidator diskVariant770)))))"
proof -
  let ?st = "newValidator diskVariant770"
  let ?p = "getFilePaths exampleConfig ''cards'' 42 ''IT''"
  have h1: "fst (validateCard exampleConfig ''cards'' 42 ''IT'' ?st) = Inr []" by code_simp
  have h2: "disk ?st (originalWebp ?p) \<noteq> None" by code_simp
  have h3: "\<not> skipVariants exampleConfig" by code_simp
  have h4: "(770::nat) \<noteq> 1024" by simp
  have h5: "disk ?st (artAndNameWebp ?p) = Some (Image 734 770)" by code_simp
  have h6: "\<bar>int 770 - int (snd (getExpectedDimensions art_and_name))\<bar> > tolerancePx exampleConfig"
    by (simp add: exampleConfig_def)
  have cn: "getCardNumber 42 = ''042''" by code_simp
  from variant_tolerance_warning_only[OF h1 h2 h3 h4, of 734] h5 h6
  have "(WARN, ArtAndNameUnexpectedDimensions (getCardNumber 42) ''IT'' 734 770)
        \<in> set (drop (length (console ?st))
                 (console (snd (validateCard exampleConfig ''cards'' 42 ''IT'' ?st))))"
    by blast
  with h1 h2 h3 h4 h5 h6 show ?thesis by (simp add: paths_IT cn)
qed

text \<open>
  The claim as first stated asks for an issue at \<open>expected + tolerancePx + 1\<close>. An
  art_and_name file of height 770 = 767 + 2 + 1 on an otherwise complete card gives none.
\<close>

theorem variant_beyond_tolerance_no_issue:
  "disk (newValidator diskVariant770)
      (artAndNameWebp (getFilePaths exampleConfig ''cards'' 42 ''IT'')) = Some (Image 734 770)
   \<and> snd (getExpectedDimensions art_and_name) + nat (tolerancePx exampleConfig + 1) = 770
   \<and> fst (validateCard exampleConfig ''cards'' 42 ''IT'' (newValidator diskVariant770)) = Inr []"
  by code_simp

section \<open>The crop is atomic\<close>




section \<open>The pixel arithmetic of the crop\<close>



section \<open>A crop needs a source of exactly 734 by 1024\<close>

text \<open>
  Claim C10. If the original WebP of the card is an image whose dimensions are not exactly
  734 by 1024, then \<open>cropImage\<close> throws \<open>Source has unexpected dimensions\<close> without
  calling the image library for a write, and the crop fix of \<open>fixIssue\<close> returns false,
  counts one more failure and no recovery, and leaves the disk as it was but for the three
  temporary files, which it deletes; the destination is unchanged.
\<close>

theorem crop_refuses_inexact_source:
  assumes "disk st (originalWebp (getFilePaths cfg rootFolder cardNum lang)) = Some (Image w h)"
    and "w \<noteq> 734 \<or> h \<noteq> 1024"
    and "iss = \<lparr>step = (if artOnly then CROP_ART_ONLY else CROP_ART_AND_NAME),
                path = destinationFile, language = l\<rparr>"
    and "destinationFile = (if artOnly then artOnlyWebp (getFilePaths cfg rootFolder cardNum lang)
                            else artAndNameWebp (getFilePaths cfg rootFolder cardNum lang))"
  shows "fst (cropImage e (originalWebp (getFilePaths cfg rootFolder cardNum lang)) destinationFile
                artOnly (getCardNumber cardNum) st) = Inl (SourceUnexpectedDimensions w h)
       \<and> fst (fixIssue e cfg rootFolder iss cardNum lang st) = False
       \<and> failed (snd (fixIssue e cfg rootFolder iss cardNum lang st)) = failed st + 1
       \<and> recovered (snd (fixIssue e cfg rootFolder iss cardNum lang st)) = recovered st
       \<and> clock (snd (fixIssue e cfg rootFolder iss cardNum lang st)) = clock st
       \<and> disk (snd (fixIssue e cfg rootFolder iss cardNum lang st)) destinationFile
           = disk st destinationFile
       \<and> disk (snd (fixIssue e cfg rootFolder iss cardNum lang st))
           = (disk st)(tempDestinationOf destinationFile := None,
                       topFileOf destinationFile := None,
                       bottomFileOf destinationFile := None)"
proof -
  let ?p = "getFilePaths cfg rootFolder cardNum lang"
  have ne: "disk st (originalWebp ?p) \<noteq> Some (Image 734 1024)" using assms(1,2) by auto
  obtain stem where stem: "destinationFile = stem @ ''.webp''"
    using assms(4) by (cases artOnly) (simp_all add: getFilePaths_def Let_def)
  note t = temps_neq[OF stem]
  note c = cropImage_refuses[OF ne, where e = e and destinationFile = destinationFile
      and artOnly = artOnly and cardNumber = "getCardNumber cardNum"]
  show ?thesis
    using c assms(1) t unfolding assms(3) assms(4)
    by (cases artOnly)
       (simp_all add: fixIssue_def dispatch_def Let_def andThen_def ret_def log_msg_def)
qed

theorem crop_refuses_inexact_source_witness:
  "disk (newValidator diskOriginal733) ''cards/IT/001/042.webp'' = Some (Image 733 1023)
   \<and> (733::nat) \<noteq> 734
   \<and> fst (fixIssue allSucceed exampleConfig ''cards''
            \<lparr>step = CROP_ART_AND_NAME, path = ''cards/IT/001/art_and_name/042.webp'',
              language = ''IT''\<rparr> 42 ''IT'' (newValidator diskOriginal733)) = False
   \<and> failed (snd (fixIssue allSucceed exampleConfig ''cards''
            \<lparr>step = CROP_ART_AND_NAME, path = ''cards/IT/001/art_and_name/042.webp'',
              language = ''IT''\<rparr> 42 ''IT'' (newValidator diskOriginal733))) = 1
   \<and> disk (snd (fixIssue allSucceed exampleConfig ''cards''
            \<lparr>step = CROP_ART_AND_NAME, path = ''cards/IT/001/art_and_name/042.webp'',
              language = ''IT''\<rparr> 42 ''IT'' (newValidator diskOriginal733)))
         ''cards/IT/001/art_and_name/042.webp'' = Some (Image 734 767)"
proof -
  let ?st = "newValidator diskOriginal733"
  let ?p = "getFilePaths exampleConfig ''cards'' 42 ''IT''"
  let ?iss = "\<lparr>step = CROP_ART_AND_NAME, path = ''cards/IT/001/art_and_name/042.webp'',
              language = ''IT''\<rparr>"
  have h1: "disk ?st (originalWebp ?p) = Some (Image 733 1023)"
    by (simp add: paths_IT newValidator_def diskOriginal733_def)
  have h2: "(733::nat) \<noteq> 734 \<or> (1023::nat) \<noteq> 1024" by simp
  have h3: "?iss = \<lparr>step = (if False then CROP_ART_ONLY else CROP_ART_AND_NAME),
                path = ''cards/IT/001/art_and_name/042.webp'', language = ''IT''\<rparr>"
    by simp
  have h4: "''cards/IT/001/art_and_name/042.webp'' =
      (if False then artOnlyWebp ?p else artAndNameWebp ?p)"
    by (simp add: paths_IT)
  have d: "disk ?st ''cards/IT/001/art_and_name/042.webp'' = Some (Image 734 767)"
    by (simp add: newValidator_def diskOriginal733_def)
  have f: "failed ?st = 0" by (simp add: newValidator_def)
  from crop_refuses_inexact_source[OF h1 h2 h3 h4, of allSucceed] h1 d f
  show ?thesis by (simp add: paths_IT temps_IT)
qed

section \<open>The art_only variant belongs to the first language\<close>

text \<open>
  Claim C6. For a language that is not the first one configured, validation emits neither
  a \<open>CROP_ART_ONLY\<close> nor a \<open>CONVERT_ART_ONLY\<close> issue; and in a whole run of
  \<open>validateAndFixAll\<close>, over any number of languages and cards and whatever the outside
  world does, no art_only fix is attempted for that language: the two fixes that write the
  art_only files are attempted in the repair of the first language only.
\<close>

theorem art_only_first_language_only:
  assumes "\<not> isFirstLanguage cfg lang"
  shows "(fst (validateCard cfg rootFolder cardNum lang st) = Inr issues
            \<longrightarrow> (\<forall>i \<in> set issues. step i \<noteq> CROP_ART_ONLY \<and> step i \<noteq> CONVERT_ART_ONLY))
       \<and> (\<forall>x \<in> set (executed (snd (validateAndFixAll e cfg rootFolder st0))).
             fst (snd x) = lang \<and> (snd (snd x) = CROP_ART_ONLY \<or> snd (snd x) = CONVERT_ART_ONLY)
               \<longrightarrow> x \<in> set (executed st0))"
proof -
  have a: "fst (validateCard cfg rootFolder cardNum lang st) = Inr issues
            \<longrightarrow> (\<forall>i \<in> set issues. step i \<noteq> CROP_ART_ONLY \<and> step i \<noteq> CONVERT_ART_ONLY)"
    using validateCard_noArtOnly[OF assms] by (auto simp: noArtOnly_def)
  have c: "\<forall>x \<in> set (executed (snd (validateAndFixAll e cfg rootFolder st0))).
             fst (snd x) = lang \<and> (snd (snd x) = CROP_ART_ONLY \<or> snd (snd x) = CONVERT_ART_ONLY)
               \<longrightarrow> x \<in> set (executed st0)"
  proof -
    from validateAndFixAll_executed[of e cfg rootFolder st0] obtain ys where
      ys: "executed (snd (validateAndFixAll e cfg rootFolder st0)) = executed st0 @ ys"
          "firstLanguageOwnsArtOnly cfg ys" by blast
    show ?thesis unfolding ys(1) using ys(2) assms
      by (auto simp: firstLanguageOwnsArtOnly_def)
  qed
  from a c show ?thesis by blast
qed

theorem art_only_first_language_only_witness:
  "\<not> isFirstLanguage exampleConfig ''IT''
   \<and> fst (validateCard exampleConfig ''cards'' 42 ''IT'' (newValidator diskOriginal700))
       = Inr [\<lparr>step = RESIZE_ORIGINAL, path = ''cards/IT/001/042.webp'', language = ''IT''\<rparr>,
              \<lparr>step = CONVERT_ORIGINAL, path = ''cards/IT/001/042.avif'', language = ''IT''\<rparr>]
   \<and> (''042'', ''IT'', CROP_ART_ONLY)
        \<notin> set (executed (snd (validateAndFixAll allSucceed exampleConfig ''cards''
                                 (newValidator diskOriginal700))))
   \<and> (''042'', ''IT'', CONVERT_ART_ONLY)
        \<notin> set (executed (snd (validateAndFixAll allSucceed exampleConfig ''cards''
                                 (newValidator diskOriginal700))))"
proof -
  have h: "\<not> isFirstLanguage exampleConfig ''IT''"
    by (simp add: isFirstLanguage_def exampleConfig_def)
  have v: "fst (validateCard exampleConfig ''cards'' 42 ''IT'' (newValidator diskOriginal700))
       = Inr [\<lparr>step = RESIZE_ORIGINAL, path = ''cards/IT/001/042.webp'', language = ''IT''\<rparr>,
              \<lparr>step = CONVERT_ORIGINAL, path = ''cards/IT/001/042.avif'', language = ''IT''\<rparr>]"
    by code_simp
  have e0: "executed (newValidator diskOriginal700) = []"
    by (simp add: executed_def newValidator_def)
  note t = art_only_first_language_only[OF h, where e = allSucceed and rootFolder = "''cards''"
      and st0 = "newValidator diskOriginal700"]
  have "(''042'', ''IT'', CROP_ART_ONLY)
        \<notin> set (executed (snd (validateAndFixAll allSucceed exampleConfig ''cards''
                                 (newValidator diskOriginal700))))"
    using t e0 by fastforce
  moreover have "(''042'', ''IT'', CONVERT_ART_ONLY)
        \<notin> set (executed (snd (validateAndFixAll allSucceed exampleConfig ''cards''
                                 (newValidator diskOriginal700))))"
    using t e0 by fastforce
  ultimately show ?thesis using h v by simp
qed

section \<open>The repair loop is bounded\<close>

text \<open>
  Claim C2. The repair loop of a card is a total function and its attempt counter never
  exceeds \<open>maxAttempts\<close> = 3, so it makes at most three sort-apply-revalidate passes,
  whatever the issues, the disk and the outside world are. For a card whose original is
  missing and whose download fails with a status other than 200 at every attempt, the loop
  ends after exactly three passes: each pass attempts the download, fails, leaves the disk
  as it was and re-validates to the same single download issue; three failures are counted.
\<close>

theorem bounded_retry:
  "fst (snd (fixLoop e cfg rootFolder cardNum lang 0 issues st)) \<le> maxAttempts
   \<and> maxAttempts = 3
   \<and> ((\<forall>t. \<exists>code. http e t = StatusOther code)
        \<and> disk st (originalWebp (getFilePaths cfg rootFolder cardNum lang)) = None
        \<and> dl = \<lparr>step = DOWNLOAD, path = originalWebp (getFilePaths cfg rootFolder cardNum lang),
                  language = lang\<rparr>
      \<longrightarrow> fst (validateCard cfg rootFolder cardNum lang st) = Inr [dl]
        \<and> fst (fixLoop e cfg rootFolder cardNum lang 0 [dl]
                 (snd (validateCard cfg rootFolder cardNum lang st))) = Inr [dl]
        \<and> fst (snd (fixLoop e cfg rootFolder cardNum lang 0 [dl]
                 (snd (validateCard cfg rootFolder cardNum lang st)))) = 3
        \<and> disk (snd (snd (fixLoop e cfg rootFolder cardNum lang 0 [dl]
                 (snd (validateCard cfg rootFolder cardNum lang st))))) = disk st
        \<and> failed (snd (snd (fixLoop e cfg rootFolder cardNum lang 0 [dl]
                 (snd (validateCard cfg rootFolder cardNum lang st))))) = failed st + 3
        \<and> executed (snd (snd (fixLoop e cfg rootFolder cardNum lang 0 [dl]
                 (snd (validateCard cfg rootFolder cardNum lang st)))))
            = executed st @ [(getCardNumber cardNum, lang, DOWNLOAD),
                             (getCardNumber cardNum, lang, DOWNLOAD),
                             (getCardNumber cardNum, lang, DOWNLOAD)]
        \<and> (\<forall>s. disk s = disk st \<longrightarrow>
               fst (validateCard cfg rootFolder cardNum lang
                      (applyFixes e cfg rootFolder cardNum lang (sortIssuesByPipelineOrder [dl]) s))
                 = Inr [dl]
               \<and> disk (snd (validateCard cfg rootFolder cardNum lang
                      (applyFixes e cfg rootFolder cardNum lang (sortIssuesByPipelineOrder [dl]) s)))
                 = disk st))"
proof (intro conjI impI)
  show "fst (snd (fixLoop e cfg rootFolder cardNum lang 0 issues st)) \<le> maxAttempts"
    by (rule fixLoop_attempt_le) simp
  show three: "maxAttempts = 3" by (simp add: maxAttempts_def)
  assume hyp: "(\<forall>t. \<exists>code. http e t = StatusOther code)
        \<and> disk st (originalWebp (getFilePaths cfg rootFolder cardNum lang)) = None
        \<and> dl = \<lparr>step = DOWNLOAD, path = originalWebp (getFilePaths cfg rootFolder cardNum lang),
                  language = lang\<rparr>"
  then have perm: "\<forall>t. \<exists>code. http e t = StatusOther code"
    and none: "disk st (originalWebp (getFilePaths cfg rootFolder cardNum lang)) = None"
    and dl: "dl = \<lparr>step = DOWNLOAD, path = originalWebp (getFilePaths cfg rootFolder cardNum lang),
                  language = lang\<rparr>"
    by simp_all
  let ?s0 = "snd (validateCard cfg rootFolder cardNum lang st)"
  show v0: "fst (validateCard cfg rootFolder cardNum lang st) = Inr [dl]"
    using validateCard_missing_original[OF none] by (simp add: dl)
  have s0: "disk ?s0 = disk st" "failed ?s0 = failed st" "executed ?s0 = executed st"
    by (simp_all add: validateCard_state executed_validateCard)
  have none0: "disk ?s0 (originalWebp (getFilePaths cfg rootFolder cardNum lang)) = None"
    using none s0(1) by simp
  have z: "(0::nat) \<le> maxAttempts" by simp
  note l = failing_download_loop[OF perm dl z none0]
  show "fst (fixLoop e cfg rootFolder cardNum lang 0 [dl] ?s0) = Inr [dl]"
    using l by simp
  show "fst (snd (fixLoop e cfg rootFolder cardNum lang 0 [dl] ?s0)) = 3"
    using l three by simp
  show "disk (snd (snd (fixLoop e cfg rootFolder cardNum lang 0 [dl] ?s0))) = disk st"
    using l s0 by simp
  show "failed (snd (snd (fixLoop e cfg rootFolder cardNum lang 0 [dl] ?s0))) = failed st + 3"
    using l s0 three by simp
  show "executed (snd (snd (fixLoop e cfg rootFolder cardNum lang 0 [dl] ?s0)))
            = executed st @ [(getCardNumber cardNum, lang, DOWNLOAD),
                             (getCardNumber cardNum, lang, DOWNLOAD),
                             (getCardNumber cardNum, lang, DOWNLOAD)]"
    using l[unfolded three] s0 by (simp add: numeral_3_eq_3)
  show "\<forall>s. disk s = disk st \<longrightarrow>
               fst (validateCard cfg rootFolder cardNum lang
                      (applyFixes e cfg rootFolder cardNum lang (sortIssuesByPipelineOrder [dl]) s))
                 = Inr [dl]
               \<and> disk (snd (validateCard cfg rootFolder cardNum lang
                      (applyFixes e cfg rootFolder cardNum lang (sortIssuesByPipelineOrder [dl]) s)))
                 = disk st"
  proof (intro allI impI)
    fix s :: state
    assume ds: "disk s = disk st"
    obtain code where c: "http e (clock s) = StatusOther code" using perm by blast
    have sd: "step dl = DOWNLOAD" by (simp add: dl)
    note f = fixIssue_download_fails[OF c sd, of cfg rootFolder cardNum lang]
    let ?s1 = "snd (fixIssue e cfg rootFolder dl cardNum lang s)"
    have m1: "disk ?s1 (originalWebp (getFilePaths cfg rootFolder cardNum lang)) = None"
      using f(2) ds none by simp
    show "fst (validateCard cfg rootFolder cardNum lang
                    (applyFixes e cfg rootFolder cardNum lang (sortIssuesByPipelineOrder [dl]) s))
               = Inr [dl]
             \<and> disk (snd (validateCard cfg rootFolder cardNum lang
                    (applyFixes e cfg rootFolder cardNum lang (sortIssuesByPipelineOrder [dl]) s)))
               = disk st"
      using validateCard_missing_original[OF m1] f(2) ds
      by (simp add: validateCard_state dl)
  qed
qed

theorem bounded_retry_witness:
  "(\<forall>t. \<exists>code. http notFound t = StatusOther code)
   \<and> disk (newValidator diskUncroppedWithoutOriginal) ''cards/IT/001/042.webp'' = None
   \<and> fst (fixLoop notFound exampleConfig ''cards'' 42 ''IT'' 0
            [\<lparr>step = DOWNLOAD, path = ''cards/IT/001/042.webp'', language = ''IT''\<rparr>]
            (snd (validateCard exampleConfig ''cards'' 42 ''IT''
                    (newValidator diskUncroppedWithoutOriginal))))
       = Inr [\<lparr>step = DOWNLOAD, path = ''cards/IT/001/042.webp'', language = ''IT''\<rparr>]
   \<and> fst (snd (fixLoop notFound exampleConfig ''cards'' 42 ''IT'' 0
            [\<lparr>step = DOWNLOAD, path = ''cards/IT/001/042.webp'', language = ''IT''\<rparr>]
            (snd (validateCard exampleConfig ''cards'' 42 ''IT''
                    (newValidator diskUncroppedWithoutOriginal))))) = 3"
proof -
  let ?st = "newValidator diskUncroppedWithoutOriginal"
  let ?dl = "\<lparr>step = DOWNLOAD, path = ''cards/IT/001/042.webp'', language = ''IT''\<rparr>"
  have h1: "\<forall>t. \<exists>code. http notFound t = StatusOther code" by (simp add: notFound_def)
  have h2: "disk ?st (originalWebp (getFilePaths exampleConfig ''cards'' 42 ''IT'')) = None"
    by (simp add: paths_IT newValidator_def diskUncroppedWithoutOriginal_def)
  have h3: "?dl = \<lparr>step = DOWNLOAD,
                   path = originalWebp (getFilePaths exampleConfig ''cards'' 42 ''IT''),
                   language = ''IT''\<rparr>"
    by (simp add: paths_IT)
  have hyp: "(\<forall>t. \<exists>code. http notFound t = StatusOther code)
        \<and> disk ?st (originalWebp (getFilePaths exampleConfig ''cards'' 42 ''IT'')) = None
        \<and> ?dl = \<lparr>step = DOWNLOAD,
                   path = originalWebp (getFilePaths exampleConfig ''cards'' 42 ''IT''),
                   language = ''IT''\<rparr>"
    using h1 h2 h3 by blast
  note t = bounded_retry[where e = notFound and cfg = exampleConfig and rootFolder = "''cards''"
      and cardNum = 42 and lang = "''IT''" and st = ?st and dl = ?dl and issues = "[]",
      THEN conjunct2, THEN conjunct2, THEN mp, OF hyp]
  note c2 = t[THEN conjunct2, THEN conjunct1]
  note c3 = t[THEN conjunct2, THEN conjunct2, THEN conjunct1]
  have d: "disk ?st ''cards/IT/001/042.webp'' = None"
    by (simp add: newValidator_def diskUncroppedWithoutOriginal_def)
  from h1 d c2 c3 show ?thesis by blast
qed

section \<open>The pipeline order of the repair\<close>




end
